(* ===== verification/Volparossa_Prelude.thy ===== *)
theory Volparossa_Prelude
  imports Main "HOL-Library.Word" "HOL-Library.List_Lexorder" "HOL-Library.Code_Target_Nat"
begin

text \<open>
  Shared vocabulary of the development.

  \<^item> Byte strings (\<^verbatim>\<open>Vec<u8>\<close>, \<^verbatim>\<open>&[u8]\<close>, \<^verbatim>\<open>[u8; N]\<close>) are lists of
    \<^typ>\<open>8 word\<close>; the order on them is the lexicographic one, as Rust's \<^verbatim>\<open>Ord\<close> on slices.
  \<^item> A Rust \<^verbatim>\<open>Result<T, E>\<close> is a value of the sum type \<open>'e + 't\<close>, \<open>Inl\<close> the error. The
    \<^verbatim>\<open>?\<close> operator is \<open>rbind\<close>, \<^verbatim>\<open>ok_or\<close> is \<open>ok_or\<close>, \<^verbatim>\<open>map_err\<close> is \<open>map_err\<close>, and
    \<^verbatim>\<open>collect::<Result<Vec<_>, _>>()\<close> is \<open>rtraverse\<close>.
  \<^item> Unsigned machine integers whose arithmetic is checked in the code are natural numbers
    with the width written into the checked and saturating operations; integers on which
    the code works bitwise are words.
  \<^item> The two locales at the end are the interfaces that several components implement: a
    component whose failing operations leave its state alone and whose successful
    operations keep an invariant, and a component whose operations keep an invariant
    whatever they answer.
\<close>

section \<open>Bytes\<close>

type_synonym byte = "8 word"
type_synonym bytes = "byte list"

definition zero32 :: bytes where
  "zero32 = replicate 32 0"

lemma length_zero32 [simp]: "length zero32 = 32"
  by (simp add: zero32_def)

text \<open>The bytes of an ASCII literal.\<close>

definition ascii :: "string \<Rightarrow> bytes" where
  "ascii s = map (\<lambda>c. word_of_nat (of_char c)) s"

section \<open>Results\<close>

named_theorems result_simps \<open>inversion rules for results\<close>

definition rbind :: "'e + 'a \<Rightarrow> ('a \<Rightarrow> 'e + 'b) \<Rightarrow> 'e + 'b" where
  "rbind r f = (case r of Inl e \<Rightarrow> Inl e | Inr a \<Rightarrow> f a)"

definition ensure :: "bool \<Rightarrow> 'e \<Rightarrow> 'e + unit" where
  "ensure c e = (if c then Inr () else Inl e)"

definition ok_or :: "'a option \<Rightarrow> 'e \<Rightarrow> 'e + 'a" where
  "ok_or x e = (case x of None \<Rightarrow> Inl e | Some a \<Rightarrow> Inr a)"

definition map_err :: "('e \<Rightarrow> 'f) \<Rightarrow> 'e + 'a \<Rightarrow> 'f + 'a" where
  "map_err f r = (case r of Inl e \<Rightarrow> Inl (f e) | Inr a \<Rightarrow> Inr a)"

fun rtraverse :: "('a \<Rightarrow> 'e + 'b) \<Rightarrow> 'a list \<Rightarrow> 'e + 'b list" where
  "rtraverse f [] = Inr []"
| "rtraverse f (x # xs) = rbind (f x) (\<lambda>y. rbind (rtraverse f xs) (\<lambda>ys. Inr (y # ys)))"

definition is_ok :: "'e + 'a \<Rightarrow> bool" where
  "is_ok r = (case r of Inl _ \<Rightarrow> False | Inr _ \<Rightarrow> True)"

lemma rbind_simps [simp]:
  "rbind (Inl e) f = Inl e"
  "rbind (Inr a) f = f a"
  by (simp_all add: rbind_def)

lemma ensure_simps [simp]:
  "ensure True e = Inr ()"
  "ensure False e = Inl e"
  by (simp_all add: ensure_def)

lemma ok_or_simps [simp]:
  "ok_or None e = Inl e"
  "ok_or (Some a) e = Inr a"
  by (simp_all add: ok_or_def)

lemma map_err_simps [simp]:
  "map_err f (Inl e) = Inl (f e)"
  "map_err f (Inr a) = Inr a"
  by (simp_all add: map_err_def)

lemma is_ok_simps [simp]:
  "is_ok (Inl e) = False"
  "is_ok (Inr a) = True"
  by (simp_all add: is_ok_def)

lemma rbind_Inr_conv [result_simps]:
  "rbind r f = Inr b \<longleftrightarrow> (\<exists>a. r = Inr a \<and> f a = Inr b)"
  by (cases r) auto

lemma rbind_Inl_conv [result_simps]:
  "rbind r f = Inl e \<longleftrightarrow> r = Inl e \<or> (\<exists>a. r = Inr a \<and> f a = Inl e)"
  by (cases r) auto

lemma ensure_Inr_conv [result_simps]: "ensure c e = Inr u \<longleftrightarrow> c"
  by (simp add: ensure_def)

lemma ensure_Inl_conv [result_simps]: "ensure c e = Inl d \<longleftrightarrow> \<not> c \<and> d = e"
  by (auto simp: ensure_def)

lemma ok_or_Inr_conv [result_simps]: "ok_or x e = Inr a \<longleftrightarrow> x = Some a"
  by (cases x) auto

lemma ok_or_Inl_conv [result_simps]: "ok_or x e = Inl d \<longleftrightarrow> x = None \<and> d = e"
  by (cases x) auto

lemma map_err_Inr_conv [result_simps]: "map_err f r = Inr a \<longleftrightarrow> r = Inr a"
  by (cases r) auto

lemma map_err_Inl_conv [result_simps]: "map_err f r = Inl d \<longleftrightarrow> (\<exists>e. r = Inl e \<and> d = f e)"
  by (cases r) auto

lemma if_Inl_Inr_conv [result_simps]:
  "(if c then Inl e else x) = Inr b \<longleftrightarrow> \<not> c \<and> x = Inr b"
  "(if c then x else Inl e) = Inr b \<longleftrightarrow> c \<and> x = Inr b"
  by auto

lemma is_ok_conv: "is_ok r \<longleftrightarrow> (\<exists>a. r = Inr a)"
  by (cases r) auto

lemma rtraverse_length: "rtraverse f xs = Inr ys \<Longrightarrow> length ys = length xs"
  by (induction xs arbitrary: ys) (auto simp: result_simps)

lemma rtraverse_nth:
  "rtraverse f xs = Inr ys \<Longrightarrow> i < length xs \<Longrightarrow> f (xs ! i) = Inr (ys ! i)"
  by (induction xs arbitrary: ys i) (auto simp: result_simps nth_Cons split: nat.splits)

lemma rtraverse_map: "(\<And>x. x \<in> set xs \<Longrightarrow> f x = Inr (g x)) \<Longrightarrow> rtraverse f xs = Inr (map g xs)"
  by (induction xs) auto

section \<open>Fixed-width unsigned arithmetic\<close>

definition u64_max :: nat where
  "u64_max = 2 ^ 64 - 1"

definition u32_max :: nat where
  "u32_max = 2 ^ 32 - 1"

definition checked_add_u64 :: "nat \<Rightarrow> nat \<Rightarrow> nat option" where
  "checked_add_u64 a b = (if a + b \<le> u64_max then Some (a + b) else None)"

definition checked_add_u32 :: "nat \<Rightarrow> nat \<Rightarrow> nat option" where
  "checked_add_u32 a b = (if a + b \<le> u32_max then Some (a + b) else None)"

definition checked_sub :: "nat \<Rightarrow> nat \<Rightarrow> nat option" where
  "checked_sub a b = (if b \<le> a then Some (a - b) else None)"

definition saturating_add_u64 :: "nat \<Rightarrow> nat \<Rightarrow> nat" where
  "saturating_add_u64 a b = min (a + b) u64_max"

definition filter_option :: "('a \<Rightarrow> bool) \<Rightarrow> 'a option \<Rightarrow> 'a option" where
  "filter_option p x = (case x of None \<Rightarrow> None | Some a \<Rightarrow> if p a then Some a else None)"

definition is_none_or :: "('a \<Rightarrow> bool) \<Rightarrow> 'a option \<Rightarrow> bool" where
  "is_none_or p x = (case x of None \<Rightarrow> True | Some a \<Rightarrow> p a)"

lemma checked_sub_Some [result_simps]: "checked_sub a b = Some c \<longleftrightarrow> b \<le> a \<and> c = a - b"
  by (auto simp: checked_sub_def)

lemma checked_sub_None [result_simps]: "checked_sub a b = None \<longleftrightarrow> a < b"
  by (auto simp: checked_sub_def)

lemma checked_add_u64_Some [result_simps]:
  "checked_add_u64 a b = Some c \<longleftrightarrow> a + b \<le> u64_max \<and> c = a + b"
  by (auto simp: checked_add_u64_def)

lemma checked_add_u32_Some [result_simps]:
  "checked_add_u32 a b = Some c \<longleftrightarrow> a + b \<le> u32_max \<and> c = a + b"
  by (auto simp: checked_add_u32_def)

lemma checked_add_None [result_simps]:
  "checked_add_u64 a b = None \<longleftrightarrow> u64_max < a + b"
  "checked_add_u32 a b = None \<longleftrightarrow> u32_max < a + b"
  by (auto simp: checked_add_u64_def checked_add_u32_def)

lemma filter_option_Some [result_simps]: "filter_option p x = Some a \<longleftrightarrow> x = Some a \<and> p a"
  by (cases x) (auto simp: filter_option_def)

lemma filter_option_None [result_simps]:
  "filter_option p x = None \<longleftrightarrow> (\<forall>a. x = Some a \<longrightarrow> \<not> p a)"
  by (cases x) (auto simp: filter_option_def)

lemma is_none_or_simps [simp]:
  "is_none_or p None = True"
  "is_none_or p (Some a) = p a"
  by (simp_all add: is_none_or_def)

section \<open>Lists\<close>

definition windows2 :: "'a list \<Rightarrow> ('a \<times> 'a) list" where
  "windows2 xs = zip xs (tl xs)"

definition strictly_sorted :: "'a::linorder list \<Rightarrow> bool" where
  "strictly_sorted xs \<longleftrightarrow> (\<forall>(a, b) \<in> set (windows2 xs). a < b)"

lemma windows2_simps [simp]:
  "windows2 [] = []"
  "windows2 [x] = []"
  "windows2 (x # y # zs) = (x, y) # windows2 (y # zs)"
  by (simp_all add: windows2_def)

lemma strictly_sorted_simps [simp]:
  "strictly_sorted []"
  "strictly_sorted [x]"
  "strictly_sorted (x # y # zs) \<longleftrightarrow> x < y \<and> strictly_sorted (y # zs)"
  by (simp_all add: strictly_sorted_def)

lemma strictly_sorted_iff: "strictly_sorted xs \<longleftrightarrow> sorted_wrt (<) xs"
proof (induction xs rule: induct_list012)
  case (3 x y zs)
  then show ?case by (auto dest: order.strict_trans)
qed simp_all

lemma strictly_sorted_distinct: "strictly_sorted xs \<Longrightarrow> distinct xs"
  by (simp add: strictly_sorted_iff strict_sorted_iff)

lemma sum_list_map_remove:
  fixes f :: "'a \<Rightarrow> nat"
  assumes "x \<in> set xs" "distinct (map k xs)"
  shows "sum_list (map f xs) = f x + sum_list (map f (filter (\<lambda>y. k y \<noteq> k x) xs))"
  using assms
proof (induction xs)
  case (Cons a xs)
  show ?case
  proof (cases "a = x")
    case True
    with Cons.prems have "filter (\<lambda>y. k y \<noteq> k x) xs = xs"
      by (intro filter_True) (metis image_eqI distinct.simps(2) list.simps(9) set_map)
    with True show ?thesis by simp
  next
    case False
    with Cons.prems have "k a \<noteq> k x" "x \<in> set xs" by auto
    with Cons show ?thesis by simp
  qed
qed simp

section \<open>Big-endian integers\<close>

text \<open>\<^verbatim>\<open>to_be_bytes\<close> and \<^verbatim>\<open>from_be_bytes\<close> for a width of \<open>k\<close> bytes.\<close>

fun be_bytes :: "nat \<Rightarrow> nat \<Rightarrow> bytes" where
  "be_bytes 0 n = []"
| "be_bytes (Suc k) n = be_bytes k (n div 256) @ [word_of_nat n]"

definition be_nat :: "bytes \<Rightarrow> nat" where
  "be_nat bs = foldl (\<lambda>acc b. acc * 256 + unat b) 0 bs"

lemma length_be_bytes [simp]: "length (be_bytes k n) = k"
  by (induction k arbitrary: n) auto

lemma unat_byte_bound: "unat (b :: byte) < 256"
  using unsigned_less [of b, where ?'a = nat] by simp

lemma be_nat_append: "be_nat (xs @ [b]) = be_nat xs * 256 + unat b"
  by (simp add: be_nat_def)

lemma unat_word_of_nat_byte: "unat (word_of_nat n :: byte) = n mod 256"
  by (simp add: unat_of_nat)

lemma be_nat_be_bytes: "be_nat (be_bytes k n) = n mod 256 ^ k"
proof (induction k arbitrary: n)
  case 0
  then show ?case by (simp add: be_nat_def)
next
  case (Suc k)
  have "n mod 256 ^ Suc k = n div 256 mod 256 ^ k * 256 + n mod 256"
    using mod_mult2_eq [of n 256 "256 ^ k"] by (simp add: mult.commute)
  then show ?case
    by (simp only: be_bytes.simps be_nat_append unat_word_of_nat_byte Suc.IH)
qed

lemma be_nat_bound: "be_nat bs < 256 ^ length bs"
proof (induction bs rule: rev_induct)
  case Nil
  then show ?case by (simp add: be_nat_def)
next
  case (snoc b bs)
  from snoc have "(be_nat bs + 1) * 256 \<le> 256 ^ length bs * 256"
    by (intro mult_le_mono1) simp
  moreover have "unat b < 256" by (rule unat_byte_bound)
  ultimately show ?case by (simp add: be_nat_append)
qed

section \<open>Operations that keep an invariant\<close>

text \<open>
  A component is a state, a family of operations indexed by the inputs they take, and an
  invariant. An operation answers with a result and the state it leaves behind; a run
  performs a list of operations in order. Everything a component promises about every
  state its callers can reach follows from the one-step law.
\<close>

fun run_ops :: "('i \<Rightarrow> 's \<Rightarrow> 'r \<times> 's) \<Rightarrow> 'i list \<Rightarrow> 's \<Rightarrow> 's" where
  "run_ops op [] s = s"
| "run_ops op (i # is) s = run_ops op is (snd (op i s))"

lemma run_ops_append: "run_ops op (xs @ ys) s = run_ops op ys (run_ops op xs s)"
  by (induction xs arbitrary: s) auto

locale invariant_component =
  fixes op :: "'i \<Rightarrow> 's \<Rightarrow> 'r \<times> 's"
    and inv :: "'s \<Rightarrow> bool"
  assumes op_inv: "inv s \<Longrightarrow> inv (snd (op i s))"
begin

lemma run_inv: "inv s \<Longrightarrow> inv (run_ops op is s)"
  by (induction "is" arbitrary: s) (auto intro: op_inv)

lemma run_preserves:
  assumes "inv s" "P s" and "\<And>i s. inv s \<Longrightarrow> P s \<Longrightarrow> P (snd (op i s))"
  shows "P (run_ops op is s)"
  using assms(1,2) by (induction "is" arbitrary: s) (auto intro: op_inv assms(3))

end

locale transactional_component =
  fixes op :: "'i \<Rightarrow> 's \<Rightarrow> ('e + 'o) \<times> 's"
    and inv :: "'s \<Rightarrow> bool"
  assumes fail_frame: "fst (op i s) = Inl e \<Longrightarrow> snd (op i s) = s"
    and ok_inv: "inv s \<Longrightarrow> fst (op i s) = Inr r \<Longrightarrow> inv (snd (op i s))"

sublocale transactional_component \<subseteq> invariant_component op inv
proof
  fix i s
  assume "inv s"
  then show "inv (snd (op i s))"
    by (cases "fst (op i s)") (auto simp: fail_frame ok_inv)
qed

end
