(* ===== verification/Protocol_Canonical.thy ===== *)
theory Protocol_Canonical
  imports Volparossa_Prelude
begin

text \<open>
  The one accepted representation of a control-plane message
  (\<^verbatim>\<open>crates/volparossa-protocol/src/canonical.rs\<close>) and the length-prefixed frames that carry it
  (\<^verbatim>\<open>crates/volparossa-protocol/src/lib.rs\<close>, \<^verbatim>\<open>crates/volparossa-tcp-proxy/src/framing.rs\<close>).

  The protobuf codec itself is the third-party \<^verbatim>\<open>prost\<close> crate: it is a parameter, a record of an
  encoder and a partial decoder, one per message type. \<^verbatim>\<open>encoded_len\<close> is the length of the
  encoding and encoding into a growing \<^verbatim>\<open>Vec\<close> does not fail, as \<^verbatim>\<open>prost\<close> documents. Nothing is
  assumed of the decoder here: the exact re-encoding check of \<open>decode_canonical\<close> is what makes
  accepted bytes unique.
\<close>

datatype control_message_type =
    Mt_Unspecified | Mt_NodeAdvertisement | Mt_ExitReservation | Mt_RelayAuthorization
  | Mt_RelayReservation | Mt_OpenTcp | Mt_UdpFlowAuthorization | Mt_ExitCapacityHoldRequest
  | Mt_RelayReservationRequest | Mt_ExitReservationConfirmation | Mt_ClientSessionCapability
  | Mt_ExitCapacityHold | Mt_RelayProbePermitRequest | Mt_RelayProbePermit | Mt_RelayProbeResult
  | Mt_ExitReservationFinalizeRequest | Mt_ExitConfirmationReceipt
  | Mt_PreselectionObservationReceipt | Mt_ForwardedPreselectionAttestation
  | Mt_NativeProbePermitRequest | Mt_NativeProbePermit | Mt_NativeProbeExitReady
  | Mt_NativeProbeRelayReady | Mt_NativeProbeStart | Mt_NativeProbeExitResult
  | Mt_NativeProbeRelayResult | Mt_NativeRouteCredentialDelivery | Mt_AdjacentReceiveBudget
  | Mt_AdjacentReceiveBudgetReceipt | Mt_RouteRetire | Mt_RetirementReceipt | Mt_DnsCacheQuery
  | Mt_DnsCacheReply | Mt_RouteExtensionRequest | Mt_RouteExtension | Mt_RouteExtensionRelayCommit
  | Mt_MptcpPathsRequest | Mt_MptcpPathsState

datatype protocol_error =
    Pe_Oversized string nat
  | Pe_Decode
  | Pe_NonCanonical
  | Pe_UnsupportedVersion nat
  | Pe_UnknownMessageType int
  | Pe_WrongMessageType control_message_type control_message_type
  | Pe_InvalidField string
  | Pe_SenderKeyMismatch
  | Pe_PayloadHashMismatch
  | Pe_InvalidSignature
  | Pe_SigningFailed
  | Pe_NotYetValid
  | Pe_Expired
  | Pe_InvalidLifetime
  | Pe_Replay
  | Pe_ReplayCapacity
  | Pe_InvalidFrame

section \<open>Canonical protobuf\<close>

record 'm codec =
  cd_encode :: "'m \<Rightarrow> bytes"
  cd_decode :: "bytes \<Rightarrow> 'm option"

definition encode_canonical :: "'m codec \<Rightarrow> 'm \<Rightarrow> nat \<Rightarrow> protocol_error + bytes" where
  "encode_canonical c message maximum =
     (if length (cd_encode c message) > maximum
      then Inl (Pe_Oversized ''protobuf message'' maximum)
      else Inr (cd_encode c message))"

definition decode_canonical :: "'m codec \<Rightarrow> bytes \<Rightarrow> nat \<Rightarrow> protocol_error + 'm" where
  "decode_canonical c encoded maximum =
     (if length encoded > maximum
      then Inl (Pe_Oversized ''protobuf message'' maximum)
      else rbind (ok_or (cd_decode c encoded) Pe_Decode) (\<lambda>message.
           rbind (encode_canonical c message maximum) (\<lambda>canonical.
           if canonical \<noteq> encoded then Inl Pe_NonCanonical else Inr message)))"

lemma encode_canonical_Inr [result_simps]:
  "encode_canonical c m n = Inr b \<longleftrightarrow> b = cd_encode c m \<and> length b \<le> n"
  by (auto simp: encode_canonical_def)

lemma decode_canonical_Inr:
  "decode_canonical c b n = Inr m \<longleftrightarrow>
     length b \<le> n \<and> cd_decode c b = Some m \<and> cd_encode c m = b"
  by (auto simp: decode_canonical_def result_simps)

lemma decode_encode_canonical:
  assumes "cd_decode c (cd_encode c m) = Some m" "encode_canonical c m n = Inr b"
  shows "decode_canonical c b n = Inr m"
  using assms by (auto simp: decode_canonical_Inr result_simps)

text \<open>A codec of finitely many messages, for concrete instances of the parameter.\<close>

definition table_codec :: "('a \<times> bytes) list \<Rightarrow> 'a codec" where
  "table_codec t =
     \<lparr>cd_encode = (\<lambda>x. case map_of t x of Some b \<Rightarrow> b | None \<Rightarrow> [0]),
      cd_decode = (\<lambda>b. map_of (map (\<lambda>(x, y). (y, x)) t) b)\<rparr>"

section \<open>Frames on a byte stream\<close>

definition MAX_CONTROL_MESSAGE_SIZE :: nat where
  "MAX_CONTROL_MESSAGE_SIZE = 256 * 1024"

definition MAX_CONTROL_PAYLOAD_SIZE :: nat where
  "MAX_CONTROL_PAYLOAD_SIZE = 192 * 1024"

definition frame_control_message :: "bytes \<Rightarrow> protocol_error + bytes" where
  "frame_control_message envelope =
     (if length envelope > MAX_CONTROL_MESSAGE_SIZE
      then Inl (Pe_Oversized ''control message'' MAX_CONTROL_MESSAGE_SIZE)
      else if length envelope > u32_max then Inl Pe_InvalidFrame
      else Inr (be_bytes 4 (length envelope) @ envelope))"

definition unframe_control_message :: "bytes \<Rightarrow> protocol_error + bytes" where
  "unframe_control_message frame =
     (if length frame < 4 then Inl Pe_InvalidFrame
      else let len = be_nat (take 4 frame) in
        if len > MAX_CONTROL_MESSAGE_SIZE \<or> length frame \<noteq> saturating_add_u64 len 4
        then Inl Pe_InvalidFrame
        else Inr (drop 4 frame))"

text \<open>
  The stream reader of the TCP and UDP openings: a four-byte length, then exactly that many
  bytes; what follows stays in the stream. A stream that ends early is an I/O error. The
  deadlines around each read are not part of the model.
\<close>

datatype frame_error =
    Fe_UnexpectedEof
  | Fe_Protocol protocol_error

definition read_control_frame :: "bytes \<Rightarrow> frame_error + bytes \<times> bytes" where
  "read_control_frame stream =
     (if length stream < 4 then Inl Fe_UnexpectedEof
      else let len = be_nat (take 4 stream); rest = drop 4 stream in
        if len = 0 \<or> len > MAX_CONTROL_MESSAGE_SIZE then Inl (Fe_Protocol Pe_InvalidFrame)
        else if length rest < len then Inl Fe_UnexpectedEof
        else Inr (take len rest, drop len rest))"

text \<open>
  What a pair of a frame writer and a stream reader promises, whatever the length prefix: a
  written frame, followed by anything, is read back as its payload and leaves the rest. The
  control frames here and the varint frames of the ABCI socket both keep it.
\<close>

locale stream_framing =
  fixes send :: "bytes \<Rightarrow> 'e + bytes"
    and recv :: "bytes \<Rightarrow> 'f + bytes \<times> bytes"
    and sendable :: "bytes \<Rightarrow> bool"
  assumes recv_send: "sendable b \<Longrightarrow> send b = Inr f \<Longrightarrow> recv (f @ rest) = Inr (b, rest)"
begin

fun recv_n :: "nat \<Rightarrow> bytes \<Rightarrow> 'f + bytes list \<times> bytes" where
  "recv_n 0 s = Inr ([], s)"
| "recv_n (Suc n) s =
     rbind (recv s) (\<lambda>(b, s'). rbind (recv_n n s') (\<lambda>(bs, s''). Inr (b # bs, s'')))"

lemma recv_all:
  assumes "\<forall>b \<in> set bs. sendable b" "rtraverse send bs = Inr fs"
  shows "recv_n (length bs) (concat fs @ rest) = Inr (bs, rest)"
  using assms
proof (induction bs arbitrary: fs)
  case (Cons b bs)
  from Cons.prems(2) obtain f fs' where fs: "send b = Inr f" "rtraverse send bs = Inr fs'"
    "fs = f # fs'"
    by (auto simp: result_simps)
  from Cons.prems(1) fs(1) have "recv (f @ concat fs' @ rest) = Inr (b, concat fs' @ rest)"
    by (intro recv_send) auto
  with Cons fs show ?case by simp
qed simp

lemma send_prefix_free:
  assumes "sendable a" "send a = Inr f" "sendable b" "send b = Inr g" "f @ xs = g @ ys"
  shows "a = b \<and> xs = ys"
  using recv_send [OF assms(1,2), of xs] recv_send [OF assms(3,4), of ys] assms(5) by simp

end

lemma frame_control_message_Inr [result_simps]:
  "frame_control_message b = Inr f \<longleftrightarrow>
     length b \<le> MAX_CONTROL_MESSAGE_SIZE \<and> f = be_bytes 4 (length b) @ b"
  by (auto simp: frame_control_message_def MAX_CONTROL_MESSAGE_SIZE_def u32_max_def)

lemma be_nat_frame_length:
  "length b \<le> MAX_CONTROL_MESSAGE_SIZE \<Longrightarrow> be_nat (be_bytes 4 (length b)) = length b"
  unfolding be_nat_be_bytes MAX_CONTROL_MESSAGE_SIZE_def by (intro mod_less) simp

interpretation control_frames: stream_framing frame_control_message read_control_frame
  "\<lambda>b. b \<noteq> []"
proof
  fix b f rest :: bytes
  assume "b \<noteq> []" and "frame_control_message b = Inr f"
  then show "read_control_frame (f @ rest) = Inr (b, rest)"
    by (auto simp: result_simps read_control_frame_def be_nat_frame_length)
qed

lemma unframe_frame:
  assumes "frame_control_message b = Inr f"
  shows "unframe_control_message f = Inr b"
  using assms
  by (auto simp: result_simps unframe_control_message_def be_nat_frame_length
      saturating_add_u64_def MAX_CONTROL_MESSAGE_SIZE_def u64_max_def)

lemma be_bytes_be_nat: "be_bytes (length bs) (be_nat bs) = bs"
proof (induction bs rule: rev_induct)
  case Nil
  then show ?case by simp
next
  case (snoc b bs)
  have "unat b < 256" by (rule unat_byte_bound)
  then have "(be_nat bs * 256 + unat b) div 256 = be_nat bs" by simp
  moreover have "(word_of_nat (be_nat bs * 256 + unat b) :: byte) = b"
  proof (rule word_unat_eq_iff [THEN iffD2])
    show "unat (word_of_nat (be_nat bs * 256 + unat b) :: byte) = unat b"
      unfolding unat_word_of_nat_byte using \<open>unat b < 256\<close> by simp
  qed
  ultimately show ?case using snoc by (simp add: be_nat_append)
qed

lemma unframe_control_message_Inr:
  "unframe_control_message f = Inr b \<longleftrightarrow>
     4 \<le> length f \<and> be_nat (take 4 f) \<le> MAX_CONTROL_MESSAGE_SIZE \<and>
     length f = saturating_add_u64 (be_nat (take 4 f)) 4 \<and> drop 4 f = b"
  by (simp only: unframe_control_message_def Let_def if_Inl_Inr_conv de_Morgan_disj not_less
      not_not sum.inject conj_assoc)

lemma frame_unframe:
  assumes "unframe_control_message f = Inr b"
  shows "frame_control_message b = Inr f"
proof -
  from assms have len: "4 \<le> length f" "be_nat (take 4 f) \<le> MAX_CONTROL_MESSAGE_SIZE"
    and b: "drop 4 f = b" and lf: "length f = saturating_add_u64 (be_nat (take 4 f)) 4"
    unfolding unframe_control_message_Inr by blast+
  have "saturating_add_u64 (be_nat (take 4 f)) 4 = be_nat (take 4 f) + 4"
    using len(2) by (simp add: saturating_add_u64_def MAX_CONTROL_MESSAGE_SIZE_def u64_max_def)
  then have lb: "length b = be_nat (take 4 f)"
    unfolding b [symmetric] length_drop lf by simp
  have "be_bytes 4 (length b) = take 4 f"
    using be_bytes_be_nat [of "take 4 f"] len(1) by (simp add: lb min_absorb2)
  then show ?thesis
    using len(2) b by (simp add: result_simps flip: lb) (metis append_take_drop_id)
qed

text \<open>
  Framing is exact. A byte string unframes to a message if and only if it is the frame of that
  message: the reader accepts no other frame, truncated, padded or oversized, and refuses no frame the
  writer produces.
\<close>

theorem control_frame_exact:
  "unframe_control_message f = Inr b \<longleftrightarrow> frame_control_message b = Inr f"
  using unframe_frame frame_unframe by blast

end
