(* ===== verification/Tx_Wire.thy ===== *)
theory Tx_Wire
  imports Protocol_Canonical
begin

text \<open>
  Signed commands of the TEST-unit ledger: the public types of
  \<^verbatim>\<open>crates/volparossa-transaction/src/lib.rs\<close> and the canonical, domain-separated wire format of
  \<^verbatim>\<open>crates/volparossa-transaction/src/wire.rs\<close>.

  The third-party code the format relies on (the protobuf codecs of the two messages, SHA-256,
  Ed25519 key and signature parsing and strict verification, signing) is the parameter record
  \<open>wire_env\<close>. Theorems that need documented behaviour of it say so as hypotheses.
\<close>

section \<open>Types\<close>

datatype mode = Local | Ordered

type_synonym ledger_id = bytes
type_synonym account_id = bytes
type_synonym operation_id = bytes

definition TEST_UNIT :: string where
  "TEST_UNIT = ''volparossa.test.unit.v1''"

definition MAX_UNITS :: nat where
  "MAX_UNITS = 2 ^ 63 - 1"

definition MAX_ACCOUNTS :: nat where
  "MAX_ACCOUNTS = 64"

definition MAX_OPERATIONS :: nat where
  "MAX_OPERATIONS = 1024"

datatype tx_error =
    Tx_Invalid
  | Tx_Unauthorized
  | Tx_WrongLedger
  | Tx_NotLive
  | Tx_Conflict
  | Tx_Replay
  | Tx_Insufficient
  | Tx_NotFound
  | Tx_State
  | Tx_Capacity
  | Tx_Store
  | Tx_Busy
  | Tx_Io
  | Tx_Database

datatype action =
    Reserve account_id nat
  | Commit operation_id
  | Cancel operation_id

record command =
  cm_operation_id :: operation_id
  cm_payer :: account_id
  cm_action :: action

section \<open>Wire messages\<close>

definition DOMAIN :: bytes where
  "DOMAIN = ascii ''volparossa/transaction/test-unit-command/v1'' @ [0]"

definition ORDERED_DOMAIN :: bytes where
  "ORDERED_DOMAIN = ascii ''volparossa/transaction/ordered-test-unit-command/v2'' @ [0]"

definition MAX_BYTES :: nat where
  "MAX_BYTES = 4096"

definition MAX_LIFETIME :: nat where
  "MAX_LIFETIME = 3600"

record body =
  bd_version :: nat
  bd_unit :: string
  bd_ledger :: bytes
  bd_operation :: bytes
  bd_payer :: bytes
  bd_kind :: nat
  bd_target :: bytes
  bd_units :: nat

record envelope =
  ev_version :: nat
  ev_sender :: bytes
  ev_valid_from :: nat
  ev_expires :: nat
  ev_nonce :: bytes
  ev_payload :: bytes
  ev_payload_hash :: bytes
  ev_signature :: bytes

record wire_env =
  we_envelope :: "envelope codec"
  we_body :: "body codec"
  we_sha256 :: "bytes \<Rightarrow> bytes"
  we_key_ok :: "bytes \<Rightarrow> bool"
  we_signature_ok :: "bytes \<Rightarrow> bool"
  we_verify_strict :: "bytes \<Rightarrow> bytes \<Rightarrow> bytes \<Rightarrow> bool"

record verified =
  vf_command :: command
  vf_nonce :: bytes
  vf_valid_from :: nat
  vf_expires :: nat

definition version_of :: "mode \<Rightarrow> nat" where
  "version_of m = (if m = Local then 1 else 2)"

definition signing_bytes :: "wire_env \<Rightarrow> envelope \<Rightarrow> tx_error + bytes" where
  "signing_bytes env value =
     (let unsigned = value\<lparr>ev_signature := []\<rparr>;
          domain = (if ev_version value = 2 then ORDERED_DOMAIN else DOMAIN)
      in rbind (map_err (\<lambda>_. Tx_Invalid) (encode_canonical (we_envelope env) unsigned MAX_BYTES))
           (\<lambda>encoded. Inr (domain @ encoded)))"

definition identifier32 :: "bytes \<Rightarrow> tx_error + bytes" where
  "identifier32 b =
     (if length b \<noteq> 32 then Inl Tx_Invalid
      else if b = zero32 then Inl Tx_Invalid
      else Inr b)"

text \<open>The \<^verbatim>\<open>match body.kind\<close> of \<^verbatim>\<open>verify_mode\<close>.\<close>

definition body_action :: "body \<Rightarrow> bytes \<Rightarrow> bytes \<Rightarrow> tx_error + action" where
  "body_action b payer target =
     (if bd_kind b = 1 \<and> bd_units b > 0 \<and> bd_units b \<le> MAX_UNITS \<and> target \<noteq> payer
      then Inr (Reserve target (bd_units b))
      else if bd_kind b = 2 \<and> bd_units b = 0 then Inr (Commit target)
      else if bd_kind b = 3 \<and> bd_units b = 0 then Inr (Cancel target)
      else Inl Tx_Invalid)"

definition verify_mode :: "wire_env \<Rightarrow> bytes \<Rightarrow> ledger_id \<Rightarrow> mode \<Rightarrow> tx_error + verified" where
  "verify_mode env bs ledger m =
     rbind (map_err (\<lambda>_. Tx_Invalid) (decode_canonical (we_envelope env) bs MAX_BYTES)) (\<lambda>e.
     rbind (map_err (\<lambda>_. Tx_Invalid) (decode_canonical (we_body env) (ev_payload e) MAX_BYTES)) (\<lambda>b.
     if ev_version e \<noteq> version_of m
        \<or> bd_version b \<noteq> version_of m
        \<or> bd_unit b \<noteq> TEST_UNIT
        \<or> is_none_or (\<lambda>n. n = 0 \<or> n > MAX_LIFETIME) (checked_sub (ev_expires e) (ev_valid_from e))
        \<or> ev_expires e > MAX_UNITS
        \<or> ev_payload_hash e \<noteq> we_sha256 env (ev_payload e)
     then Inl Tx_Invalid
     else
     rbind (identifier32 (bd_ledger b)) (\<lambda>l.
     if l \<noteq> ledger then Inl Tx_WrongLedger else
     rbind (identifier32 (bd_payer b)) (\<lambda>payer.
     if ev_sender e \<noteq> payer then Inl Tx_Unauthorized else
     if \<not> we_key_ok env payer then Inl Tx_Unauthorized else
     if \<not> we_signature_ok env (ev_signature e) then Inl Tx_Unauthorized else
     rbind (signing_bytes env e) (\<lambda>message.
     if \<not> we_verify_strict env payer message (ev_signature e) then Inl Tx_Unauthorized else
     rbind (identifier32 (bd_target b)) (\<lambda>target.
     rbind (body_action b payer target) (\<lambda>act.
     rbind (identifier32 (bd_operation b)) (\<lambda>operation.
     rbind (identifier32 (ev_nonce e)) (\<lambda>nonce.
     Inr \<lparr>vf_command = \<lparr>cm_operation_id = operation, cm_payer = payer, cm_action = act\<rparr>,
          vf_nonce = nonce, vf_valid_from = ev_valid_from e, vf_expires = ev_expires e\<rparr>)))))))))"

definition verify :: "wire_env \<Rightarrow> bytes \<Rightarrow> ledger_id \<Rightarrow> tx_error + verified" where
  "verify env bs ledger = verify_mode env bs ledger Local"

section \<open>Signing\<close>

text \<open>
  \<^verbatim>\<open>SigningKey\<close> is third-party: the signer is the key's public bytes and its signing function.
\<close>

record signing_key =
  sk_public :: bytes
  sk_sign :: "bytes \<Rightarrow> bytes"

definition action_fields :: "action \<Rightarrow> nat \<times> bytes \<times> nat" where
  "action_fields a = (case a of
       Reserve recipient units \<Rightarrow> (1, recipient, units)
     | Commit reservation_id \<Rightarrow> (2, reservation_id, 0)
     | Cancel reservation_id \<Rightarrow> (3, reservation_id, 0))"

definition command_body :: "ledger_id \<Rightarrow> command \<Rightarrow> mode \<Rightarrow> body" where
  "command_body ledger c m =
     (case action_fields (cm_action c) of (kind, target, units) \<Rightarrow>
       \<lparr>bd_version = version_of m, bd_unit = TEST_UNIT, bd_ledger = ledger,
        bd_operation = cm_operation_id c, bd_payer = cm_payer c, bd_kind = kind,
        bd_target = target, bd_units = units\<rparr>)"

definition unsigned_envelope ::
  "wire_env \<Rightarrow> signing_key \<Rightarrow> bytes \<Rightarrow> nat \<Rightarrow> nat \<Rightarrow> bytes \<Rightarrow> mode \<Rightarrow> envelope" where
  "unsigned_envelope env key payload valid_from expires nonce m =
     \<lparr>ev_version = version_of m, ev_sender = sk_public key, ev_valid_from = valid_from,
      ev_expires = expires, ev_nonce = nonce, ev_payload = payload,
      ev_payload_hash = we_sha256 env payload, ev_signature = []\<rparr>"

definition sign_mode ::
  "wire_env \<Rightarrow> ledger_id \<Rightarrow> signing_key \<Rightarrow> command \<Rightarrow> nat \<Rightarrow> nat \<Rightarrow> bytes \<Rightarrow> mode \<Rightarrow> tx_error + bytes"
where
  "sign_mode env ledger key c valid_from expires nonce m =
     rbind (map_err (\<lambda>_. Tx_Invalid)
             (encode_canonical (we_body env) (command_body ledger c m) MAX_BYTES)) (\<lambda>payload.
     let e = unsigned_envelope env key payload valid_from expires nonce m in
     rbind (signing_bytes env e) (\<lambda>message.
     rbind (map_err (\<lambda>_. Tx_Invalid)
             (encode_canonical (we_envelope env) (e\<lparr>ev_signature := sk_sign key message\<rparr>) MAX_BYTES))
       (\<lambda>bs.
     rbind (verify_mode env bs ledger m) (\<lambda>_. Inr bs))))"

section \<open>What verification establishes\<close>

lemma identifier32_Inr [result_simps]:
  "identifier32 b = Inr v \<longleftrightarrow> v = b \<and> length b = 32 \<and> b \<noteq> zero32"
  by (auto simp: identifier32_def)

lemma signing_bytes_Inr [result_simps]:
  "signing_bytes env e = Inr m \<longleftrightarrow>
     m = (if ev_version e = 2 then ORDERED_DOMAIN else DOMAIN)
           @ cd_encode (we_envelope env) (e\<lparr>ev_signature := []\<rparr>)
     \<and> length (cd_encode (we_envelope env) (e\<lparr>ev_signature := []\<rparr>)) \<le> MAX_BYTES"
  by (auto simp: signing_bytes_def Let_def result_simps)

text \<open>
  The facts about the decoded messages that \<open>verify_mode\<close> has checked when it succeeds.
\<close>

definition authentic :: "wire_env \<Rightarrow> bytes \<Rightarrow> ledger_id \<Rightarrow> mode \<Rightarrow> envelope \<Rightarrow> body \<Rightarrow> bool" where
  "authentic env bs ledger m e b \<longleftrightarrow>
     cd_encode (we_envelope env) e = bs \<and> length bs \<le> MAX_BYTES
     \<and> cd_decode (we_envelope env) bs = Some e
     \<and> cd_encode (we_body env) b = ev_payload e
     \<and> ev_version e = version_of m \<and> bd_version b = version_of m \<and> bd_unit b = TEST_UNIT
     \<and> bd_ledger b = ledger
     \<and> ev_valid_from e < ev_expires e \<and> ev_expires e \<le> ev_valid_from e + MAX_LIFETIME
     \<and> ev_expires e \<le> MAX_UNITS
     \<and> ev_payload_hash e = we_sha256 env (ev_payload e)
     \<and> ev_sender e = bd_payer b \<and> we_key_ok env (bd_payer b)
     \<and> (\<exists>message. signing_bytes env e = Inr message
           \<and> we_verify_strict env (bd_payer b) message (ev_signature e))"

definition well_formed_command :: "command \<Rightarrow> bool" where
  "well_formed_command c \<longleftrightarrow>
     length (cm_operation_id c) = 32 \<and> cm_operation_id c \<noteq> zero32
     \<and> length (cm_payer c) = 32 \<and> cm_payer c \<noteq> zero32
     \<and> (case cm_action c of
          Reserve r n \<Rightarrow> length r = 32 \<and> r \<noteq> zero32 \<and> 0 < n \<and> n \<le> MAX_UNITS \<and> r \<noteq> cm_payer c
        | Commit i \<Rightarrow> length i = 32 \<and> i \<noteq> zero32
        | Cancel i \<Rightarrow> length i = 32 \<and> i \<noteq> zero32)"

lemma body_action_Inr:
  assumes "body_action b p t = Inr a"
  shows "(bd_kind b, t, bd_units b) = action_fields a
    \<and> (\<forall>r n. a = Reserve r n \<longrightarrow> 0 < n \<and> n \<le> MAX_UNITS \<and> r \<noteq> p)"
  using assms by (auto simp: body_action_def action_fields_def split: if_splits)

lemma verify_mode_authentic:
  assumes "verify_mode env bs ledger m = Inr v"
  obtains e b where "authentic env bs ledger m e b"
    and "vf_command v = \<lparr>cm_operation_id = bd_operation b, cm_payer = bd_payer b,
           cm_action = cm_action (vf_command v)\<rparr>"
    and "action_fields (cm_action (vf_command v)) = (bd_kind b, bd_target b, bd_units b)"
    and "vf_nonce v = ev_nonce e" "vf_valid_from v = ev_valid_from e"
    and "vf_expires v = ev_expires e"
    and "well_formed_command (vf_command v)"
    and "length (vf_nonce v) = 32" "vf_nonce v \<noteq> zero32"
proof -
  from assms obtain e b message act where
      dec: "decode_canonical (we_envelope env) bs MAX_BYTES = Inr e"
        "decode_canonical (we_body env) (ev_payload e) MAX_BYTES = Inr b"
    and hd: "ev_version e = version_of m" "bd_version b = version_of m" "bd_unit b = TEST_UNIT"
      "\<not> is_none_or (\<lambda>n. n = 0 \<or> n > MAX_LIFETIME) (checked_sub (ev_expires e) (ev_valid_from e))"
      "ev_expires e \<le> MAX_UNITS" "ev_payload_hash e = we_sha256 env (ev_payload e)"
    and ids: "identifier32 (bd_ledger b) = Inr ledger"
      "identifier32 (bd_payer b) = Inr (bd_payer b)"
      "identifier32 (bd_target b) = Inr (bd_target b)"
      "identifier32 (bd_operation b) = Inr (bd_operation b)"
      "identifier32 (ev_nonce e) = Inr (ev_nonce e)"
    and au: "ev_sender e = bd_payer b" "we_key_ok env (bd_payer b)"
      "signing_bytes env e = Inr message"
      "we_verify_strict env (bd_payer b) message (ev_signature e)"
    and act: "body_action b (bd_payer b) (bd_target b) = Inr act"
    and v: "v = \<lparr>vf_command = \<lparr>cm_operation_id = bd_operation b, cm_payer = bd_payer b, cm_action = act\<rparr>,
          vf_nonce = ev_nonce e, vf_valid_from = ev_valid_from e, vf_expires = ev_expires e\<rparr>"
    unfolding verify_mode_def
    by (simp only: rbind_Inr_conv map_err_Inr_conv if_Inl_Inr_conv de_Morgan_disj not_not not_less)
       (clarsimp simp: identifier32_Inr)
  from hd(4) have life: "ev_valid_from e < ev_expires e"
    "ev_expires e \<le> ev_valid_from e + MAX_LIFETIME"
    by (auto simp: checked_sub_def is_none_or_def split: if_splits)
  from body_action_Inr [OF act] have fields: "action_fields act = (bd_kind b, bd_target b, bd_units b)"
    and rs: "\<forall>r n. act = Reserve r n \<longrightarrow> 0 < n \<and> n \<le> MAX_UNITS \<and> r \<noteq> bd_payer b"
    by simp_all
  have "authentic env bs ledger m e b"
    using dec hd ids au life by (auto simp: authentic_def decode_canonical_Inr result_simps)
  moreover have "well_formed_command (vf_command v)"
    using ids rs fields
    by (cases act) (auto simp: well_formed_command_def v result_simps action_fields_def)
  ultimately show thesis
    using ids fields by (intro that [of e b]) (simp_all add: v result_simps)
qed

end
