(* ===== verification/Row_Tables.thy ===== *)
theory Row_Tables
  imports Volparossa_Prelude
begin

text \<open>
  Relational tables as lists of rows. \<open>find_row\<close> is a \<^verbatim>\<open>SELECT ... WHERE key = ?\<close> on a primary
  key, \<open>upd_rows\<close> an \<^verbatim>\<open>UPDATE ... SET ... WHERE key = ?\<close>, an insertion appends a row. The
  lemmas say what lookups, key lists and sums over a table become after an update, for tables
  whose keys are distinct.
\<close>

definition find_row :: "('r \<Rightarrow> 'k) \<Rightarrow> 'k \<Rightarrow> 'r list \<Rightarrow> 'r option" where
  "find_row key k rows = find (\<lambda>r. key r = k) rows"

definition upd_rows :: "('r \<Rightarrow> 'k) \<Rightarrow> 'k \<Rightarrow> ('r \<Rightarrow> 'r) \<Rightarrow> 'r list \<Rightarrow> 'r list" where
  "upd_rows key k g rows = map (\<lambda>r. if key r = k then g r else r) rows"

lemma find_row_Nil [simp]: "find_row key k [] = None"
  by (simp add: find_row_def)

lemma find_row_Cons [simp]:
  "find_row key k (r # rows) = (if key r = k then Some r else find_row key k rows)"
  by (simp add: find_row_def)

lemma find_row_SomeD: "find_row key k rows = Some r \<Longrightarrow> r \<in> set rows \<and> key r = k"
  by (induction rows) (auto split: if_splits)

lemma find_row_None: "find_row key k rows = None \<longleftrightarrow> k \<notin> key ` set rows"
  by (induction rows) auto

lemma find_row_ex: "k \<in> key ` set rows \<Longrightarrow> \<exists>r. find_row key k rows = Some r"
  by (cases "find_row key k rows") (auto simp: find_row_None)

lemma find_row_in:
  "distinct (map key rows) \<Longrightarrow> r \<in> set rows \<Longrightarrow> find_row key (key r) rows = Some r"
  by (induction rows) (auto simp: image_iff)

lemma find_row_append:
  "find_row key k (xs @ ys) =
     (case find_row key k xs of None \<Rightarrow> find_row key k ys | Some r \<Rightarrow> Some r)"
  by (induction xs) auto

lemma upd_rows_simps [simp]:
  "upd_rows key k g [] = []"
  "upd_rows key k g (r # rows) = (if key r = k then g r else r) # upd_rows key k g rows"
  by (simp_all add: upd_rows_def)

lemma length_upd_rows [simp]: "length (upd_rows key k g rows) = length rows"
  by (simp add: upd_rows_def)

lemma upd_rows_absent: "k \<notin> key ` set rows \<Longrightarrow> upd_rows key k g rows = rows"
  by (induction rows) auto

lemma map_key_upd_rows:
  assumes "\<And>r. key' (g r) = key' r"
  shows "map key' (upd_rows key k g rows) = map key' rows"
  using assms by (induction rows) auto

lemma image_key_upd_rows:
  assumes "\<And>r. key' (g r) = key' r"
  shows "key' ` set (upd_rows key k g rows) = key' ` set rows"
  using map_key_upd_rows [of key' g, OF assms] by (metis set_map)

lemma find_row_upd_rows:
  assumes "\<And>r. key (g r) = key r"
  shows "find_row key k' (upd_rows key k g rows) =
    (if k' = k then map_option g (find_row key k rows) else find_row key k' rows)"
  using assms by (induction rows) auto

lemma set_upd_rows:
  "r \<in> set (upd_rows key k g rows) \<Longrightarrow> \<exists>r0 \<in> set rows. r = (if key r0 = k then g r0 else r0)"
  unfolding upd_rows_def set_map by blast

lemma sum_upd_rows:
  fixes f :: "'r \<Rightarrow> nat"
  assumes "distinct (map key rows)" "find_row key k rows = Some r0"
  shows "sum_list (map f (upd_rows key k g rows)) + f r0 = sum_list (map f rows) + f (g r0)"
  using assms
proof (induction rows)
  case (Cons r rows)
  show ?case
  proof (cases "key r = k")
    case True
    with Cons.prems(1) have "upd_rows key k g rows = rows"
      by (intro upd_rows_absent) auto
    with True Cons.prems(2) show ?thesis by simp
  next
    case False
    with Cons show ?thesis by (simp add: add.assoc)
  qed
qed simp

lemma sum_list_filter_if:
  fixes f :: "'r \<Rightarrow> nat"
  shows "sum_list (map f (filter P rows)) = sum_list (map (\<lambda>r. if P r then f r else 0) rows)"
  by (induction rows) auto

lemma length_filter_if:
  "length (filter P rows) = sum_list (map (\<lambda>r. if P r then 1 else 0) rows)"
  by (induction rows) auto

lemma sum_list_member_le:
  fixes f :: "'r \<Rightarrow> nat"
  shows "r \<in> set rows \<Longrightarrow> f r \<le> sum_list (map f rows)"
  by (induction rows) auto

lemma sum_list_remove_row:
  fixes f :: "'r \<Rightarrow> nat"
  assumes "distinct (map key rows)" "find_row key k rows = Some r"
  shows "sum_list (map f (filter (\<lambda>x. key x \<noteq> k) rows)) + f r = sum_list (map f rows)"
  using assms
proof (induction rows)
  case (Cons x rows)
  show ?case
  proof (cases "key x = k")
    case True
    with Cons.prems(1) have "filter (\<lambda>x. key x \<noteq> k) rows = rows"
      by (auto simp: filter_id_conv image_iff)
    with True Cons.prems(2) show ?thesis by simp
  next
    case False
    with Cons show ?thesis by (simp add: add.assoc)
  qed
qed simp

lemma sum_list_filter_le:
  fixes f :: "'r \<Rightarrow> nat"
  shows "sum_list (map f (filter P rows)) \<le> sum_list (map f rows)"
  by (induction rows) (auto intro: le_trans)

lemma find_row_filter:
  assumes "find_row key k rows = Some r" "P r"
  shows "distinct (map key rows) \<Longrightarrow> find_row key k (filter P rows) = Some r"
  using assms by (induction rows) (auto split: if_splits simp: find_row_None dest!: find_row_SomeD)

lemma find_row_filter_out:
  assumes "find_row key k rows = Some r" "\<not> P r"
  shows "distinct (map key rows) \<Longrightarrow> find_row key k (filter P rows) = None"
  using assms by (induction rows) (auto split: if_splits simp: find_row_None)

end
