(* ===== verification/Tx_Ledger.thy ===== *)
theory Tx_Ledger
  imports Tx_Wire Row_Tables
begin

text \<open>
  The durable TEST-unit ledger: the SQL schema and accounting check of
  \<^verbatim>\<open>crates/volparossa-transaction/src/disk.rs\<close> and the command executor of
  \<^verbatim>\<open>crates/volparossa-transaction/src/lib.rs\<close>.

  The database is a record of tables; each SQL statement of the source is the corresponding
  list operation, with the schema's \<^verbatim>\<open>CHECK\<close>, \<^verbatim>\<open>UNIQUE\<close> and \<^verbatim>\<open>REFERENCES\<close> constraints and
  SQLite's 63-bit integer range as failures with \<open>Tx_Database\<close>. A function that fails drops the
  database it was building, as the rolled-back transaction does. Whether SQLite grants a
  transaction and completes its commit is an input (\<open>sqlite_faults\<close>).
\<close>

section \<open>Tables\<close>

record meta_row =
  mt_singleton :: nat
  mt_ledger :: bytes
  mt_unit :: string
  mt_supply :: nat

record account_row =
  ac_owner :: account_id
  ac_available :: nat
  ac_reserved :: nat

record reservation_row =
  rv_id :: operation_id
  rv_payer :: account_id
  rv_recipient :: account_id
  rv_units :: nat
  rv_state :: nat

record operation_row =
  op_sequence :: nat
  op_id :: operation_id
  op_signer :: account_id
  op_nonce :: bytes
  op_signed :: bytes
  op_hash :: bytes
  op_reservation :: operation_id
  op_state :: nat

record db =
  db_application_id :: nat
  db_user_version :: nat
  db_meta :: "meta_row list"
  db_accounts :: "account_row list"
  db_reservations :: "reservation_row list"
  db_operations :: "operation_row list"
  db_checkpoint :: "(bytes \<times> bytes) option"

text \<open>The freshly created schema, with no rows.\<close>

definition schema :: db where
  "schema = \<lparr>db_application_id = 0, db_user_version = 0, db_meta = [], db_accounts = [],
             db_reservations = [], db_operations = [], db_checkpoint = None\<rparr>"

datatype reservation_state = Reserved | Committed | Cancelled

record receipt =
  rc_ledger_id :: ledger_id
  rc_operation_id :: operation_id
  rc_command_sha256 :: bytes
  rc_sequence :: nat
  rc_reservation_id :: operation_id
  rc_state :: reservation_state

record balance =
  available_units :: nat
  reserved_units :: nat

record genesis_account =
  ga_owner :: account_id
  ga_units :: nat

definition state_number :: "reservation_state \<Rightarrow> nat" where
  "state_number s = (case s of Reserved \<Rightarrow> 1 | Committed \<Rightarrow> 2 | Cancelled \<Rightarrow> 3)"

definition parse_state :: "nat \<Rightarrow> tx_error + reservation_state" where
  "parse_state n =
     (if n = 1 then Inr Reserved else if n = 2 then Inr Committed
      else if n = 3 then Inr Cancelled else Inl Tx_Store)"

section \<open>Statements\<close>

text \<open>Binding a \<^verbatim>\<open>u64\<close> parameter, and a \<^verbatim>\<open>sum\<close> aggregate, fail outside SQLite's integers.\<close>

definition sql_int :: "nat \<Rightarrow> tx_error + nat" where
  "sql_int n = (if n \<le> MAX_UNITS then Inr n else Inl Tx_Database)"

definition sql_sum :: "nat list \<Rightarrow> tx_error + nat" where
  "sql_sum ns = sql_int (sum_list ns)"

definition insert_meta :: "meta_row \<Rightarrow> db \<Rightarrow> tx_error + db" where
  "insert_meta r d =
     rbind (sql_int (mt_supply r)) (\<lambda>_.
     if mt_singleton r \<noteq> 1 \<or> length (mt_ledger r) \<noteq> 32
        \<or> mt_singleton r \<in> mt_singleton ` set (db_meta d)
     then Inl Tx_Database else Inr (d\<lparr>db_meta := db_meta d @ [r]\<rparr>))"

definition insert_account :: "account_row \<Rightarrow> db \<Rightarrow> tx_error + db" where
  "insert_account r d =
     rbind (sql_int (ac_available r)) (\<lambda>_. rbind (sql_int (ac_reserved r)) (\<lambda>_.
     if length (ac_owner r) \<noteq> 32 \<or> ac_owner r \<in> ac_owner ` set (db_accounts d)
     then Inl Tx_Database else Inr (d\<lparr>db_accounts := db_accounts d @ [r]\<rparr>)))"

definition insert_reservation :: "reservation_row \<Rightarrow> db \<Rightarrow> tx_error + db" where
  "insert_reservation r d =
     rbind (sql_int (rv_units r)) (\<lambda>_.
     if length (rv_id r) \<noteq> 32 \<or> rv_id r \<in> rv_id ` set (db_reservations d)
        \<or> rv_payer r \<notin> ac_owner ` set (db_accounts d)
        \<or> rv_recipient r \<notin> ac_owner ` set (db_accounts d)
        \<or> rv_units r = 0 \<or> rv_state r \<notin> {1, 2, 3}
     then Inl Tx_Database
     else Inr (d\<lparr>db_reservations := db_reservations d @ [r]\<rparr>))"

definition insert_operation :: "operation_row \<Rightarrow> db \<Rightarrow> tx_error + db" where
  "insert_operation r d =
     rbind (sql_int (op_sequence r)) (\<lambda>_.
     if op_sequence r = 0 \<or> op_sequence r \<in> op_sequence ` set (db_operations d)
        \<or> length (op_id r) \<noteq> 32 \<or> op_id r \<in> op_id ` set (db_operations d)
        \<or> op_signer r \<notin> ac_owner ` set (db_accounts d)
        \<or> length (op_nonce r) \<noteq> 32
        \<or> length (op_signed r) < 1 \<or> length (op_signed r) > 4096
        \<or> length (op_hash r) \<noteq> 32
        \<or> op_reservation r \<notin> rv_id ` set (db_reservations d)
        \<or> op_state r \<notin> {1, 2, 3}
        \<or> (op_signer r, op_nonce r) \<in> (\<lambda>o'. (op_signer o', op_nonce o')) ` set (db_operations d)
     then Inl Tx_Database
     else Inr (d\<lparr>db_operations := db_operations d @ [r]\<rparr>))"

definition update_account :: "account_id \<Rightarrow> (account_row \<Rightarrow> account_row) \<Rightarrow> db \<Rightarrow> db" where
  "update_account owner g d = d\<lparr>db_accounts := upd_rows ac_owner owner g (db_accounts d)\<rparr>"

definition update_reservation_state :: "operation_id \<Rightarrow> nat \<Rightarrow> db \<Rightarrow> db" where
  "update_reservation_state i n d =
     d\<lparr>db_reservations := upd_rows rv_id i (\<lambda>r. r\<lparr>rv_state := n\<rparr>) (db_reservations d)\<rparr>"

definition pending_count :: "db \<Rightarrow> nat" where
  "pending_count d = length (filter (\<lambda>r. rv_state r = 1) (db_reservations d))"

definition pending_units :: "db \<Rightarrow> account_id \<Rightarrow> nat list" where
  "pending_units d owner =
     map rv_units (filter (\<lambda>r. rv_payer r = owner \<and> rv_state r = 1) (db_reservations d))"

section \<open>The accounting check\<close>

definition count_mismatches :: "db \<Rightarrow> tx_error + nat" where
  "count_mismatches d =
     rbind (rtraverse (\<lambda>a. rbind (sql_sum (pending_units d (ac_owner a)))
                             (\<lambda>s. Inr (ac_reserved a \<noteq> s))) (db_accounts d))
       (\<lambda>bs. Inr (length (filter (\<lambda>b. b) bs)))"

definition validate_accounting :: "db \<Rightarrow> tx_error + unit" where
  "validate_accounting d =
     rbind (ok_or (find_row mt_singleton 1 (db_meta d)) Tx_Database) (\<lambda>m.
     let supply = mt_supply m; accounts = length (db_accounts d) in
     if supply > MAX_UNITS \<or> accounts = 0 \<or> accounts > MAX_ACCOUNTS then Inl Tx_Store else
     rbind (sql_sum (map ac_available (db_accounts d))) (\<lambda>available.
     rbind (sql_sum (map ac_reserved (db_accounts d))) (\<lambda>reserved.
     rbind (sql_int (available + reserved)) (\<lambda>total.
     rbind (count_mismatches d) (\<lambda>mismatches.
     let operations = length (db_operations d); pending = pending_count d in
     if total \<noteq> supply \<or> mismatches \<noteq> 0
        \<or> is_none_or (\<lambda>n. n > MAX_OPERATIONS) (checked_add_u64 operations pending)
     then Inl Tx_Store else Inr ())))))"

section \<open>Reading accounts and receipts\<close>

definition account :: "db \<Rightarrow> account_id \<Rightarrow> tx_error + balance" where
  "account d owner =
     rbind (ok_or (find_row ac_owner owner (db_accounts d)) Tx_NotFound) (\<lambda>r.
     Inr \<lparr>available_units = ac_available r, reserved_units = ac_reserved r\<rparr>)"

definition receipt_of :: "db \<Rightarrow> ledger_id \<Rightarrow> operation_id \<Rightarrow> tx_error + receipt option" where
  "receipt_of d ledger i =
     (case find_row op_id i (db_operations d) of
        None \<Rightarrow> Inr None
      | Some r \<Rightarrow>
          if length (op_hash r) \<noteq> 32 then Inl Tx_Store
          else if length (op_reservation r) \<noteq> 32 then Inl Tx_Store
          else rbind (parse_state (op_state r)) (\<lambda>s.
            Inr (Some \<lparr>rc_ledger_id = ledger, rc_operation_id = i, rc_command_sha256 = op_hash r,
                  rc_sequence = op_sequence r, rc_reservation_id = op_reservation r,
                  rc_state = s\<rparr>)))"

section \<open>Transitions\<close>

definition reserve_transition ::
  "db \<Rightarrow> operation_id \<Rightarrow> account_id \<Rightarrow> account_id \<Rightarrow> nat \<Rightarrow>
   tx_error + operation_id \<times> reservation_state \<times> db" where
  "reserve_transition d operation payer recipient units =
     rbind (account d payer) (\<lambda>p.
     rbind (account d recipient) (\<lambda>_.
     rbind (ok_or (checked_sub (available_units p) units) Tx_Insufficient) (\<lambda>available.
     rbind (ok_or (filter_option (\<lambda>n. n \<le> MAX_UNITS) (checked_add_u64 (reserved_units p) units))
              Tx_Capacity) (\<lambda>reserved.
     rbind (sql_int available) (\<lambda>_. rbind (sql_int reserved) (\<lambda>_.
     let d1 = update_account payer
                (\<lambda>r. r\<lparr>ac_available := available, ac_reserved := reserved\<rparr>) d in
     rbind (insert_reservation \<lparr>rv_id = operation, rv_payer = payer, rv_recipient = recipient,
              rv_units = units, rv_state = 1\<rparr> d1) (\<lambda>d2.
     Inr (operation, Reserved, d2))))))))"

definition complete_transition ::
  "db \<Rightarrow> account_id \<Rightarrow> operation_id \<Rightarrow> bool \<Rightarrow>
   tx_error + operation_id \<times> reservation_state \<times> db" where
  "complete_transition d payer reservation_id commit =
     rbind (ok_or (find_row rv_id reservation_id (db_reservations d)) Tx_NotFound) (\<lambda>row.
     if rv_payer row \<noteq> payer then Inl Tx_Unauthorized else
     if rv_state row \<noteq> 1 then Inl Tx_State else
     rbind (account d payer) (\<lambda>paying.
     rbind (ok_or (checked_sub (reserved_units paying) (rv_units row)) Tx_Store) (\<lambda>reserved.
     rbind (if commit
            then (if length (rv_recipient row) = 32 then Inr (rv_recipient row) else Inl Tx_Store)
            else Inr payer) (\<lambda>beneficiary.
     rbind (account d beneficiary) (\<lambda>b.
     rbind (ok_or (filter_option (\<lambda>n. n \<le> MAX_UNITS)
                     (checked_add_u64 (available_units b) (rv_units row))) Tx_Capacity)
       (\<lambda>available.
     rbind (sql_int reserved) (\<lambda>_. rbind (sql_int available) (\<lambda>_.
     let d1 = update_account payer (\<lambda>r. r\<lparr>ac_reserved := reserved\<rparr>) d;
         d2 = update_account beneficiary (\<lambda>r. r\<lparr>ac_available := available\<rparr>) d1;
         s = (if commit then Committed else Cancelled);
         d3 = update_reservation_state reservation_id (state_number s) d2
     in Inr (reservation_id, s, d3)))))))))"

definition transition :: "db \<Rightarrow> command \<Rightarrow> tx_error + operation_id \<times> reservation_state \<times> db" where
  "transition d c = (case cm_action c of
       Reserve recipient units \<Rightarrow>
         reserve_transition d (cm_operation_id c) (cm_payer c) recipient units
     | Commit reservation_id \<Rightarrow> complete_transition d (cm_payer c) reservation_id True
     | Cancel reservation_id \<Rightarrow> complete_transition d (cm_payer c) reservation_id False)"

section \<open>Applying a command\<close>

definition is_reserve :: "action \<Rightarrow> bool" where
  "is_reserve a = (case a of Reserve _ _ \<Rightarrow> True | _ \<Rightarrow> False)"

definition apply_command ::
  "wire_env \<Rightarrow> db \<Rightarrow> ledger_id \<Rightarrow> mode \<Rightarrow> bytes \<Rightarrow> nat \<Rightarrow> tx_error + receipt \<times> db" where
  "apply_command env d ledger m bs now =
     rbind (verify_mode env bs ledger m) (\<lambda>v.
     let c = vf_command v in
     rbind (account d (cm_payer c)) (\<lambda>_.
     let hash = we_sha256 env bs in
     rbind (receipt_of d ledger (cm_operation_id c)) (\<lambda>previous.
     case previous of
       Some r \<Rightarrow>
         rbind (ok_or (find_row op_id (cm_operation_id c) (db_operations d)) Tx_Database) (\<lambda>row.
         if op_signed row = bs then Inr (r, d) else Inl Tx_Conflict)
     | None \<Rightarrow>
         if now < vf_valid_from v \<or> now \<ge> vf_expires v then Inl Tx_NotLive else
         if (cm_payer c, vf_nonce v) \<in> (\<lambda>o'. (op_signer o', op_nonce o')) ` set (db_operations d)
         then Inl Tx_Replay else
         let count = length (db_operations d) in
         if count \<ge> MAX_OPERATIONS then Inl Tx_Capacity else
         if is_reserve (cm_action c)
            \<and> is_none_or (\<lambda>n. n > MAX_OPERATIONS)
                (Option.bind (checked_add_u64 count (pending_count d)) (\<lambda>n. checked_add_u64 n 2))
         then Inl Tx_Capacity else
         rbind (transition d c) (\<lambda>(reservation_id, s, d1).
         let result = \<lparr>rc_ledger_id = ledger, rc_operation_id = cm_operation_id c,
                       rc_command_sha256 = hash, rc_sequence = count + 1,
                       rc_reservation_id = reservation_id, rc_state = s\<rparr> in
         rbind (insert_operation \<lparr>op_sequence = rc_sequence result, op_id = cm_operation_id c,
                  op_signer = cm_payer c, op_nonce = vf_nonce v, op_signed = bs, op_hash = hash,
                  op_reservation = reservation_id, op_state = state_number s\<rparr> d1) (\<lambda>d2.
         rbind (validate_accounting d2) (\<lambda>_. Inr (result, d2)))))))"

section \<open>The store\<close>

record store =
  st_db :: db
  st_ledger_id :: ledger_id
  st_mode :: mode

datatype sqlite_error = Sqlite_Busy | Sqlite_Other

definition from_rusqlite :: "sqlite_error \<Rightarrow> tx_error" where
  "from_rusqlite e = (case e of Sqlite_Busy \<Rightarrow> Tx_Busy | Sqlite_Other \<Rightarrow> Tx_Database)"

text \<open>Whether beginning and committing the transaction fail in this run.\<close>

record sqlite_faults =
  sf_begin :: "sqlite_error option"
  sf_commit :: "sqlite_error option"

definition apply_inner ::
  "wire_env \<Rightarrow> sqlite_faults \<Rightarrow> bytes \<Rightarrow> nat \<Rightarrow> store \<Rightarrow> (tx_error + receipt) \<times> store" where
  "apply_inner env faults bs now s =
     (if st_mode s \<noteq> Local then (Inl Tx_Store, s) else
      case sf_begin faults of
        Some f \<Rightarrow> (Inl (from_rusqlite f), s)
      | None \<Rightarrow>
          (case apply_command env (st_db s) (st_ledger_id s) Local bs now of
             Inl e \<Rightarrow> (Inl e, s)
           | Inr (r, d) \<Rightarrow>
               (case sf_commit faults of
                  Some f \<Rightarrow> (Inl (from_rusqlite f), s)
                | None \<Rightarrow> (Inr r, s\<lparr>st_db := d\<rparr>))))"

definition inspect :: "wire_env \<Rightarrow> store \<Rightarrow> bytes \<Rightarrow> tx_error + command" where
  "inspect env s bs =
     rbind (verify env bs (st_ledger_id s)) (\<lambda>v.
     rbind (account (st_db s) (cm_payer (vf_command v))) (\<lambda>_. Inr (vf_command v)))"

definition status :: "store \<Rightarrow> account_id \<Rightarrow> tx_error + balance" where
  "status s owner = account (st_db s) owner"

definition operation :: "store \<Rightarrow> operation_id \<Rightarrow> tx_error + receipt option" where
  "operation s i = receipt_of (st_db s) (st_ledger_id s) i"

section \<open>Creating and opening a store\<close>

definition APP :: nat where
  "APP = 0x56505431"

definition ORDERED_APP :: nat where
  "ORDERED_APP = 0x56505432"

definition app_of :: "mode \<Rightarrow> nat" where
  "app_of m = (if m = Local then APP else ORDERED_APP)"

text \<open>The loop over the initial accounts: keys seen so far and the supply so far.\<close>

fun check_genesis ::
  "wire_env \<Rightarrow> bytes set \<Rightarrow> nat \<Rightarrow> genesis_account list \<Rightarrow> tx_error + nat" where
  "check_genesis env keys supply [] = Inr supply"
| "check_genesis env keys supply (a # rest) =
     (if ga_owner a = zero32 \<or> \<not> we_key_ok env (ga_owner a) \<or> ga_owner a \<in> keys
      then Inl Tx_Invalid
      else rbind (ok_or (filter_option (\<lambda>n. n \<le> MAX_UNITS) (checked_add_u64 supply (ga_units a)))
                   Tx_Capacity) (\<lambda>supply'.
           check_genesis env (insert (ga_owner a) keys) supply' rest))"

fun insert_genesis :: "genesis_account list \<Rightarrow> db \<Rightarrow> tx_error + db" where
  "insert_genesis [] d = Inr d"
| "insert_genesis (a # rest) d =
     rbind (insert_account \<lparr>ac_owner = ga_owner a, ac_available = ga_units a, ac_reserved = 0\<rparr> d)
       (insert_genesis rest)"

text \<open>
  \<open>fs\<close> is the outcome of the directory and file steps (an error when the operating system or
  SQLite refuses one of them); \<open>initialize\<close> is the closure the ordered mode passes.
\<close>

definition create_mode ::
  "wire_env \<Rightarrow> tx_error option \<Rightarrow> bool \<Rightarrow> ledger_id \<Rightarrow> genesis_account list \<Rightarrow> mode \<Rightarrow>
   (db \<Rightarrow> tx_error + db) \<Rightarrow> tx_error + store" where
  "create_mode env fs path_is_absolute ledger accounts m initialize =
     (if \<not> path_is_absolute \<or> ledger = zero32 \<or> accounts = [] \<or> length accounts > MAX_ACCOUNTS
      then Inl Tx_Invalid
      else
      rbind (check_genesis env {} 0 accounts) (\<lambda>supply.
      case fs of Some e \<Rightarrow> Inl e | None \<Rightarrow>
      let d0 = schema\<lparr>db_application_id := app_of m, db_user_version := 1\<rparr> in
      rbind (insert_meta \<lparr>mt_singleton = 1, mt_ledger = ledger, mt_unit = TEST_UNIT,
               mt_supply = supply\<rparr> d0) (\<lambda>d1.
      rbind (insert_genesis accounts d1) (\<lambda>d2.
      rbind (validate_accounting d2) (\<lambda>_.
      rbind (initialize d2) (\<lambda>d3.
      Inr \<lparr>st_db = d3, st_ledger_id = ledger, st_mode = m\<rparr>))))))"

definition create ::
  "wire_env \<Rightarrow> tx_error option \<Rightarrow> bool \<Rightarrow> ledger_id \<Rightarrow> genesis_account list \<Rightarrow> tx_error + store" where
  "create env fs path_is_absolute ledger accounts =
     create_mode env fs path_is_absolute ledger accounts Local Inr"

definition open_mode :: "db \<Rightarrow> mode \<Rightarrow> tx_error + store" where
  "open_mode d m =
     (if db_application_id d \<noteq> app_of m \<or> db_user_version d \<noteq> 1 then Inl Tx_Store else
      rbind (ok_or (find_row mt_singleton 1 (db_meta d)) Tx_Database) (\<lambda>meta.
      if mt_unit meta \<noteq> TEST_UNIT \<or> mt_ledger meta = zero32 then Inl Tx_Store else
      rbind (validate_accounting d) (\<lambda>_.
      if length (mt_ledger meta) \<noteq> 32 then Inl Tx_Store else
      Inr \<lparr>st_db = d, st_ledger_id = mt_ledger meta, st_mode = m\<rparr>)))"

end
