(* ===== verification/Tx_Ledger_Correct.thy ===== *)
theory Tx_Ledger_Correct
  imports Tx_Ledger
begin

text \<open>
  Correctness of the ledger executor: the invariant every reachable database keeps, an abstract
  ledger of balances and reservations, the refinement of \<open>transition\<close> to it, and the full
  behaviour of \<open>apply_command\<close> on databases that keep the invariant.
\<close>

section \<open>The invariant\<close>

definition owners :: "db \<Rightarrow> account_id set" where
  "owners d = ac_owner ` set (db_accounts d)"

definition accounts_ok :: "db \<Rightarrow> bool" where
  "accounts_ok d \<longleftrightarrow>
     distinct (map ac_owner (db_accounts d))
     \<and> (\<forall>a \<in> set (db_accounts d). length (ac_owner a) = 32)
     \<and> 0 < length (db_accounts d) \<and> length (db_accounts d) \<le> MAX_ACCOUNTS"

definition reservations_ok :: "db \<Rightarrow> bool" where
  "reservations_ok d \<longleftrightarrow>
     distinct (map rv_id (db_reservations d))
     \<and> (\<forall>r \<in> set (db_reservations d). length (rv_id r) = 32 \<and> rv_payer r \<in> owners d
          \<and> rv_recipient r \<in> owners d \<and> 0 < rv_units r \<and> rv_state r \<in> {1, 2, 3}
          \<and> rv_id r \<in> op_id ` set (db_operations d))"

definition signer_nonce :: "operation_row \<Rightarrow> bytes \<times> bytes" where
  "signer_nonce o' = (op_signer o', op_nonce o')"

definition operations_ok :: "db \<Rightarrow> bool" where
  "operations_ok d \<longleftrightarrow>
     map op_sequence (db_operations d) = [1..<Suc (length (db_operations d))]
     \<and> distinct (map op_id (db_operations d))
     \<and> distinct (map signer_nonce (db_operations d))
     \<and> (\<forall>o' \<in> set (db_operations d). length (op_id o') = 32 \<and> op_signer o' \<in> owners d
          \<and> length (op_nonce o') = 32 \<and> length (op_hash o') = 32
          \<and> op_reservation o' \<in> rv_id ` set (db_reservations d) \<and> op_state o' \<in> {1, 2, 3})"

definition db_supply :: "db \<Rightarrow> nat" where
  "db_supply d = (case find_row mt_singleton 1 (db_meta d) of None \<Rightarrow> 0 | Some m \<Rightarrow> mt_supply m)"

definition total_available :: "db \<Rightarrow> nat" where
  "total_available d = sum_list (map ac_available (db_accounts d))"

definition total_reserved :: "db \<Rightarrow> nat" where
  "total_reserved d = sum_list (map ac_reserved (db_accounts d))"

definition accounting_ok :: "db \<Rightarrow> bool" where
  "accounting_ok d \<longleftrightarrow>
     (\<exists>m. find_row mt_singleton 1 (db_meta d) = Some m)
     \<and> db_supply d \<le> MAX_UNITS
     \<and> total_available d + total_reserved d = db_supply d
     \<and> (\<forall>a \<in> set (db_accounts d). ac_reserved a = sum_list (pending_units d (ac_owner a)))
     \<and> length (db_operations d) + pending_count d \<le> MAX_OPERATIONS"

definition ledger_ok :: "db \<Rightarrow> bool" where
  "ledger_ok d \<longleftrightarrow> accounts_ok d \<and> reservations_ok d \<and> operations_ok d \<and> accounting_ok d"

lemmas ledger_ok_defs =
  ledger_ok_def accounts_ok_def reservations_ok_def operations_ok_def accounting_ok_def

section \<open>Bounds that follow from conservation\<close>

lemma find_account:
  assumes "find_row ac_owner k (db_accounts d) = Some a"
  shows "a \<in> set (db_accounts d)" "ac_owner a = k" "k \<in> owners d"
  using find_row_SomeD [OF assms] by (auto simp: owners_def)

lemma account_Inr [result_simps]:
  "account d k = Inr b \<longleftrightarrow>
     (\<exists>a. find_row ac_owner k (db_accounts d) = Some a
        \<and> b = \<lparr>available_units = ac_available a, reserved_units = ac_reserved a\<rparr>)"
  by (auto simp: account_def result_simps)

lemma account_Inl [result_simps]: "account d k = Inl e \<longleftrightarrow> e = Tx_NotFound \<and> k \<notin> owners d"
  by (auto simp: account_def result_simps find_row_None owners_def)

lemma balances_bounded:
  assumes "accounting_ok d" "a \<in> set (db_accounts d)" "b \<in> set (db_accounts d)"
  shows "ac_available a + ac_reserved b \<le> MAX_UNITS"
proof -
  from assms(2,3) have "ac_available a \<le> total_available d" "ac_reserved b \<le> total_reserved d"
    unfolding total_available_def total_reserved_def by (auto intro: sum_list_member_le)
  with assms(1) show ?thesis by (simp add: accounting_ok_def)
qed

lemma pending_le_reserved:
  assumes "accounting_ok d" "a \<in> set (db_accounts d)"
    and "r \<in> set (db_reservations d)" "rv_payer r = ac_owner a" "rv_state r = 1"
  shows "rv_units r \<le> ac_reserved a"
proof -
  from assms(3-5) have "r \<in> set (filter (\<lambda>r. rv_payer r = ac_owner a \<and> rv_state r = 1) (db_reservations d))"
    by simp
  then have "rv_units r \<le> sum_list (pending_units d (ac_owner a))"
    unfolding pending_units_def by (rule sum_list_member_le)
  with assms(1,2) show ?thesis by (simp add: accounting_ok_def)
qed

lemma MAX_UNITS_le_u64: "MAX_UNITS \<le> u64_max"
  by (simp add: MAX_UNITS_def u64_max_def)

lemma checked_add_in_range:
  "a + b \<le> MAX_UNITS \<Longrightarrow>
     filter_option (\<lambda>n. n \<le> MAX_UNITS) (checked_add_u64 a b) = Some (a + b)"
  using MAX_UNITS_le_u64 by (simp add: result_simps)

section \<open>The accounting check accepts every database that keeps the invariant\<close>

lemma count_mismatches_zero:
  assumes "accounting_ok d"
  shows "count_mismatches d = Inr 0"
proof -
  have "rbind (sql_sum (pending_units d (ac_owner a))) (\<lambda>s. Inr (ac_reserved a \<noteq> s)) = Inr False"
    if a: "a \<in> set (db_accounts d)" for a
  proof -
    from assms a have "ac_reserved a = sum_list (pending_units d (ac_owner a))"
      by (simp add: accounting_ok_def)
    moreover from balances_bounded [OF assms a a] have "ac_reserved a \<le> MAX_UNITS" by simp
    ultimately show ?thesis by (simp add: sql_sum_def sql_int_def)
  qed
  then have "rtraverse (\<lambda>a. rbind (sql_sum (pending_units d (ac_owner a)))
      (\<lambda>s. Inr (ac_reserved a \<noteq> s))) (db_accounts d) = Inr (map (\<lambda>_. False) (db_accounts d))"
    by (rule rtraverse_map)
  then show ?thesis
    by (simp add: count_mismatches_def filter_map o_def)
qed

lemma validate_accounting_ok:
  assumes "accounts_ok d" "accounting_ok d"
  shows "validate_accounting d = Inr ()"
proof -
  from assms(2) obtain m where m: "find_row mt_singleton 1 (db_meta d) = Some m"
    by (auto simp: accounting_ok_def)
  have MO: "MAX_OPERATIONS \<le> u64_max" by (simp add: MAX_OPERATIONS_def u64_max_def)
  with assms m show ?thesis
    using count_mismatches_zero [OF assms(2)]
    by (simp add: validate_accounting_def accounts_ok_def accounting_ok_def sql_sum_def sql_int_def
        total_available_def total_reserved_def db_supply_def Let_def checked_add_u64_def)
qed

section \<open>Effects of the transitions\<close>

definition reserve_effect ::
  "db \<Rightarrow> operation_id \<Rightarrow> account_row \<Rightarrow> account_id \<Rightarrow> nat \<Rightarrow> db" where
  "reserve_effect d i a r n =
     (update_account (ac_owner a)
        (\<lambda>x. x\<lparr>ac_available := ac_available a - n, ac_reserved := ac_reserved a + n\<rparr>) d)
     \<lparr>db_reservations := db_reservations d @
        [\<lparr>rv_id = i, rv_payer = ac_owner a, rv_recipient = r, rv_units = n, rv_state = 1\<rparr>]\<rparr>"

definition complete_effect ::
  "db \<Rightarrow> account_row \<Rightarrow> account_row \<Rightarrow> reservation_row \<Rightarrow> nat \<Rightarrow> db" where
  "complete_effect d a b row s =
     update_reservation_state (rv_id row) s
       (update_account (ac_owner b) (\<lambda>x. x\<lparr>ac_available := ac_available b + rv_units row\<rparr>)
         (update_account (ac_owner a) (\<lambda>x. x\<lparr>ac_reserved := ac_reserved a - rv_units row\<rparr>) d))"

lemmas effect_defs =
  reserve_effect_def complete_effect_def update_account_def update_reservation_state_def

lemma owner_found: "k \<in> owners d \<Longrightarrow> \<exists>a. find_row ac_owner k (db_accounts d) = Some a"
  unfolding owners_def by (rule find_row_ex)

lemma reserve_transition_effect:
  assumes ok: "accounting_ok d"
    and a: "find_row ac_owner p (db_accounts d) = Some a"
    and r: "r \<in> owners d" and n: "0 < n" "n \<le> ac_available a"
    and i: "length i = 32" "i \<notin> rv_id ` set (db_reservations d)"
  shows "reserve_transition d i p r n = Inr (i, Reserved, reserve_effect d i a r n)"
proof -
  note fa = find_account [OF a]
  from balances_bounded [OF ok fa(1) fa(1)] n have b: "ac_reserved a + n \<le> MAX_UNITS"
    and b': "ac_available a - n \<le> MAX_UNITS" "n \<le> MAX_UNITS" by auto
  from r obtain c where c: "find_row ac_owner r (db_accounts d) = Some c"
    by (auto dest: owner_found)
  have own: "ac_owner ` set (upd_rows ac_owner p
      (\<lambda>x. x\<lparr>ac_available := ac_available a - n, ac_reserved := ac_reserved a + n\<rparr>) (db_accounts d))
      = owners d"
    by (simp add: image_key_upd_rows owners_def)
  show ?thesis
    using a c n fa i r b b' own
    by (simp add: reserve_transition_def account_def checked_add_in_range sql_int_def
        insert_reservation_def checked_sub_def Let_def effect_defs)
qed

lemma complete_transition_effect:
  assumes ok: "ledger_ok d"
    and row: "find_row rv_id i (db_reservations d) = Some row"
    and p: "rv_payer row = p" "rv_state row = 1"
  obtains a b where "find_row ac_owner p (db_accounts d) = Some a"
    and "find_row ac_owner (if commit then rv_recipient row else p) (db_accounts d) = Some b"
    and "rv_units row \<le> ac_reserved a"
    and "complete_transition d p i commit =
      Inr (i, if commit then Committed else Cancelled,
           complete_effect d a b row (state_number (if commit then Committed else Cancelled)))"
proof -
  let ?k = "if commit then rv_recipient row else p"
  note fr = find_row_SomeD [OF row]
  from ok have acc: "accounting_ok d" and rs: "reservations_ok d" and acs: "accounts_ok d"
    by (simp_all add: ledger_ok_def)
  from rs fr p have "p \<in> owners d" "?k \<in> owners d" by (auto simp: reservations_ok_def)
  then obtain a b where a: "find_row ac_owner p (db_accounts d) = Some a"
    and b: "find_row ac_owner ?k (db_accounts d) = Some b"
    by (metis owner_found)
  note fa = find_account [OF a] and fb = find_account [OF b]
  have le: "rv_units row \<le> ac_reserved a"
    using fr fa p by (intro pending_le_reserved [OF acc fa(1)]) auto
  from balances_bounded [OF acc fb(1) fa(1)] le have bound: "ac_available b + rv_units row \<le> MAX_UNITS"
    "ac_reserved a - rv_units row \<le> MAX_UNITS"
    by auto
  have len: "length ?k = 32" using acs fb by (auto simp: accounts_ok_def)
  have "complete_transition d p i commit =
      Inr (i, if commit then Committed else Cancelled,
           complete_effect d a b row (state_number (if commit then Committed else Cancelled)))"
    using row p a b le bound fa fb fr len
    by (cases commit) (simp_all add: complete_transition_def account_def checked_add_in_range
        sql_int_def checked_sub_def Let_def effect_defs)
  with a b le show thesis by (rule that)
qed

subsection \<open>What an effect changes\<close>

lemma sum_pending_if:
  "sum_list (pending_units d k) =
     sum_list (map (\<lambda>r. if rv_payer r = k \<and> rv_state r = 1 then rv_units r else 0) (db_reservations d))"
  unfolding pending_units_def by (rule sum_list_filter_if)

lemma pending_count_if:
  "pending_count d = sum_list (map (\<lambda>r. if rv_state r = 1 then 1 else 0) (db_reservations d))"
  unfolding pending_count_def by (rule length_filter_if)

lemma account_unique:
  assumes "accounts_ok d" "find_row ac_owner k (db_accounts d) = Some a"
    "x \<in> set (db_accounts d)" "ac_owner x = k"
  shows "x = a"
  using assms find_row_in [of ac_owner "db_accounts d" x] by (simp add: accounts_ok_def)

lemma reserve_effect_tables [simp]:
  "db_meta (reserve_effect d i a r n) = db_meta d"
  "db_operations (reserve_effect d i a r n) = db_operations d"
  "map ac_owner (db_accounts (reserve_effect d i a r n)) = map ac_owner (db_accounts d)"
  "length (db_accounts (reserve_effect d i a r n)) = length (db_accounts d)"
  "owners (reserve_effect d i a r n) = owners d"
  by (simp_all add: effect_defs map_key_upd_rows image_key_upd_rows owners_def)

lemma complete_effect_tables [simp]:
  "db_meta (complete_effect d a b row s) = db_meta d"
  "db_operations (complete_effect d a b row s) = db_operations d"
  "map ac_owner (db_accounts (complete_effect d a b row s)) = map ac_owner (db_accounts d)"
  "map rv_id (db_reservations (complete_effect d a b row s)) = map rv_id (db_reservations d)"
  "length (db_accounts (complete_effect d a b row s)) = length (db_accounts d)"
  "owners (complete_effect d a b row s) = owners d"
  by (simp_all add: effect_defs map_key_upd_rows image_key_upd_rows owners_def)

lemma reserve_effect_totals:
  assumes "accounts_ok d" "find_row ac_owner (ac_owner a) (db_accounts d) = Some a"
    "n \<le> ac_available a"
  shows "total_available (reserve_effect d i a r n) + n = total_available d"
    and "total_reserved (reserve_effect d i a r n) = total_reserved d + n"
proof -
  let ?g = "\<lambda>x. x\<lparr>ac_available := ac_available a - n, ac_reserved := ac_reserved a + n\<rparr>"
  from assms(1) have "distinct (map ac_owner (db_accounts d))" by (simp add: accounts_ok_def)
  note s = sum_upd_rows [OF this assms(2), of _ ?g]
  show "total_available (reserve_effect d i a r n) + n = total_available d"
    using s [of ac_available] assms(3) by (simp add: total_available_def effect_defs)
  show "total_reserved (reserve_effect d i a r n) = total_reserved d + n"
    using s [of ac_reserved] by (simp add: total_reserved_def effect_defs)
qed

lemma complete_effect_totals:
  assumes "accounts_ok d" "find_row ac_owner (ac_owner a) (db_accounts d) = Some a"
    "find_row ac_owner (ac_owner b) (db_accounts d) = Some b" "rv_units row \<le> ac_reserved a"
  shows "total_available (complete_effect d a b row s) = total_available d + rv_units row"
    and "total_reserved (complete_effect d a b row s) + rv_units row = total_reserved d"
proof -
  let ?g = "\<lambda>x. x\<lparr>ac_reserved := ac_reserved a - rv_units row\<rparr>"
  let ?h = "\<lambda>x. x\<lparr>ac_available := ac_available b + rv_units row\<rparr>"
  let ?A = "upd_rows ac_owner (ac_owner a) ?g (db_accounts d)"
  from assms(1) have dist: "distinct (map ac_owner (db_accounts d))" by (simp add: accounts_ok_def)
  then have dist': "distinct (map ac_owner ?A)" by (simp add: map_key_upd_rows)
  obtain b' where b': "find_row ac_owner (ac_owner b) ?A = Some b'" "ac_available b' = ac_available b"
    using assms(2,3) by (cases "ac_owner b = ac_owner a") (auto simp: find_row_upd_rows)
  have "sum_list (map ac_available (upd_rows ac_owner (ac_owner b) ?h ?A)) + ac_available b
      = sum_list (map ac_available ?A) + (ac_available b + rv_units row)"
    using sum_upd_rows [OF dist' b'(1), of ac_available ?h] b'(2) by simp
  moreover have "map ac_available ?A = map ac_available (db_accounts d)"
    by (simp add: map_key_upd_rows)
  ultimately show "total_available (complete_effect d a b row s) = total_available d + rv_units row"
    by (simp add: total_available_def effect_defs)
  have "sum_list (map ac_reserved ?A) + ac_reserved a
      = sum_list (map ac_reserved (db_accounts d)) + (ac_reserved a - rv_units row)"
    using sum_upd_rows [OF dist assms(2), of ac_reserved ?g] by simp
  moreover have "map ac_reserved (upd_rows ac_owner (ac_owner b) ?h ?A) = map ac_reserved ?A"
    by (rule map_key_upd_rows) simp
  ultimately show "total_reserved (complete_effect d a b row s) + rv_units row = total_reserved d"
    using assms(4) by (simp add: total_reserved_def effect_defs)
qed

lemma reserve_effect_pending:
  "pending_count (reserve_effect d i a r n) = Suc (pending_count d)"
  "sum_list (pending_units (reserve_effect d i a r n) k) =
     sum_list (pending_units d k) + (if k = ac_owner a then n else 0)"
  by (auto simp: pending_count_def pending_units_def effect_defs)

lemma complete_effect_pending:
  assumes "reservations_ok d" "find_row rv_id (rv_id row) (db_reservations d) = Some row"
    "rv_state row = 1" "s \<noteq> 1"
  shows "Suc (pending_count (complete_effect d a b row s)) = pending_count d"
    and "sum_list (pending_units (complete_effect d a b row s) k)
           + (if rv_payer row = k then rv_units row else 0) = sum_list (pending_units d k)"
proof -
  from assms(1) have "distinct (map rv_id (db_reservations d))" by (simp add: reservations_ok_def)
  note u = sum_upd_rows [OF this assms(2), of _ "\<lambda>r. r\<lparr>rv_state := s\<rparr>"]
  show "Suc (pending_count (complete_effect d a b row s)) = pending_count d"
    using u [of "\<lambda>r. if rv_state r = 1 then 1 else 0"] assms(3,4)
    by (simp add: pending_count_if effect_defs)
  show "sum_list (pending_units (complete_effect d a b row s) k)
           + (if rv_payer row = k then rv_units row else 0) = sum_list (pending_units d k)"
    using u [of "\<lambda>r. if rv_payer r = k \<and> rv_state r = 1 then rv_units r else 0"] assms(3,4)
    by (simp add: sum_pending_if effect_defs)
qed


subsection \<open>Every recorded effect keeps the invariant\<close>

definition record_operation :: "operation_row \<Rightarrow> db \<Rightarrow> db" where
  "record_operation o' d = d\<lparr>db_operations := db_operations d @ [o']\<rparr>"

lemma record_operation_simps [simp]:
  "db_meta (record_operation o' d) = db_meta d"
  "db_accounts (record_operation o' d) = db_accounts d"
  "db_reservations (record_operation o' d) = db_reservations d"
  "db_operations (record_operation o' d) = db_operations d @ [o']"
  "owners (record_operation o' d) = owners d"
  "pending_count (record_operation o' d) = pending_count d"
  "pending_units (record_operation o' d) = pending_units d"
  "total_available (record_operation o' d) = total_available d"
  "total_reserved (record_operation o' d) = total_reserved d"
  "db_supply (record_operation o' d) = db_supply d"
  by (simp_all add: record_operation_def owners_def pending_count_def pending_units_def
      total_available_def total_reserved_def db_supply_def fun_eq_iff)

text \<open>The row that \<open>apply_command\<close> inserts is admissible: fresh and within the schema.\<close>

definition admissible :: "operation_row \<Rightarrow> db \<Rightarrow> bool" where
  "admissible o' d \<longleftrightarrow>
     op_sequence o' = Suc (length (db_operations d))
     \<and> length (op_id o') = 32 \<and> op_id o' \<notin> op_id ` set (db_operations d)
     \<and> op_signer o' \<in> owners d \<and> length (op_nonce o') = 32
     \<and> signer_nonce o' \<notin> signer_nonce ` set (db_operations d)
     \<and> 1 \<le> length (op_signed o') \<and> length (op_signed o') \<le> 4096
     \<and> length (op_hash o') = 32 \<and> op_state o' \<in> {1, 2, 3}"

lemma operations_ok_record:
  assumes "operations_ok d" "admissible o' d"
    and "db_operations d' = db_operations d" "owners d' = owners d"
    and "rv_id ` set (db_reservations d) \<subseteq> rv_id ` set (db_reservations d')"
    and "op_reservation o' \<in> rv_id ` set (db_reservations d')"
  shows "operations_ok (record_operation o' d')"
  using assms by (auto simp: operations_ok_def admissible_def subset_iff)

lemma accounts_ok_transfer:
  assumes "accounts_ok d" "map ac_owner (db_accounts d') = map ac_owner (db_accounts d)"
  shows "accounts_ok d'"
proof -
  from assms(2) have "ac_owner ` set (db_accounts d') = ac_owner ` set (db_accounts d)"
    by (metis set_map)
  moreover from assms(2) have "length (db_accounts d') = length (db_accounts d)"
    by (metis length_map)
  moreover from assms(1) have "\<forall>k \<in> ac_owner ` set (db_accounts d). length k = 32"
    by (auto simp: accounts_ok_def)
  ultimately have "\<forall>a \<in> set (db_accounts d'). length (ac_owner a) = 32"
    by (metis image_eqI)
  then show ?thesis using assms by (auto simp: accounts_ok_def dest: map_eq_imp_length_eq)
qed

lemma ledger_ok_reserve:
  assumes ok: "ledger_ok d"
    and a: "find_row ac_owner (ac_owner a) (db_accounts d) = Some a"
    and r: "r \<in> owners d" and n: "0 < n" "n \<le> ac_available a"
    and adm: "admissible o' d" and o': "op_reservation o' = op_id o'"
    and cap: "length (db_operations d) + pending_count d + 2 \<le> MAX_OPERATIONS"
  shows "ledger_ok (record_operation o' (reserve_effect d (op_id o') a r n))"
proof -
  let ?d = "reserve_effect d (op_id o') a r n"
  from ok have aok: "accounts_ok d" and rok: "reservations_ok d" and ook: "operations_ok d"
    and acc: "accounting_ok d" by (simp_all add: ledger_ok_def)
  note fa = find_account [OF a]
  have ids: "rv_id ` set (db_reservations ?d) = insert (op_id o') (rv_id ` set (db_reservations d))"
    by (simp add: effect_defs)
  have "accounts_ok (record_operation o' ?d)"
    by (rule accounts_ok_transfer [OF aok]) simp
  moreover have "operations_ok (record_operation o' ?d)"
    by (rule operations_ok_record [OF ook adm]) (auto simp: ids o')
  moreover have "reservations_ok (record_operation o' ?d)"
    using rok adm fa r n by (auto simp: reservations_ok_def admissible_def effect_defs owners_def
        image_key_upd_rows)
  moreover have "accounting_ok (record_operation o' ?d)"
  proof -
    have "ac_reserved x = sum_list (pending_units ?d (ac_owner x))"
      if x: "x \<in> set (db_accounts ?d)" for x
    proof -
      from x obtain x0 where x0: "x0 \<in> set (db_accounts d)"
        and xe: "x = (if ac_owner x0 = ac_owner a then x0\<lparr>ac_available := ac_available a - n,
            ac_reserved := ac_reserved a + n\<rparr> else x0)"
        by (auto simp: effect_defs dest!: set_upd_rows)
      from acc x0 have "ac_reserved x0 = sum_list (pending_units d (ac_owner x0))"
        by (simp add: accounting_ok_def)
      with account_unique [OF aok a x0] xe show ?thesis
        by (auto simp: reserve_effect_pending)
    qed
    then show ?thesis
      using acc cap reserve_effect_totals [OF aok a n(2), of "op_id o'" r]
      by (auto simp: accounting_ok_def reserve_effect_pending db_supply_def)
  qed
  ultimately show ?thesis by (simp add: ledger_ok_def)
qed

lemma ledger_ok_complete:
  assumes ok: "ledger_ok d"
    and a: "find_row ac_owner (ac_owner a) (db_accounts d) = Some a"
    and b: "find_row ac_owner (ac_owner b) (db_accounts d) = Some b"
    and row: "find_row rv_id (rv_id row) (db_reservations d) = Some row"
    and st: "rv_payer row = ac_owner a" "rv_state row = 1" "rv_units row \<le> ac_reserved a"
    and s: "s = 2 \<or> s = 3"
    and adm: "admissible o' d" and o': "op_reservation o' = rv_id row"
  shows "ledger_ok (record_operation o' (complete_effect d a b row s))"
proof -
  let ?d = "complete_effect d a b row s"
  from ok have aok: "accounts_ok d" and rok: "reservations_ok d" and ook: "operations_ok d"
    and acc: "accounting_ok d" by (simp_all add: ledger_ok_def)
  from s have s1: "s \<noteq> 1" by auto
  note fr = find_row_SomeD [OF row]
  have ids: "rv_id ` set (db_reservations ?d) = rv_id ` set (db_reservations d)"
    by (simp add: effect_defs image_key_upd_rows)
  have "accounts_ok (record_operation o' ?d)"
    by (rule accounts_ok_transfer [OF aok]) simp
  moreover have "operations_ok (record_operation o' ?d)"
    using fr by (intro operations_ok_record [OF ook adm]) (auto simp: ids o')
  moreover have "reservations_ok (record_operation o' ?d)"
  proof -
    have "length (rv_id x) = 32 \<and> rv_payer x \<in> owners d \<and> rv_recipient x \<in> owners d
        \<and> 0 < rv_units x \<and> rv_state x \<in> {1, 2, 3} \<and> rv_id x \<in> op_id ` set (db_operations d)"
      if x: "x \<in> set (db_reservations ?d)" for x
    proof -
      from x obtain x0 where x0: "x0 \<in> set (db_reservations d)"
        and "x = (if rv_id x0 = rv_id row then x0\<lparr>rv_state := s\<rparr> else x0)"
        by (auto simp: effect_defs dest!: set_upd_rows)
      moreover from rok x0 have "length (rv_id x0) = 32 \<and> rv_payer x0 \<in> owners d
          \<and> rv_recipient x0 \<in> owners d \<and> 0 < rv_units x0 \<and> rv_state x0 \<in> {1, 2, 3}
          \<and> rv_id x0 \<in> op_id ` set (db_operations d)"
        by (simp add: reservations_ok_def)
      ultimately show ?thesis using s by auto
    qed
    moreover from rok have "distinct (map rv_id (db_reservations ?d))"
      by (simp add: reservations_ok_def)
    ultimately show ?thesis by (auto simp: reservations_ok_def)
  qed
  moreover have "accounting_ok (record_operation o' ?d)"
  proof -
    have "ac_reserved x = sum_list (pending_units ?d (ac_owner x))"
      if x: "x \<in> set (db_accounts ?d)" for x
    proof -
      let ?A = "upd_rows ac_owner (ac_owner a)
            (\<lambda>x. x\<lparr>ac_reserved := ac_reserved a - rv_units row\<rparr>) (db_accounts d)"
      from x have "x \<in> set (upd_rows ac_owner (ac_owner b)
          (\<lambda>x. x\<lparr>ac_available := ac_available b + rv_units row\<rparr>) ?A)"
        by (simp add: effect_defs)
      from set_upd_rows [OF this] obtain y where y: "y \<in> set ?A" and "x = (if ac_owner y = ac_owner b
          then y\<lparr>ac_available := ac_available b + rv_units row\<rparr> else y)"
        by (elim bexE)
      then have xy: "ac_owner x = ac_owner y" "ac_reserved x = ac_reserved y" by simp_all
      from y obtain x0 where x0: "x0 \<in> set (db_accounts d)"
        and ye: "y = (if ac_owner x0 = ac_owner a
            then x0\<lparr>ac_reserved := ac_reserved a - rv_units row\<rparr> else x0)"
        by (auto dest!: set_upd_rows)
      from acc x0 have "ac_reserved x0 = sum_list (pending_units d (ac_owner x0))"
        by (simp add: accounting_ok_def)
      with account_unique [OF aok a x0] ye xy st(1)
        complete_effect_pending(2) [OF rok row st(2) s1, of a b "ac_owner x0"]
      show ?thesis by (cases "ac_owner x0 = ac_owner a") auto
    qed
    then show ?thesis
      using acc complete_effect_totals [OF aok a b st(3), of s]
        complete_effect_pending(1) [OF rok row st(2) s1, of a b]
      by (auto simp: accounting_ok_def db_supply_def)
  qed
  ultimately show ?thesis by (simp add: ledger_ok_def)
qed

section \<open>The abstract ledger\<close>

text \<open>
  What the executor promises: a balance per account and a table of reservations. A reservation
  moves available units aside, a commit hands them to the recipient, a cancellation gives them
  back; nothing else can go wrong with the units.
\<close>

record reservation =
  rs_payer :: account_id
  rs_recipient :: account_id
  rs_units :: nat
  rs_state :: reservation_state

record ledger =
  lg_balances :: "account_id \<rightharpoonup> balance"
  lg_reservations :: "operation_id \<rightharpoonup> reservation"

definition spec_hold :: "account_id \<Rightarrow> nat \<Rightarrow> (account_id \<rightharpoonup> balance) \<Rightarrow> (account_id \<rightharpoonup> balance)" where
  "spec_hold k n B = B(k := map_option (\<lambda>b. b\<lparr>available_units := available_units b - n,
     reserved_units := reserved_units b + n\<rparr>) (B k))"

definition spec_release :: "account_id \<Rightarrow> nat \<Rightarrow> (account_id \<rightharpoonup> balance) \<Rightarrow> (account_id \<rightharpoonup> balance)" where
  "spec_release k n B = B(k := map_option (\<lambda>b. b\<lparr>reserved_units := reserved_units b - n\<rparr>) (B k))"

definition spec_credit :: "account_id \<Rightarrow> nat \<Rightarrow> (account_id \<rightharpoonup> balance) \<Rightarrow> (account_id \<rightharpoonup> balance)" where
  "spec_credit k n B = B(k := map_option (\<lambda>b. b\<lparr>available_units := available_units b + n\<rparr>) (B k))"

definition spec_complete ::
  "ledger \<Rightarrow> account_id \<Rightarrow> operation_id \<Rightarrow> bool \<Rightarrow> tx_error + operation_id \<times> reservation_state \<times> ledger"
where
  "spec_complete L p i commit =
     (case lg_reservations L i of
        None \<Rightarrow> Inl Tx_NotFound
      | Some r \<Rightarrow>
          if rs_payer r \<noteq> p then Inl Tx_Unauthorized
          else if rs_state r \<noteq> Reserved then Inl Tx_State
          else let s = (if commit then Committed else Cancelled);
                   k = (if commit then rs_recipient r else p)
               in Inr (i, s,
                   L\<lparr>lg_balances := spec_credit k (rs_units r) (spec_release p (rs_units r) (lg_balances L)),
                     lg_reservations := (lg_reservations L)(i \<mapsto> r\<lparr>rs_state := s\<rparr>)\<rparr>))"

definition spec_transition ::
  "ledger \<Rightarrow> command \<Rightarrow> tx_error + operation_id \<times> reservation_state \<times> ledger" where
  "spec_transition L c = (case cm_action c of
       Reserve r n \<Rightarrow>
         (case lg_balances L (cm_payer c) of
            None \<Rightarrow> Inl Tx_NotFound
          | Some b \<Rightarrow>
              if lg_balances L r = None then Inl Tx_NotFound
              else if available_units b < n then Inl Tx_Insufficient
              else Inr (cm_operation_id c, Reserved,
                L\<lparr>lg_balances := spec_hold (cm_payer c) n (lg_balances L),
                  lg_reservations := (lg_reservations L)(cm_operation_id c \<mapsto>
                    \<lparr>rs_payer = cm_payer c, rs_recipient = r, rs_units = n, rs_state = Reserved\<rparr>)\<rparr>))
     | Commit i \<Rightarrow> spec_complete L (cm_payer c) i True
     | Cancel i \<Rightarrow> spec_complete L (cm_payer c) i False)"

definition state_of :: "nat \<Rightarrow> reservation_state" where
  "state_of n = (if n = 1 then Reserved else if n = 2 then Committed else Cancelled)"

definition abs_balance :: "account_row \<Rightarrow> balance" where
  "abs_balance a = \<lparr>available_units = ac_available a, reserved_units = ac_reserved a\<rparr>"

definition abs_reservation :: "reservation_row \<Rightarrow> reservation" where
  "abs_reservation r = \<lparr>rs_payer = rv_payer r, rs_recipient = rv_recipient r,
     rs_units = rv_units r, rs_state = state_of (rv_state r)\<rparr>"

definition abs_ledger :: "db \<Rightarrow> ledger" where
  "abs_ledger d =
     \<lparr>lg_balances = (\<lambda>k. map_option abs_balance (find_row ac_owner k (db_accounts d))),
      lg_reservations = (\<lambda>i. map_option abs_reservation (find_row rv_id i (db_reservations d)))\<rparr>"

definition abs_result ::
  "tx_error + operation_id \<times> reservation_state \<times> db \<Rightarrow>
   tx_error + operation_id \<times> reservation_state \<times> ledger" where
  "abs_result r = (case r of Inl e \<Rightarrow> Inl e | Inr (i, s, d) \<Rightarrow> Inr (i, s, abs_ledger d))"

lemma ledger_eqI:
  "(\<And>k. lg_balances L k = lg_balances M k) \<Longrightarrow>
   (\<And>i. lg_reservations L i = lg_reservations M i) \<Longrightarrow> (L :: ledger) = M"
  by (rule ledger.equality) (auto simp: fun_eq_iff)

lemma abs_ledger_lookup:
  "lg_balances (abs_ledger d) k = map_option abs_balance (find_row ac_owner k (db_accounts d))"
  "lg_reservations (abs_ledger d) i = map_option abs_reservation (find_row rv_id i (db_reservations d))"
  by (simp_all add: abs_ledger_def)

lemma abs_reserve_effect:
  assumes a: "find_row ac_owner p (db_accounts d) = Some a"
    and i: "i \<notin> rv_id ` set (db_reservations d)"
  shows "abs_ledger (reserve_effect d i a r n) =
    (abs_ledger d)\<lparr>lg_balances := spec_hold p n (lg_balances (abs_ledger d)),
      lg_reservations := (lg_reservations (abs_ledger d))(i \<mapsto>
        \<lparr>rs_payer = p, rs_recipient = r, rs_units = n, rs_state = Reserved\<rparr>)\<rparr>"
proof -
  have p: "ac_owner a = p" using find_account [OF a] by simp
  from i have "find_row rv_id i (db_reservations d) = None" by (simp add: find_row_None)
  with a p show ?thesis
    by (intro ledger_eqI)
      (simp_all add: abs_ledger_lookup effect_defs spec_hold_def find_row_upd_rows find_row_append
        abs_balance_def abs_reservation_def state_of_def split: option.split)
qed

lemma abs_complete_effect:
  assumes a: "find_row ac_owner p (db_accounts d) = Some a"
    and b: "find_row ac_owner k (db_accounts d) = Some b"
    and row: "find_row rv_id i (db_reservations d) = Some row"
  shows "abs_ledger (complete_effect d a b row (state_number s)) =
    (abs_ledger d)\<lparr>lg_balances := spec_credit k (rv_units row)
        (spec_release p (rv_units row) (lg_balances (abs_ledger d))),
      lg_reservations := (lg_reservations (abs_ledger d))(i \<mapsto>
        (abs_reservation row)\<lparr>rs_state := s\<rparr>)\<rparr>"
proof -
  have st: "state_of (state_number s) = s"
    by (cases s) (simp_all add: state_of_def state_number_def)
  have own: "ac_owner a = p" "ac_owner b = k" "rv_id row = i"
    using find_account [OF a] find_account [OF b] find_row_SomeD [OF row] by simp_all
  show ?thesis
  proof (rule ledger_eqI)
    fix j show "lg_reservations (abs_ledger (complete_effect d a b row (state_number s))) j =
      lg_reservations (abs_ledger d\<lparr>lg_balances := spec_credit k (rv_units row)
        (spec_release p (rv_units row) (lg_balances (abs_ledger d))),
      lg_reservations := (lg_reservations (abs_ledger d))(i \<mapsto> (abs_reservation row)\<lparr>rs_state := s\<rparr>)\<rparr>) j"
      using row own st
      by (simp add: abs_ledger_lookup effect_defs find_row_upd_rows abs_reservation_def)
  next
    fix q show "lg_balances (abs_ledger (complete_effect d a b row (state_number s))) q =
      lg_balances (abs_ledger d\<lparr>lg_balances := spec_credit k (rv_units row)
        (spec_release p (rv_units row) (lg_balances (abs_ledger d))),
      lg_reservations := (lg_reservations (abs_ledger d))(i \<mapsto> (abs_reservation row)\<lparr>rs_state := s\<rparr>)\<rparr>) q"
      using a b own
      by (cases "p = k") (simp_all add: abs_ledger_lookup effect_defs find_row_upd_rows abs_balance_def
          spec_credit_def spec_release_def)
  qed
qed

lemma complete_refines:
  assumes ok: "ledger_ok d"
  shows "abs_result (complete_transition d p i commit) = spec_complete (abs_ledger d) p i commit"
proof (cases "find_row rv_id i (db_reservations d)")
  case None
  then show ?thesis
    by (simp add: complete_transition_def spec_complete_def abs_result_def abs_ledger_def)
next
  case (Some row)
  note fr = find_row_SomeD [OF Some]
  from ok fr have st: "rv_state row \<in> {1, 2, 3}" by (auto simp: ledger_ok_def reservations_ok_def)
  show ?thesis
  proof (cases "rv_payer row = p \<and> rv_state row = 1")
    case False
    with Some st show ?thesis
      by (auto simp: complete_transition_def spec_complete_def abs_result_def abs_ledger_def
          abs_reservation_def state_of_def)
  next
    case True
    then have p: "rv_payer row = p" "rv_state row = 1" by simp_all
    obtain a b where a: "find_row ac_owner p (db_accounts d) = Some a"
      and b: "find_row ac_owner (if commit then rv_recipient row else p) (db_accounts d) = Some b"
      and eff: "complete_transition d p i commit =
        Inr (i, if commit then Committed else Cancelled,
             complete_effect d a b row (state_number (if commit then Committed else Cancelled)))"
      using complete_transition_effect [OF ok Some p, where commit = commit] by metis
    note fa = find_account [OF a] and fb = find_account [OF b]
    from Some fr p have lk: "lg_reservations (abs_ledger d) i = Some (abs_reservation row)"
      by (simp add: abs_ledger_def)
    show ?thesis
      unfolding eff spec_complete_def abs_result_def lk
      using abs_complete_effect [OF a b Some] p
      by (simp add: abs_reservation_def state_of_def Let_def)
  qed
qed

lemma transition_refines:
  assumes ok: "ledger_ok d" and wf: "well_formed_command c"
    and fresh: "cm_operation_id c \<notin> op_id ` set (db_operations d)"
  shows "abs_result (transition d c) = spec_transition (abs_ledger d) c"
proof (cases "cm_action c")
  case (Reserve r n)
  from ok have acc: "accounting_ok d" and rok: "reservations_ok d" by (simp_all add: ledger_ok_def)
  from rok fresh have i: "cm_operation_id c \<notin> rv_id ` set (db_reservations d)"
    by (auto simp: reservations_ok_def)
  from wf Reserve have n: "0 < n" "length (cm_operation_id c) = 32"
    by (auto simp: well_formed_command_def)
  show ?thesis
  proof (cases "find_row ac_owner (cm_payer c) (db_accounts d)")
    case None
    with Reserve show ?thesis
      by (simp add: transition_def spec_transition_def reserve_transition_def account_def
          abs_result_def abs_ledger_def)
  next
    case (Some a)
    note sa = Some and fa = find_account [OF Some]
    show ?thesis
    proof (cases "find_row ac_owner r (db_accounts d)")
      case None
      with Reserve sa show ?thesis
        by (simp add: transition_def spec_transition_def reserve_transition_def account_def
          abs_result_def abs_ledger_def)
    next
      case (Some b)
      have ro: "r \<in> owners d" using find_account [OF Some] by auto
      show ?thesis
      proof (cases "n \<le> ac_available a")
        case True
        with Reserve Some sa fa n i ro show ?thesis
          using reserve_transition_effect [OF acc sa _ n(1) _ n(2) i, of r]
            abs_reserve_effect [OF sa i, of r n]
          by (simp add: transition_def spec_transition_def abs_result_def abs_ledger_lookup abs_balance_def)
      next
        case False
        with Reserve Some sa show ?thesis
          by (simp add: transition_def spec_transition_def reserve_transition_def account_def
            abs_result_def abs_ledger_def abs_balance_def checked_sub_def)
      qed
    qed
  qed
next
  case (Commit i)
  then show ?thesis by (simp add: transition_def spec_transition_def complete_refines [OF ok])
next
  case (Cancel i)
  then show ?thesis by (simp add: transition_def spec_transition_def complete_refines [OF ok])
qed

end
