(* ===== verification/Tx_Example.thy ===== *)
theory Tx_Example
  imports Tx_Ledger
begin

text \<open>
  A concrete instance of the third-party parameters and a small ledger with three signed commands,
  on which the properties of the ledger are applied. The codecs are finite tables, the hash
  tells short inputs from long ones, and exactly the signature \<open>[1]\<close> verifies.
\<close>

definition demo_id :: "byte \<Rightarrow> bytes" where
  "demo_id b = replicate 32 b"

definition demo_body :: "mode \<Rightarrow> byte \<Rightarrow> nat \<Rightarrow> byte \<Rightarrow> nat \<Rightarrow> body" where
  "demo_body m k kind target units =
     \<lparr>bd_version = version_of m, bd_unit = TEST_UNIT, bd_ledger = demo_id 9, bd_operation = demo_id k,
      bd_payer = demo_id 1, bd_kind = kind, bd_target = demo_id target, bd_units = units\<rparr>"

definition demo_envelope :: "mode \<Rightarrow> byte \<Rightarrow> bytes \<Rightarrow> envelope" where
  "demo_envelope m k signature =
     \<lparr>ev_version = version_of m, ev_sender = demo_id 1, ev_valid_from = 100, ev_expires = 200,
      ev_nonce = demo_id (k + 64), ev_payload = [k], ev_payload_hash = demo_id 7,
      ev_signature = signature\<rparr>"

text \<open>
  Operation 3 reserves 30 units of account 1 for account 2, operation 4 commits that reservation and
  operation 5 cancels it. The wire bytes of operation \<open>k\<close> are \<open>[k, 1]\<close>.
\<close>

definition demo_env :: "mode \<Rightarrow> wire_env" where
  "demo_env m =
     \<lparr>we_envelope = table_codec
        [(demo_envelope m 3 [1], [3, 1]), (demo_envelope m 4 [1], [4, 1]), (demo_envelope m 5 [1], [5, 1])],
      we_body = table_codec
        [(demo_body m 3 1 2 30, [3]), (demo_body m 4 2 3 0, [4]), (demo_body m 5 3 3 0, [5])],
      we_sha256 = (\<lambda>b. if length b \<le> 8 then demo_id 7 else demo_id 9), we_key_ok = (\<lambda>_. True), we_signature_ok = (\<lambda>_. True),
      we_verify_strict = (\<lambda>k msg s. s = [1])\<rparr>"

definition demo_db :: db where
  "demo_db = schema
     \<lparr>db_meta := [\<lparr>mt_singleton = 1, mt_ledger = demo_id 9, mt_unit = TEST_UNIT, mt_supply = 150\<rparr>],
      db_accounts := [\<lparr>ac_owner = demo_id 1, ac_available = 100, ac_reserved = 0\<rparr>,
                      \<lparr>ac_owner = demo_id 2, ac_available = 50, ac_reserved = 0\<rparr>]\<rparr>"

definition demo_reserve :: bytes where "demo_reserve = [3, 1]"
definition demo_commit :: bytes where "demo_commit = [4, 1]"
definition demo_cancel :: bytes where "demo_cancel = [5, 1]"

definition demo_apply :: "mode \<Rightarrow> db \<Rightarrow> bytes \<Rightarrow> nat \<Rightarrow> tx_error + receipt \<times> db" where
  "demo_apply m d bs now = apply_command (demo_env m) d (demo_id 9) m bs now"

text \<open>The database after the reservation.\<close>

definition demo_db1 :: db where
  "demo_db1 = demo_db
     \<lparr>db_accounts := [\<lparr>ac_owner = demo_id 1, ac_available = 70, ac_reserved = 30\<rparr>,
                      \<lparr>ac_owner = demo_id 2, ac_available = 50, ac_reserved = 0\<rparr>],
      db_reservations := [\<lparr>rv_id = demo_id 3, rv_payer = demo_id 1, rv_recipient = demo_id 2,
                           rv_units = 30, rv_state = 1\<rparr>],
      db_operations := [\<lparr>op_sequence = 1, op_id = demo_id 3, op_signer = demo_id 1,
                         op_nonce = demo_id 67, op_signed = demo_reserve, op_hash = demo_id 7,
                         op_reservation = demo_id 3, op_state = 1\<rparr>]\<rparr>"

definition demo_receipt :: "byte \<Rightarrow> nat \<Rightarrow> reservation_state \<Rightarrow> receipt" where
  "demo_receipt k n s = \<lparr>rc_ledger_id = demo_id 9, rc_operation_id = demo_id k,
     rc_command_sha256 = demo_id 7, rc_sequence = n, rc_reservation_id = demo_id 3, rc_state = s\<rparr>"

lemma demo_reserve_applied:
  "apply_command (demo_env Local) demo_db (demo_id 9) Local demo_reserve 150 =
     Inr (demo_receipt 3 1 Reserved, demo_db1)"
  by code_simp

definition demo_verified :: "byte \<Rightarrow> action \<Rightarrow> verified" where
  "demo_verified k a =
     \<lparr>vf_command = \<lparr>cm_operation_id = demo_id k, cm_payer = demo_id 1, cm_action = a\<rparr>,
      vf_nonce = demo_id (k + 64), vf_valid_from = 100, vf_expires = 200\<rparr>"

lemma demo_verify:
  "verify_mode (demo_env Local) demo_reserve (demo_id 9) Local = Inr (demo_verified 3 (Reserve (demo_id 2) 30))"
  "verify_mode (demo_env Local) demo_commit (demo_id 9) Local = Inr (demo_verified 4 (Commit (demo_id 3)))"
  by code_simp+

end
