(* ===== verification/Tx_Apply.thy ===== *)
theory Tx_Apply
  imports Tx_Ledger_Correct Tx_Example
begin

text \<open>
  The behaviour of \<open>apply_command\<close> and of the store on databases that keep the invariant:
  which rows a successful command adds, which errors it can return, replay and conflict.
\<close>

section \<open>Assumptions on the third-party codec and hash\<close>

text \<open>
  SHA-256 digests have 32 bytes, and the empty string decodes, if at all, to an envelope with the
  default version 0.
\<close>

definition wire_env_ok :: "wire_env \<Rightarrow> bool" where
  "wire_env_ok env \<longleftrightarrow> (\<forall>b. length (we_sha256 env b) = 32)
     \<and> (\<forall>e. cd_decode (we_envelope env) [] = Some e \<longrightarrow> ev_version e = 0)"

lemma verified_bytes:
  assumes "wire_env_ok env" "verify_mode env bs ledger m = Inr v"
  shows "1 \<le> length bs" "length bs \<le> 4096"
proof -
  from assms(2) obtain e b where au: "authentic env bs ledger m e b"
    by (rule verify_mode_authentic)
  then show "length bs \<le> 4096" by (simp add: authentic_def MAX_BYTES_def)
  from au assms(1) have "bs \<noteq> []"
    by (auto simp: authentic_def wire_env_ok_def version_of_def split: mode.splits if_splits)
  then show "1 \<le> length bs" by (cases bs) simp_all
qed

definition wire_errors :: "tx_error set" where
  "wire_errors = {Tx_Invalid, Tx_WrongLedger, Tx_Unauthorized}"

lemma verify_mode_errors:
  assumes "verify_mode env bs ledger m = Inl e"
  shows "e \<in> wire_errors"
  using assms
  by (auto simp: verify_mode_def wire_errors_def result_simps signing_bytes_def identifier32_def
      body_action_def Let_def split: if_splits)

section \<open>What a successful transition does\<close>

lemma transition_cases:
  assumes ok: "ledger_ok d" and wf: "well_formed_command c"
    and fresh: "cm_operation_id c \<notin> op_id ` set (db_operations d)"
    and tr: "transition d c = Inr (i, s, d1)"
  obtains
    (reserve) a r n where "cm_action c = Reserve r n"
      "find_row ac_owner (cm_payer c) (db_accounts d) = Some a" "r \<in> owners d"
      "0 < n" "n \<le> ac_available a" "i = cm_operation_id c" "s = Reserved"
      "d1 = reserve_effect d (cm_operation_id c) a r n"
  | (complete) a b row commit where "cm_action c = (if commit then Commit i else Cancel i)"
      "find_row rv_id i (db_reservations d) = Some row"
      "rv_payer row = cm_payer c" "rv_state row = 1" "rv_units row \<le> ac_reserved a"
      "find_row ac_owner (cm_payer c) (db_accounts d) = Some a"
      "find_row ac_owner (if commit then rv_recipient row else cm_payer c) (db_accounts d) = Some b"
      "s = (if commit then Committed else Cancelled)"
      "d1 = complete_effect d a b row (state_number s)"
proof -
  have comp: thesis if act: "cm_action c = (if commit then Commit j else Cancel j)"
      and tc: "complete_transition d (cm_payer c) j commit = Inr (i, s, d1)" for j commit
  proof -
    from tc obtain row where row: "find_row rv_id j (db_reservations d) = Some row"
      and p: "rv_payer row = cm_payer c" "rv_state row = 1"
      by (auto simp: complete_transition_def result_simps split: if_splits)
    obtain a b where "find_row ac_owner (cm_payer c) (db_accounts d) = Some a"
      "find_row ac_owner (if commit then rv_recipient row else cm_payer c) (db_accounts d) = Some b"
      "rv_units row \<le> ac_reserved a"
      "complete_transition d (cm_payer c) j commit =
        Inr (j, if commit then Committed else Cancelled,
             complete_effect d a b row (state_number (if commit then Committed else Cancelled)))"
      by (rule complete_transition_effect [OF ok row p, where commit = commit])
    with tc act row p show thesis by (intro complete) auto
  qed
  show thesis
  proof (cases "cm_action c")
    case (Reserve r n)
    with tr have rt: "reserve_transition d (cm_operation_id c) (cm_payer c) r n = Inr (i, s, d1)"
      by (simp add: transition_def)
    then obtain a where a: "find_row ac_owner (cm_payer c) (db_accounts d) = Some a"
      and n: "n \<le> ac_available a" and r: "r \<in> owners d"
      by (auto simp: reserve_transition_def result_simps dest: find_account(3))
    from ok fresh have "cm_operation_id c \<notin> rv_id ` set (db_reservations d)"
      by (auto simp: ledger_ok_def reservations_ok_def)
    moreover from wf Reserve have "0 < n" "length (cm_operation_id c) = 32"
      by (auto simp: well_formed_command_def)
    ultimately show ?thesis
      using reserve_transition_effect [OF _ a r _ n, of "cm_operation_id c"] ok rt a r n Reserve
      by (intro reserve) (auto simp: ledger_ok_def)
  next
    case (Commit j)
    with tr show ?thesis by (intro comp [of True j]) (simp_all add: transition_def)
  next
    case (Cancel j)
    with tr show ?thesis by (intro comp [of False j]) (simp_all add: transition_def)
  qed
qed

lemma transition_errors:
  assumes "ledger_ok d" "well_formed_command c"
    and "cm_operation_id c \<notin> op_id ` set (db_operations d)" "transition d c = Inl e"
  shows "e \<in> {Tx_NotFound, Tx_Insufficient, Tx_Unauthorized, Tx_State}"
proof -
  have "spec_transition (abs_ledger d) c = Inl e"
    using transition_refines [OF assms(1-3)] assms(4) by (simp add: abs_result_def)
  then show ?thesis
    by (auto simp: spec_transition_def spec_complete_def Let_def
        split: action.splits option.splits if_splits)
qed

lemma transition_record:
  assumes ok: "ledger_ok d" and wf: "well_formed_command c"
    and tr: "transition d c = Inr (i, s, d1)"
    and adm: "admissible o' d" and o': "op_id o' = cm_operation_id c" "op_reservation o' = i"
    and cap: "is_reserve (cm_action c) \<Longrightarrow>
      length (db_operations d) + pending_count d + 2 \<le> MAX_OPERATIONS"
  shows "ledger_ok (record_operation o' d1)" "db_supply d1 = db_supply d"
    "db_operations d1 = db_operations d" "owners d1 = owners d"
proof -
  from adm o' have fresh: "cm_operation_id c \<notin> op_id ` set (db_operations d)"
    by (simp add: admissible_def)
  have "ledger_ok (record_operation o' d1) \<and> db_supply d1 = db_supply d
    \<and> db_operations d1 = db_operations d \<and> owners d1 = owners d"
    using ok wf fresh tr
  proof (cases rule: transition_cases)
    case (reserve a r n)
    note fa = find_account [OF reserve(2)]
    have "ledger_ok (record_operation o' (reserve_effect d (op_id o') a r n))"
      using reserve fa adm o' cap by (intro ledger_ok_reserve [OF ok]) (simp_all add: is_reserve_def)
    with reserve o' show ?thesis by (simp add: db_supply_def)
  next
    case (complete a b row commit)
    note fa = find_account [OF complete(6)] and fb = find_account [OF complete(7)]
      and fr = find_row_SomeD [OF complete(2)]
    have "ledger_ok (record_operation o' (complete_effect d a b row (state_number s)))"
      using complete fa fb fr adm o'
      by (intro ledger_ok_complete [OF ok]) (simp_all add: state_number_def)
    with complete show ?thesis by (simp add: db_supply_def)
  qed
  then show "ledger_ok (record_operation o' d1)" "db_supply d1 = db_supply d"
    "db_operations d1 = db_operations d" "owners d1 = owners d" by simp_all
qed

section \<open>Applying a command\<close>

definition rejections :: "tx_error set" where
  "rejections = wire_errors \<union> {Tx_NotFound, Tx_Conflict, Tx_NotLive, Tx_Replay, Tx_Capacity,
     Tx_Insufficient, Tx_State}"

definition receipt_row :: "ledger_id \<Rightarrow> operation_row \<Rightarrow> receipt" where
  "receipt_row ledger r = \<lparr>rc_ledger_id = ledger, rc_operation_id = op_id r,
     rc_command_sha256 = op_hash r, rc_sequence = op_sequence r,
     rc_reservation_id = op_reservation r, rc_state = state_of (op_state r)\<rparr>"

lemma receipt_of_ok:
  assumes "ledger_ok d"
  shows "receipt_of d ledger i = Inr (map_option (receipt_row ledger) (find_row op_id i (db_operations d)))"
proof (cases "find_row op_id i (db_operations d)")
  case None
  then show ?thesis by (simp add: receipt_of_def)
next
  case (Some r)
  note fr = find_row_SomeD [OF Some]
  from assms fr have r: "length (op_hash r) = 32" "op_reservation r \<in> rv_id ` set (db_reservations d)"
    "op_state r \<in> {1, 2, 3}" by (auto simp: ledger_ok_def operations_ok_def)
  moreover from assms r(2) have "length (op_reservation r) = 32"
    by (auto simp: ledger_ok_def reservations_ok_def)
  ultimately show ?thesis using Some fr
    by (auto simp: receipt_of_def receipt_row_def parse_state_def state_of_def)
qed

definition new_row ::
  "wire_env \<Rightarrow> db \<Rightarrow> bytes \<Rightarrow> verified \<Rightarrow> operation_id \<Rightarrow> reservation_state \<Rightarrow> operation_row" where
  "new_row env d bs v i s =
     \<lparr>op_sequence = length (db_operations d) + 1, op_id = cm_operation_id (vf_command v),
      op_signer = cm_payer (vf_command v), op_nonce = vf_nonce v, op_signed = bs,
      op_hash = we_sha256 env bs, op_reservation = i, op_state = state_number s\<rparr>"

lemma state_of_number [simp]: "state_of (state_number s) = s"
  by (cases s) (simp_all add: state_of_def state_number_def)

text \<open>The guards of \<open>apply_command\<close> before the transition, for a command not yet recorded.\<close>

definition fresh_command :: "db \<Rightarrow> verified \<Rightarrow> nat \<Rightarrow> bool" where
  "fresh_command d v now \<longleftrightarrow>
     cm_payer (vf_command v) \<in> owners d
     \<and> cm_operation_id (vf_command v) \<notin> op_id ` set (db_operations d)
     \<and> vf_valid_from v \<le> now \<and> now < vf_expires v
     \<and> (cm_payer (vf_command v), vf_nonce v) \<notin> signer_nonce ` set (db_operations d)
     \<and> length (db_operations d) < MAX_OPERATIONS
     \<and> (is_reserve (cm_action (vf_command v)) \<longrightarrow>
          length (db_operations d) + pending_count d + 2 \<le> MAX_OPERATIONS)"

lemma new_row_admissible:
  assumes "wire_env_ok env" "verify_mode env bs ledger m = Inr v" "fresh_command d v now"
  shows "admissible (new_row env d bs v i s) d"
proof -
  obtain e b where "well_formed_command (vf_command v)" "length (vf_nonce v) = 32"
    using assms(2) by (rule verify_mode_authentic)
  then show ?thesis
    using assms verified_bytes [OF assms(1,2)]
    by (cases s) (auto simp: admissible_def new_row_def fresh_command_def wire_env_ok_def signer_nonce_def
        well_formed_command_def state_number_def)
qed

lemma insert_operation_record:
  assumes "ledger_ok (record_operation o' d1)" "1 \<le> length (op_signed o')" "length (op_signed o') \<le> 4096"
  shows "insert_operation o' d1 = Inr (record_operation o' d1)"
proof -
  let ?ops = "db_operations d1 @ [o']"
  from assms(1) have seq: "map op_sequence ?ops = [1..<Suc (length ?ops)]"
    and dist: "distinct (map op_id ?ops)" "distinct (map signer_nonce ?ops)"
    and row: "length (op_id o') = 32" "op_signer o' \<in> owners d1" "length (op_nonce o') = 32"
      "length (op_hash o') = 32" "op_reservation o' \<in> rv_id ` set (db_reservations d1)"
      "op_state o' \<in> {1, 2, 3}"
    and len: "length ?ops \<le> MAX_OPERATIONS"
    by (auto simp: ledger_ok_def operations_ok_def accounting_ok_def)
  from seq have "distinct (map op_sequence ?ops)" by (metis distinct_upt)
  moreover from seq have "op_sequence o' = Suc (length (db_operations d1))"
    by (simp del: upt_Suc add: upt_Suc_append)
  ultimately show ?thesis
    using dist row len assms(2,3)
    by (auto simp: insert_operation_def record_operation_def sql_int_def signer_nonce_def owners_def
        image_iff MAX_OPERATIONS_def MAX_UNITS_def)
qed

lemma apply_command_fresh:
  assumes ok: "ledger_ok d" and env: "wire_env_ok env"
    and v: "verify_mode env bs ledger m = Inr v" and fresh: "fresh_command d v now"
  shows "apply_command env d ledger m bs now =
    (case transition d (vf_command v) of Inl e \<Rightarrow> Inl e
     | Inr (i, s, d1) \<Rightarrow> Inr (receipt_row ledger (new_row env d bs v i s),
                            record_operation (new_row env d bs v i s) d1))"
proof -
  let ?c = "vf_command v"
  have wf: "well_formed_command ?c" using v by (rule verify_mode_authentic)
  from fresh obtain a where a: "find_row ac_owner (cm_payer ?c) (db_accounts d) = Some a"
    by (auto simp: fresh_command_def dest: owner_found)
  from fresh have none: "find_row op_id (cm_operation_id ?c) (db_operations d) = None"
    by (simp add: fresh_command_def find_row_None)
  have ins: "insert_operation (new_row env d bs v i s) d1 = Inr (record_operation (new_row env d bs v i s) d1)
      \<and> validate_accounting (record_operation (new_row env d bs v i s) d1) = Inr ()"
    if tr: "transition d ?c = Inr (i, s, d1)" for i s d1
  proof -
    note adm = new_row_admissible [OF env v fresh]
    have "ledger_ok (record_operation (new_row env d bs v i s) d1)"
      by (rule transition_record(1) [OF ok wf tr adm])
        (use fresh in \<open>simp_all add: new_row_def fresh_command_def\<close>)
    with verified_bytes [OF env v] show ?thesis
      by (auto intro!: insert_operation_record validate_accounting_ok simp: new_row_def ledger_ok_def)
  qed
  have nonce: "(cm_payer ?c, vf_nonce v) \<notin> (\<lambda>o'. (op_signer o', op_nonce o')) ` set (db_operations d)"
    using fresh by (simp add: fresh_command_def signer_nonce_def image_iff)
  have "MAX_OPERATIONS \<le> u64_max" by (simp add: MAX_OPERATIONS_def u64_max_def)
  then have cap: "\<not> (is_reserve (cm_action ?c) \<and> is_none_or (\<lambda>n. n > MAX_OPERATIONS)
      (Option.bind (checked_add_u64 (length (db_operations d)) (pending_count d))
        (\<lambda>n. checked_add_u64 n 2)))"
    using fresh by (auto simp: fresh_command_def checked_add_u64_def)
  have live: "\<not> (now < vf_valid_from v \<or> now \<ge> vf_expires v)" "\<not> length (db_operations d) \<ge> MAX_OPERATIONS"
    using fresh by (simp_all add: fresh_command_def)
  show ?thesis
    unfolding apply_command_def v receipt_of_ok [OF ok] none account_def a Let_def
      rbind_simps ok_or_simps option.map option.case if_not_P [OF nonce] if_not_P [OF cap]
      if_not_P [OF live(1)] if_not_P [OF live(2)]
    using ins by (auto simp: new_row_def receipt_row_def split: sum.splits)
qed

lemma apply_command_recorded:
  assumes ok: "ledger_ok d" and v: "verify_mode env bs ledger m = Inr v"
    and a: "cm_payer (vf_command v) \<in> owners d"
    and row: "find_row op_id (cm_operation_id (vf_command v)) (db_operations d) = Some row"
  shows "apply_command env d ledger m bs now =
    (if op_signed row = bs then Inr (receipt_row ledger row, d) else Inl Tx_Conflict)"
  using owner_found [OF a] v row
  by (auto simp: apply_command_def receipt_of_ok [OF ok] account_def Let_def)

lemma apply_command_refused:
  assumes ok: "ledger_ok d" and v: "verify_mode env bs ledger m = Inr v"
    and fresh: "cm_operation_id (vf_command v) \<notin> op_id ` set (db_operations d)"
    and a: "cm_payer (vf_command v) \<in> owners d"
    and n: "\<not> fresh_command d v now"
  shows "apply_command env d ledger m bs now \<in> Inl ` {Tx_NotLive, Tx_Replay, Tx_Capacity}"
proof -
  let ?c = "vf_command v"
  from fresh have none: "find_row op_id (cm_operation_id ?c) (db_operations d) = None"
    by (simp add: find_row_None)
  let ?nonce = "(cm_payer ?c, vf_nonce v) \<in> (\<lambda>o'. (op_signer o', op_nonce o')) ` set (db_operations d)"
  let ?cap = "is_reserve (cm_action ?c) \<and> is_none_or (\<lambda>n. n > MAX_OPERATIONS)
      (Option.bind (checked_add_u64 (length (db_operations d)) (pending_count d))
        (\<lambda>n. checked_add_u64 n 2))"
  have "?nonce \<longleftrightarrow> (cm_payer ?c, vf_nonce v) \<in> signer_nonce ` set (db_operations d)"
    by (simp add: signer_nonce_def image_iff)
  moreover have "?cap" if "is_reserve (cm_action ?c)"
      "\<not> length (db_operations d) + pending_count d + 2 \<le> MAX_OPERATIONS"
    using that by (auto simp: checked_add_u64_def)
  ultimately consider "now < vf_valid_from v \<or> now \<ge> vf_expires v" | ?nonce
    | "length (db_operations d) \<ge> MAX_OPERATIONS" | ?cap
    using n fresh a by (auto simp: fresh_command_def)
  then show ?thesis
    using owner_found [OF a] v none
    by cases (auto simp: apply_command_def receipt_of_ok [OF ok] account_def Let_def)
qed

lemma apply_command_cases:
  assumes ok: "ledger_ok d" and env: "wire_env_ok env"
  obtains
    (rejected) e where "apply_command env d ledger m bs now = Inl e" "e \<in> rejections"
  | (replayed) v row where "verify_mode env bs ledger m = Inr v"
      "find_row op_id (cm_operation_id (vf_command v)) (db_operations d) = Some row"
      "op_signed row = bs" "apply_command env d ledger m bs now = Inr (receipt_row ledger row, d)"
  | (applied) v i s d1 where "verify_mode env bs ledger m = Inr v" "fresh_command d v now"
      "well_formed_command (vf_command v)" "transition d (vf_command v) = Inr (i, s, d1)"
      "apply_command env d ledger m bs now = Inr (receipt_row ledger (new_row env d bs v i s),
         record_operation (new_row env d bs v i s) d1)"
proof (cases "verify_mode env bs ledger m")
  case (Inl e)
  with verify_mode_errors [OF Inl] show thesis
    by (intro rejected [of e]) (simp_all add: apply_command_def rejections_def)
next
  case (Inr v)
  have wf: "well_formed_command (vf_command v)" using Inr by (rule verify_mode_authentic)
  consider "cm_payer (vf_command v) \<notin> owners d"
    | row where "cm_payer (vf_command v) \<in> owners d"
        "find_row op_id (cm_operation_id (vf_command v)) (db_operations d) = Some row"
    | "cm_payer (vf_command v) \<in> owners d" "\<not> fresh_command d v now"
        "cm_operation_id (vf_command v) \<notin> op_id ` set (db_operations d)"
    | "fresh_command d v now" "cm_operation_id (vf_command v) \<notin> op_id ` set (db_operations d)"
    by (cases "find_row op_id (cm_operation_id (vf_command v)) (db_operations d)")
      (auto simp: find_row_None)
  then show thesis
  proof cases
    case 1
    then have "account d (cm_payer (vf_command v)) = Inl Tx_NotFound" by (simp add: account_Inl)
    with Inr show thesis by (intro rejected [of Tx_NotFound]) (simp_all add: apply_command_def rejections_def Let_def)
  next
    case 2
    show thesis
    proof (cases "op_signed row = bs")
      case True
      with 2 Inr apply_command_recorded [OF ok Inr 2] show thesis by (intro replayed) simp_all
    next
      case False
      with apply_command_recorded [OF ok Inr 2] show thesis
        by (intro rejected [of Tx_Conflict]) (simp_all add: rejections_def)
    qed
  next
    case 3
    obtain e where "apply_command env d ledger m bs now = Inl e" "e \<in> {Tx_NotLive, Tx_Replay, Tx_Capacity}"
      using apply_command_refused [OF ok Inr 3(3,1,2)] by (elim imageE)
    then show thesis by (intro rejected [of e]) (auto simp: rejections_def)
  next
    case 4
    show thesis
    proof (cases "transition d (vf_command v)")
      case (Inl e)
      with apply_command_fresh [OF ok env Inr 4(1)] transition_errors [OF ok wf 4(2) Inl]
      show thesis by (intro rejected [of e]) (auto simp: rejections_def wire_errors_def)
    next
      case t: (Inr t)
      obtain i s d1 where "t = (i, s, d1)" by (cases t)
      with t apply_command_fresh [OF ok env Inr 4(1)] Inr 4 wf show thesis by (intro applied) simp_all
    qed
  qed
qed

lemma applied_ok:
  assumes ok: "ledger_ok d" and env: "wire_env_ok env"
    and ap: "verify_mode env bs ledger m = Inr v" "fresh_command d v now"
      "well_formed_command (vf_command v)" "transition d (vf_command v) = Inr (i, s, d1)"
  shows "ledger_ok (record_operation (new_row env d bs v i s) d1)"
    "db_supply d1 = db_supply d" "db_operations d1 = db_operations d" "owners d1 = owners d"
  using transition_record [OF ok ap(3,4) new_row_admissible [OF env ap(1,2)]] ap(2)
  by (simp_all add: new_row_def fresh_command_def)

section \<open>Sequences of commands\<close>

text \<open>One request against the open database: an error leaves the database as it was.\<close>

definition apply_step ::
  "wire_env \<Rightarrow> ledger_id \<Rightarrow> mode \<Rightarrow> bytes \<times> nat \<Rightarrow> db \<Rightarrow> (tx_error + receipt) \<times> db" where
  "apply_step env ledger m q d =
     (case apply_command env d ledger m (fst q) (snd q) of
        Inl e \<Rightarrow> (Inl e, d) | Inr (r, d') \<Rightarrow> (Inr r, d'))"

text \<open>
  Every reservation is settled by at most one recorded operation: none while it is pending, exactly
  one once it is committed or cancelled.
\<close>

definition settlements :: "db \<Rightarrow> operation_id \<Rightarrow> operation_row list" where
  "settlements d i = filter (\<lambda>o'. op_reservation o' = i \<and> op_state o' \<noteq> 1) (db_operations d)"

definition settled_once :: "db \<Rightarrow> bool" where
  "settled_once d \<longleftrightarrow> (\<forall>r \<in> set (db_reservations d).
     map op_state (settlements d (rv_id r)) = (if rv_state r = 1 then [] else [rv_state r]))"

lemma settlements_record:
  "settlements (record_operation o' d) i =
     settlements d i @ (if op_reservation o' = i \<and> op_state o' \<noteq> 1 then [o'] else [])"
  by (simp add: settlements_def)

lemma settlements_effect [simp]:
  "settlements (reserve_effect d j a r n) i = settlements d i"
  "settlements (complete_effect d a b row s) i = settlements d i"
  by (simp_all add: settlements_def)

lemma reserve_effect_reservations:
  "db_reservations (reserve_effect d i a r n) = db_reservations d @
     [\<lparr>rv_id = i, rv_payer = ac_owner a, rv_recipient = r, rv_units = n, rv_state = 1\<rparr>]"
  by (simp add: effect_defs)

lemma complete_effect_reservations:
  "db_reservations (complete_effect d a b row s) =
     upd_rows rv_id (rv_id row) (\<lambda>r. r\<lparr>rv_state := s\<rparr>) (db_reservations d)"
  by (simp add: effect_defs)

lemma settlements_fresh:
  assumes "ledger_ok d" "i \<notin> rv_id ` set (db_reservations d)"
  shows "settlements d i = []"
  using assms by (auto simp: settlements_def filter_empty_conv ledger_ok_def operations_ok_def)

lemma settled_once_applied:
  assumes ok: "ledger_ok d" and st: "settled_once d" and fresh: "fresh_command d v now"
    and wf: "well_formed_command (vf_command v)" and tr: "transition d (vf_command v) = Inr (i, s, d1)"
  shows "settled_once (record_operation (new_row env d bs v i s) d1)"
proof -
  from fresh have f: "cm_operation_id (vf_command v) \<notin> op_id ` set (db_operations d)"
    by (simp add: fresh_command_def)
  have rok: "reservations_ok d" using ok by (simp add: ledger_ok_def)
  from ok wf f tr show ?thesis
  proof (cases rule: transition_cases)
    case (reserve a r n)
    with f rok have "i \<notin> rv_id ` set (db_reservations d)" by (auto simp: reservations_ok_def)
    with settlements_fresh [OF ok this] st reserve show ?thesis
      by (auto simp: settled_once_def settlements_record new_row_def state_number_def reserve_effect_reservations)
  next
    case (complete a b row commit)
    note fr = find_row_SomeD [OF complete(2)]
    from st fr complete have e: "settlements d i = []" by (auto simp: settled_once_def)
    show ?thesis
      unfolding settled_once_def
    proof
      fix x assume "x \<in> set (db_reservations (record_operation (new_row env d bs v i s) d1))"
      then obtain x0 where x0: "x0 \<in> set (db_reservations d)"
        and x: "x = (if rv_id x0 = i then x0\<lparr>rv_state := state_number s\<rparr> else x0)"
        using complete(9) fr by (auto simp: effect_defs dest!: set_upd_rows)
      show "map op_state (settlements (record_operation (new_row env d bs v i s) d1) (rv_id x)) =
        (if rv_state x = 1 then [] else [rv_state x])"
        using x0 x st e complete(8,9)
        by (auto simp: settlements_record new_row_def settled_once_def state_number_def)
    qed
  qed
qed

text \<open>Recorded operations are never changed or removed, and settled reservations never change.\<close>

definition extends :: "db \<Rightarrow> db \<Rightarrow> bool" where
  "extends d d' \<longleftrightarrow>
     (\<exists>new. db_operations d' = db_operations d @ new)
     \<and> owners d' = owners d \<and> db_meta d' = db_meta d
     \<and> db_application_id d' = db_application_id d \<and> db_user_version d' = db_user_version d
     \<and> (\<forall>i r. find_row rv_id i (db_reservations d) = Some r \<longrightarrow>
          (\<exists>r'. find_row rv_id i (db_reservations d') = Some r' \<and> rv_payer r' = rv_payer r
             \<and> rv_recipient r' = rv_recipient r \<and> rv_units r' = rv_units r
             \<and> (rv_state r \<noteq> 1 \<longrightarrow> r' = r)))"

lemma extends_refl [simp]: "extends d d"
  by (simp add: extends_def)

lemma extends_trans:
  assumes 1: "extends a b" and 2: "extends b c"
  shows "extends a c"
proof -
  have "\<exists>r'. find_row rv_id i (db_reservations c) = Some r' \<and> rv_payer r' = rv_payer r
      \<and> rv_recipient r' = rv_recipient r \<and> rv_units r' = rv_units r \<and> (rv_state r \<noteq> 1 \<longrightarrow> r' = r)"
    if r: "find_row rv_id i (db_reservations a) = Some r" for i r
  proof -
    from 1 r obtain r1 where r1: "find_row rv_id i (db_reservations b) = Some r1"
      "rv_payer r1 = rv_payer r" "rv_recipient r1 = rv_recipient r" "rv_units r1 = rv_units r"
      "rv_state r \<noteq> 1 \<longrightarrow> r1 = r" unfolding extends_def by blast
    from 2 r1(1) obtain r2 where "find_row rv_id i (db_reservations c) = Some r2"
      "rv_payer r2 = rv_payer r1" "rv_recipient r2 = rv_recipient r1" "rv_units r2 = rv_units r1"
      "rv_state r1 \<noteq> 1 \<longrightarrow> r2 = r1" unfolding extends_def by blast
    with r1 show ?thesis by auto
  qed
  with 1 2 show ?thesis unfolding extends_def by auto
qed

lemma extends_applied:
  assumes ok: "ledger_ok d" and fresh: "fresh_command d v now"
    and wf: "well_formed_command (vf_command v)" and tr: "transition d (vf_command v) = Inr (i, s, d1)"
  shows "extends d (record_operation o' d1)"
proof -
  from fresh have f: "cm_operation_id (vf_command v) \<notin> op_id ` set (db_operations d)"
    by (simp add: fresh_command_def)
  from ok wf f tr show ?thesis
  proof (cases rule: transition_cases)
    case (reserve a r n)
    then show ?thesis by (auto simp: extends_def effect_defs record_operation_def find_row_append owners_def image_key_upd_rows)
  next
    case (complete a b row commit)
    have "rv_id row = i" using find_row_SomeD [OF complete(2)] by simp
    with complete show ?thesis
      by (auto simp: extends_def effect_defs record_operation_def find_row_upd_rows owners_def image_key_upd_rows)
  qed
qed

lemma apply_step_invariant:
  assumes "wire_env_ok env" "ledger_ok d" "settled_once d"
  shows "ledger_ok (snd (apply_step env ledger m q d)) \<and> settled_once (snd (apply_step env ledger m q d))
    \<and> extends d (snd (apply_step env ledger m q d))"
  using assms(2,1)
proof (cases rule: apply_command_cases [where ledger = ledger and m = m and bs = "fst q" and now = "snd q"])
  case (applied v i s d1)
  with applied_ok [OF assms(2,1) applied(1-4)] settled_once_applied [OF assms(2,3) applied(2-4)]
    extends_applied [OF assms(2) applied(2-4)]
  show ?thesis by (simp add: apply_step_def)
qed (use assms in \<open>simp_all add: apply_step_def\<close>)

definition db_ok :: "wire_env \<Rightarrow> db \<Rightarrow> bool" where
  "db_ok env d \<longleftrightarrow> wire_env_ok env \<and> ledger_ok d \<and> settled_once d"

interpretation ledger_steps: transactional_component "apply_step env ledger m" "db_ok env"
  for env ledger m
proof
  fix i s e
  show "fst (apply_step env ledger m i s) = Inl e \<Longrightarrow> snd (apply_step env ledger m i s) = s"
    by (auto simp: apply_step_def split: sum.splits)
next
  fix i s r
  show "db_ok env s \<Longrightarrow> db_ok env (snd (apply_step env ledger m i s))"
    using apply_step_invariant [of env s ledger m i] by (simp add: db_ok_def)
qed

lemma run_extends:
  assumes "db_ok env d"
  shows "extends d (run_ops (apply_step env ledger m) qs d)"
  using assms
proof (rule ledger_steps.run_preserves)
  fix q s assume "db_ok env s" "extends d s"
  then show "extends d (snd (apply_step env ledger m q s))"
    using apply_step_invariant [of env s ledger m q] extends_trans by (auto simp: db_ok_def)
qed simp

section \<open>Properties of the ledger\<close>

lemma demo_env_ok: "wire_env_ok (demo_env m)"
  by (simp add: wire_env_ok_def demo_env_def demo_id_def table_codec_def)

lemma demo_ids_distinct [simp]: "demo_id a = demo_id b \<longleftrightarrow> a = b" "length (demo_id a) = 32"
  by (simp_all add: demo_id_def)

lemma demo_db_ok: "ledger_ok demo_db" "settled_once demo_db"
  by (simp_all add: ledger_ok_defs demo_db_def schema_def owners_def db_supply_def total_available_def
      total_reserved_def pending_units_def pending_count_def MAX_ACCOUNTS_def MAX_UNITS_def
      MAX_OPERATIONS_def settled_once_def find_row_def)

lemma demo_db1_ok: "ledger_ok demo_db1" "settled_once demo_db1"
  by (simp_all add: ledger_ok_defs demo_db1_def demo_db_def schema_def owners_def db_supply_def
      total_available_def total_reserved_def pending_units_def pending_count_def MAX_ACCOUNTS_def
      MAX_UNITS_def MAX_OPERATIONS_def settled_once_def settlements_def find_row_def)

text \<open>
  Claim C15. Conservation of units. A command applied to a ledger that keeps the invariant gives a
  ledger that keeps it again: the sum of available and reserved units is the recorded supply, each
  account's reserved units are the sum of its pending reservations, the operation log is a gapless
  sequence, and the room for completing every pending reservation is kept. The total of all units and
  the set of accounts do not change.
\<close>

theorem apply_command_conserves:
  assumes "ledger_ok d" and "wire_env_ok env"
    and "apply_command env d ledger m bs now = Inr (r, d')"
  shows "ledger_ok d'
    \<and> total_available d' + total_reserved d' = total_available d + total_reserved d
    \<and> owners d' = owners d"
proof -
  have "ledger_ok d' \<and> db_supply d' = db_supply d \<and> owners d' = owners d"
    using assms(1,2)
  proof (cases rule: apply_command_cases [where ledger = ledger and m = m and bs = bs and now = now])
    case (applied v i s d1)
    from assms(3) applied(5) have "d' = record_operation (new_row env d bs v i s) d1" by simp
    with applied_ok [OF assms(1,2) applied(1-4)] show ?thesis by simp
  qed (use assms in simp_all)
  with assms(1) show ?thesis by (simp add: ledger_ok_def accounting_ok_def)
qed

theorem apply_command_conserves_witness:
  "ledger_ok demo_db1 \<and> total_available demo_db1 + total_reserved demo_db1 = 150"
  using apply_command_conserves [OF demo_db_ok(1) demo_env_ok demo_reserve_applied]
  by (simp add: total_available_def total_reserved_def demo_db_def)

text \<open>
  Claim C6. No internal failure. On a ledger that keeps the invariant, a command can only be refused
  with one of the documented rejections: a malformed, foreign or badly signed message, an unknown
  account or reservation, a conflicting, replayed or not live command, exhausted capacity,
  insufficient units or a reservation that is already settled. The store and database errors, that
  is a constraint violation, an arithmetic overflow or the accounting check at the end, never fire.
\<close>

theorem apply_command_rejections:
  assumes "ledger_ok d" and "wire_env_ok env"
    and "apply_command env d ledger m bs now = Inl e"
  shows "e \<in> rejections \<and> e \<notin> {Tx_Store, Tx_Database, Tx_Busy, Tx_Io}"
  using assms(1,2)
proof (cases rule: apply_command_cases [where ledger = ledger and m = m and bs = bs and now = now])
  case (rejected f)
  with assms(3) show ?thesis by (auto simp: rejections_def wire_errors_def)
qed (use assms in simp_all)

lemma demo_commit_expired:
  "apply_command (demo_env Local) demo_db1 (demo_id 9) Local demo_commit 200 = Inl Tx_NotLive"
  by code_simp

theorem apply_command_rejections_witness: "Tx_NotLive \<in> rejections"
  using apply_command_rejections [OF demo_db1_ok(1) demo_env_ok demo_commit_expired] by simp

lemma apply_command_accepted:
  assumes ok: "ledger_ok d" and env: "wire_env_ok env"
    and ap: "apply_command env d ledger m bs now = Inr (r, d1)"
  shows "\<exists>v row. verify_mode env bs ledger m = Inr v \<and> cm_payer (vf_command v) \<in> owners d1
    \<and> find_row op_id (cm_operation_id (vf_command v)) (db_operations d1) = Some row
    \<and> op_signed row = bs \<and> r = receipt_row ledger row"
  using ok env
proof (cases rule: apply_command_cases [where ledger = ledger and m = m and bs = bs and now = now])
  case (replayed v row)
  with ap have "\<exists>b. account d (cm_payer (vf_command v)) = Inr b"
    by (auto simp: apply_command_def Let_def rbind_Inr_conv)
  then have "cm_payer (vf_command v) \<in> owners d" by (auto simp: account_Inr dest: find_account)
  with replayed ap show ?thesis by auto
next
  case (applied v i s d0)
  let ?row = "new_row env d bs v i s"
  from applied(2) have "find_row op_id (cm_operation_id (vf_command v)) (db_operations d) = None"
    by (simp add: fresh_command_def find_row_None)
  moreover have "find_row op_id (cm_operation_id (vf_command v)) [?row] = Some ?row"
    by (simp add: find_row_def new_row_def)
  moreover from ap applied(5) have "r = receipt_row ledger ?row" "d1 = record_operation ?row d0" by simp_all
  ultimately show ?thesis
    using applied(1,2) applied_ok(3,4) [OF ok env applied(1-4)]
    by (intro exI [of _ v] exI [of _ ?row]) (auto simp: find_row_append fresh_command_def new_row_def)
qed (use ap in simp)

text \<open>
  Claim C5. Idempotent replay. Once a command has been accepted, submitting the same bytes again
  gives the same receipt and leaves the database alone, at any clock reading and after any number of
  other requests, accepted or not.
\<close>

theorem apply_command_replay:
  assumes "db_ok env d"
    and "apply_command env d ledger m bs now = Inr (r, d1)"
    and "d2 = run_ops (apply_step env ledger m) qs d1"
  shows "apply_command env d2 ledger m bs later = Inr (r, d2)"
proof -
  from assms(1) have ok: "ledger_ok d" and env: "wire_env_ok env" by (simp_all add: db_ok_def)
  have st1: "snd (apply_step env ledger m (bs, now) d) = d1"
    using assms(2) by (simp add: apply_step_def)
  have ok1: "db_ok env d1" using ledger_steps.op_inv [OF assms(1), of ledger m "(bs, now)"] st1 by simp
  then have ok2: "ledger_ok d2" unfolding assms(3)
    using ledger_steps.run_inv by (simp add: db_ok_def)
  from ok1 have ex: "extends d1 d2" unfolding assms(3) by (rule run_extends)
  note apply_command_accepted [OF ok env assms(2)]
  then obtain v row where v: "verify_mode env bs ledger m = Inr v"
    and o1: "cm_payer (vf_command v) \<in> owners d1"
    and row: "find_row op_id (cm_operation_id (vf_command v)) (db_operations d1) = Some row"
      "op_signed row = bs" "r = receipt_row ledger row" by blast
  from ex o1 row(1) have "cm_payer (vf_command v) \<in> owners d2"
    "find_row op_id (cm_operation_id (vf_command v)) (db_operations d2) = Some row"
    by (auto simp: extends_def find_row_append)
  from apply_command_recorded [OF ok2 v this] row show ?thesis by simp
qed

theorem apply_command_replay_witness:
  "apply_command (demo_env Local)
     (run_ops (apply_step (demo_env Local) (demo_id 9) Local) [(demo_commit, 150), (demo_cancel, 160)] demo_db1)
     (demo_id 9) Local demo_reserve 999 =
   Inr (demo_receipt 3 1 Reserved,
     run_ops (apply_step (demo_env Local) (demo_id 9) Local) [(demo_commit, 150), (demo_cancel, 160)] demo_db1)"
  by (rule apply_command_replay [OF _ demo_reserve_applied refl])
    (simp add: db_ok_def demo_db_ok demo_env_ok)

text \<open>
  Claim C19. Settlement is final. Once a reservation is committed or cancelled, no later request
  changes it: its row stays as it is, and the log keeps exactly one operation that settled it.
\<close>

theorem settled_reservation_final:
  assumes "db_ok env d"
    and "find_row rv_id i (db_reservations d) = Some row" and "rv_state row \<noteq> 1"
    and "d' = run_ops (apply_step env ledger m) qs d"
  shows "find_row rv_id i (db_reservations d') = Some row
    \<and> map op_state (settlements d' i) = [rv_state row]"
proof -
  have "extends d d'" unfolding assms(4) using assms(1) by (rule run_extends)
  with assms(2,3) have row: "find_row rv_id i (db_reservations d') = Some row"
    by (auto simp: extends_def)
  have "db_ok env d'" unfolding assms(4) using assms(1) by (rule ledger_steps.run_inv)
  with find_row_SomeD [OF row] assms(3) have "map op_state (settlements d' i) = [rv_state row]"
    by (auto simp: db_ok_def settled_once_def)
  with row show ?thesis by simp
qed

definition demo_db2 :: db where
  "demo_db2 = snd (apply_step (demo_env Local) (demo_id 9) Local (demo_commit, 150) demo_db1)"

lemma demo_db2_settled:
  "find_row rv_id (demo_id 3) (db_reservations demo_db2) =
     Some \<lparr>rv_id = demo_id 3, rv_payer = demo_id 1, rv_recipient = demo_id 2, rv_units = 30, rv_state = 2\<rparr>"
  by code_simp

lemma demo_db2_ok: "db_ok (demo_env Local) demo_db2"
  unfolding demo_db2_def
  by (rule ledger_steps.op_inv) (simp add: db_ok_def demo_db1_ok demo_env_ok)

theorem settled_reservation_final_witness:
  "map op_state (settlements (run_ops (apply_step (demo_env Local) (demo_id 9) Local)
     [(demo_cancel, 160), (demo_commit, 160)] demo_db2) (demo_id 3)) = [2]"
  using settled_reservation_final [OF demo_db2_ok demo_db2_settled _ refl,
    of "demo_id 9" Local "[(demo_cancel, 160), (demo_commit, 160)]"] by simp

text \<open>
  Claim C20. Only its own signature spends an account. If an accepted request lowers the available
  units of an account, the request carries an authentic envelope of that account's key, live at that
  time, that reserves exactly the missing units.
\<close>

theorem available_only_spent_by_owner:
  assumes "ledger_ok d" and "wire_env_ok env"
    and "apply_command env d ledger m bs now = Inr (r, d')"
    and "find_row ac_owner k (db_accounts d) = Some a"
    and "find_row ac_owner k (db_accounts d') = Some a'"
    and "ac_available a' < ac_available a"
  shows "\<exists>e b. authentic env bs ledger m e b \<and> bd_payer b = k \<and> bd_kind b = 1
    \<and> ac_available a' + bd_units b = ac_available a
    \<and> ev_valid_from e \<le> now \<and> now < ev_expires e"
  using assms(1,2)
proof (cases rule: apply_command_cases [where ledger = ledger and m = m and bs = bs and now = now])
  case (replayed v row)
  with assms(3-6) show ?thesis by simp
next
  case (applied v i s d1)
  from assms(3) applied(5) have acc: "db_accounts d' = db_accounts d1" by auto
  from applied(2) have f: "cm_operation_id (vf_command v) \<notin> op_id ` set (db_operations d)"
    and live: "vf_valid_from v \<le> now" "now < vf_expires v" by (simp_all add: fresh_command_def)
  from assms(1) applied(3) f applied(4) show ?thesis
  proof (cases rule: transition_cases)
    case (reserve x q n)
    note fx = find_account [OF reserve(2)]
    obtain e b where au: "authentic env bs ledger m e b"
      and c: "vf_command v = \<lparr>cm_operation_id = bd_operation b, cm_payer = bd_payer b,
           cm_action = cm_action (vf_command v)\<rparr>"
      and fl: "action_fields (cm_action (vf_command v)) = (bd_kind b, bd_target b, bd_units b)"
      and t: "vf_valid_from v = ev_valid_from e" "vf_expires v = ev_expires e"
      using applied(1) by (rule verify_mode_authentic)
    from c have p: "cm_payer (vf_command v) = bd_payer b" by (metis command.select_convs(2))
    from fl reserve(1) have "bd_kind b = 1" "bd_units b = n" by (simp_all add: action_fields_def)
    moreover from acc reserve(8) assms(4-6) fx reserve(2) have "cm_payer (vf_command v) = k"
      by (auto simp: effect_defs find_row_upd_rows split: if_splits)
    moreover with acc reserve(8) assms(4-6) fx reserve(2,5)
    have "ac_available a' + n = ac_available a"
      by (auto simp: effect_defs find_row_upd_rows)
    ultimately show ?thesis using au p t live by auto
  next
    case (complete x y row commit)
    note fx = find_account [OF complete(6)] and fy = find_account [OF complete(7)]
    have "ac_available a' \<ge> ac_available a"
      using acc complete(6,7,9) assms(4,5) fx(2) fy(2)
      by (auto simp: effect_defs find_row_upd_rows split: if_splits)
    with assms(6) show ?thesis by simp
  qed
qed (use assms(3) in simp)

theorem available_only_spent_by_owner_witness:
  "\<exists>e b. authentic (demo_env Local) demo_reserve (demo_id 9) Local e b \<and> bd_payer b = demo_id 1 \<and> bd_units b = 30"
proof -
  have "find_row ac_owner (demo_id 1) (db_accounts demo_db) = Some \<lparr>ac_owner = demo_id 1, ac_available = 100, ac_reserved = 0\<rparr>"
    "find_row ac_owner (demo_id 1) (db_accounts demo_db1) = Some \<lparr>ac_owner = demo_id 1, ac_available = 70, ac_reserved = 30\<rparr>"
    by (simp_all add: demo_db_def demo_db1_def)
  from available_only_spent_by_owner [OF demo_db_ok(1) demo_env_ok demo_reserve_applied this]
  show ?thesis by auto
qed

text \<open>
  Claim C21. A pending reservation can always be completed. Whatever the load, a live, authentic commit
  or cancellation by its payer, with an operation id and a nonce not used before, is accepted: the
  capacity check always leaves room for one completing operation per pending reservation.
\<close>

theorem pending_reservation_completes:
  assumes "ledger_ok d" and "wire_env_ok env"
    and "verify_mode env bs ledger m = Inr v"
    and "cm_action (vf_command v) = (if commit then Commit i else Cancel i)"
    and "find_row rv_id i (db_reservations d) = Some row"
    and "rv_state row = 1" and "rv_payer row = cm_payer (vf_command v)"
    and "vf_valid_from v \<le> now" and "now < vf_expires v"
    and "cm_operation_id (vf_command v) \<notin> op_id ` set (db_operations d)"
    and "(cm_payer (vf_command v), vf_nonce v) \<notin> signer_nonce ` set (db_operations d)"
  shows "\<exists>r d'. apply_command env d ledger m bs now = Inr (r, d') \<and> rc_reservation_id r = i
    \<and> rc_state r = (if commit then Committed else Cancelled)"
proof -
  from assms(1) have acc: "accounting_ok d" and rok: "reservations_ok d" by (simp_all add: ledger_ok_def)
  note fr = find_row_SomeD [OF assms(5)]
  from fr assms(6) have "filter (\<lambda>r. rv_state r = 1) (db_reservations d) \<noteq> []"
    by (auto simp: filter_empty_conv)
  then have "0 < pending_count d" by (simp add: pending_count_def)
  with acc have "length (db_operations d) < MAX_OPERATIONS" by (simp add: accounting_ok_def)
  moreover from rok fr assms(7) have "cm_payer (vf_command v) \<in> owners d"
    by (auto simp: reservations_ok_def)
  ultimately have "fresh_command d v now"
    using assms(4,8-11) by (simp add: fresh_command_def is_reserve_def split: action.splits)
  moreover obtain a b where "complete_transition d (cm_payer (vf_command v)) i commit =
        Inr (i, if commit then Committed else Cancelled,
             complete_effect d a b row (state_number (if commit then Committed else Cancelled)))"
    by (rule complete_transition_effect [OF assms(1,5,7,6), where commit = commit])
  with assms(4) have "\<exists>d1. transition d (vf_command v) =
      Inr (i, if commit then Committed else Cancelled, d1)"
    by (cases commit) (auto simp: transition_def)
  ultimately show ?thesis
    by (auto simp: apply_command_fresh [OF assms(1-3)] receipt_row_def new_row_def)
qed

theorem pending_reservation_completes_witness:
  "\<exists>r d'. apply_command (demo_env Local) demo_db1 (demo_id 9) Local demo_commit 150 = Inr (r, d')
    \<and> rc_reservation_id r = demo_id 3 \<and> rc_state r = Committed"
  using pending_reservation_completes [OF demo_db1_ok(1) demo_env_ok demo_verify(2),
      where commit = True and i = "demo_id 3" and now = 150]
  by (simp add: demo_verified_def demo_db1_def signer_nonce_def)

text \<open>
  Claim C17. Refinement to the abstract ledger. For a new, live command within capacity the executor on
  the SQL tables does what the abstract ledger of balances and reservations does, errors included.
\<close>

theorem apply_command_refines:
  assumes "ledger_ok d" and "wire_env_ok env"
    and "verify_mode env bs ledger m = Inr v" and "fresh_command d v now"
  shows "(case apply_command env d ledger m bs now of Inl e \<Rightarrow> Inl e
      | Inr (r, d') \<Rightarrow> Inr (rc_reservation_id r, rc_state r, abs_ledger d')) =
    spec_transition (abs_ledger d) (vf_command v)"
proof -
  have wf: "well_formed_command (vf_command v)" using assms(3) by (rule verify_mode_authentic)
  have "abs_result (transition d (vf_command v)) = spec_transition (abs_ledger d) (vf_command v)"
    using assms(4) by (intro transition_refines [OF assms(1) wf]) (simp add: fresh_command_def)
  moreover have "abs_ledger (record_operation o' d1) = abs_ledger d1" for o' d1
    by (simp add: abs_ledger_def)
  ultimately show ?thesis
    unfolding apply_command_fresh [OF assms]
    by (auto simp: abs_result_def receipt_row_def new_row_def split: sum.splits)
qed

theorem apply_command_refines_witness:
  "spec_transition (abs_ledger demo_db) (vf_command (demo_verified 3 (Reserve (demo_id 2) 30))) =
     Inr (demo_id 3, Reserved, abs_ledger demo_db1)"
proof -
  have "fresh_command demo_db (demo_verified 3 (Reserve (demo_id 2) 30)) 150"
    by (simp add: fresh_command_def demo_verified_def demo_db_def schema_def owners_def
        MAX_OPERATIONS_def is_reserve_def pending_count_def)
  from apply_command_refines [OF demo_db_ok(1) demo_env_ok demo_verify(1) this] demo_reserve_applied
  show ?thesis by (simp add: demo_receipt_def)
qed

end
