(* ===== verification/Tx_Store.thy ===== *)
theory Tx_Store
  imports Tx_Apply
begin

text \<open>
  The store: a fresh store keeps the invariant, every sequence of requests keeps it with SQLite
  failing at any point, and reopening the database gives the store back.
\<close>

section \<open>Creation\<close>

definition genesis_supply :: "genesis_account list \<Rightarrow> nat" where
  "genesis_supply accounts = sum_list (map ga_units accounts)"

lemma check_genesis_supply:
  assumes "check_genesis env keys units0 accounts = Inr n" "units0 \<le> MAX_UNITS"
  shows "n = units0 + genesis_supply accounts \<and> n \<le> MAX_UNITS"
  using assms
proof (induction accounts arbitrary: keys units0)
  case Nil
  then show ?case by (simp add: genesis_supply_def)
next
  case (Cons a accounts)
  then obtain s where s: "s = units0 + ga_units a" "s \<le> MAX_UNITS"
    and rec: "check_genesis env (insert (ga_owner a) keys) s accounts = Inr n"
    by (auto simp: result_simps split: if_splits)
  from Cons.IH [OF rec s(2)] s show ?case by (simp add: genesis_supply_def)
qed

definition genesis_row :: "genesis_account \<Rightarrow> account_row" where
  "genesis_row a = \<lparr>ac_owner = ga_owner a, ac_available = ga_units a, ac_reserved = 0\<rparr>"

lemma insert_genesis_rows:
  assumes "insert_genesis accounts d = Inr d'" "distinct (map ac_owner (db_accounts d))"
    "\<forall>a \<in> set (db_accounts d). length (ac_owner a) = 32"
  shows "d' = d\<lparr>db_accounts := db_accounts d @ map genesis_row accounts\<rparr>
    \<and> distinct (map ac_owner (db_accounts d')) \<and> (\<forall>a \<in> set (db_accounts d'). length (ac_owner a) = 32)"
  using assms
proof (induction accounts arbitrary: d)
  case (Cons a accounts)
  let ?d = "d\<lparr>db_accounts := db_accounts d @ [genesis_row a]\<rparr>"
  from Cons.prems(1) have rec: "insert_genesis accounts ?d = Inr d'"
    and new: "length (ga_owner a) = 32" "ga_owner a \<notin> ac_owner ` set (db_accounts d)"
    by (auto simp: insert_account_def genesis_row_def result_simps split: if_splits)
  have "distinct (map ac_owner (db_accounts ?d))" "\<forall>a \<in> set (db_accounts ?d). length (ac_owner a) = 32"
    using Cons.prems(2,3) new by (auto simp: genesis_row_def)
  from Cons.IH [OF rec this] show ?case by (intro conjI) (simp, blast, blast)
qed simp

lemma create_mode_ok:
  assumes "create_mode env fs absolute ledger accounts m init = Inr s"
  obtains d where "init d = Inr (st_db s)" "ledger_ok d" "settled_once d"
    "db_supply d = genesis_supply accounts"
    "db_accounts d = map genesis_row accounts" "db_operations d = []" "db_reservations d = []"
    "db_application_id d = app_of m" "db_user_version d = 1"
    "db_meta d = [\<lparr>mt_singleton = 1, mt_ledger = ledger, mt_unit = TEST_UNIT, mt_supply = genesis_supply accounts\<rparr>]"
    "length ledger = 32" "ledger \<noteq> zero32" "st_ledger_id s = ledger" "st_mode s = m"
proof -
  let ?d0 = "schema\<lparr>db_application_id := app_of m, db_user_version := 1\<rparr>"
  let ?meta = "\<lambda>n. \<lparr>mt_singleton = 1, mt_ledger = ledger, mt_unit = TEST_UNIT, mt_supply = n\<rparr>"
  from assms obtain units0 d1 d2 where guard: "ledger \<noteq> zero32" "accounts \<noteq> []" "length accounts \<le> MAX_ACCOUNTS"
    and gen: "check_genesis env {} 0 accounts = Inr units0"
    and d1: "insert_meta (?meta units0) ?d0 = Inr d1"
    and d2: "insert_genesis accounts d1 = Inr d2"
    and ini: "init d2 = Inr (st_db s)" and s: "st_ledger_id s = ledger" "st_mode s = m"
    by (auto simp: create_mode_def result_simps Let_def split: if_splits option.splits)
  have units0: "units0 = genesis_supply accounts" "units0 \<le> MAX_UNITS"
    using check_genesis_supply [OF gen] by simp_all
  from d1 have d1': "d1 = ?d0\<lparr>db_meta := [?meta units0]\<rparr>" "length ledger = 32"
    by (auto simp: insert_meta_def result_simps schema_def split: if_splits)
  have "distinct (map ac_owner (db_accounts d1))" "\<forall>a \<in> set (db_accounts d1). length (ac_owner a) = 32"
    and e1: "db_accounts d1 = []"
    using d1' by (simp_all add: schema_def)
  note ig = insert_genesis_rows [OF d2 this(1,2)]
  have rows: "d2 = d1\<lparr>db_accounts := map genesis_row accounts\<rparr>"
    using ig e1 by simp
  have dist: "distinct (map ac_owner (db_accounts d2))" "\<forall>a \<in> set (db_accounts d2). length (ac_owner a) = 32"
    using ig by blast+
  have tot: "total_available d2 + total_reserved d2 = genesis_supply accounts"
    by (simp add: rows total_available_def total_reserved_def genesis_row_def genesis_supply_def o_def)
  have zero: "ac_reserved a = 0" if "a \<in> set (db_accounts d2)" for a
    using that rows by (auto simp: genesis_row_def)
  have "ledger_ok d2"
    using rows dist d1' guard tot units0 zero
    by (simp add: ledger_ok_defs schema_def db_supply_def pending_units_def pending_count_def)
  moreover have "settled_once d2" using rows d1' by (simp add: settled_once_def schema_def)
  moreover have "db_supply d2 = genesis_supply accounts" using rows d1' units0 by (simp add: db_supply_def)
  ultimately show thesis
    using that [OF ini] rows d1' guard s units0 by (simp add: schema_def)
qed

section \<open>Histories of a store\<close>

record store_request =
  rq_faults :: sqlite_faults
  rq_signed :: bytes
  rq_now :: nat

definition store_step ::
  "wire_env \<Rightarrow> store_request \<Rightarrow> store \<Rightarrow> (tx_error + receipt) \<times> store" where
  "store_step env q s = apply_inner env (rq_faults q) (rq_signed q) (rq_now q) s"

definition store_ok :: "wire_env \<Rightarrow> store \<Rightarrow> bool" where
  "store_ok env s \<longleftrightarrow> db_ok env (st_db s)"

text \<open>A request either leaves the store alone or is the step of the ledger on its database.\<close>

lemma store_step_cases:
  obtains (unchanged) e where "store_step env q s = (Inl e, s)"
  | (stepped) r where "fst (apply_step env (st_ledger_id s) Local (rq_signed q, rq_now q) (st_db s)) = Inr r"
      "store_step env q s = (Inr r,
         s\<lparr>st_db := snd (apply_step env (st_ledger_id s) Local (rq_signed q, rq_now q) (st_db s))\<rparr>)"
proof (cases "st_mode s = Local \<and> sf_begin (rq_faults q) = None \<and> sf_commit (rq_faults q) = None")
  case True
  then show thesis
    by (cases "apply_command env (st_db s) (st_ledger_id s) Local (rq_signed q) (rq_now q)")
      (auto simp: store_step_def apply_inner_def apply_step_def intro: unchanged stepped)
next
  case False
  then have "\<exists>e. store_step env q s = (Inl e, s)"
    by (cases "apply_command env (st_db s) (st_ledger_id s) Local (rq_signed q) (rq_now q)")
      (auto simp: store_step_def apply_inner_def split: option.splits)
  then show thesis using unchanged by blast
qed

interpretation store_steps: transactional_component "store_step env" "store_ok env" for env
proof
  fix q s e
  assume "fst (store_step env q s) = Inl e"
  then show "snd (store_step env q s) = s"
    by (cases rule: store_step_cases [of env q s]) simp_all
next
  fix q s r
  assume "store_ok env s"
  then show "store_ok env (snd (store_step env q s))"
    by (cases rule: store_step_cases [of env q s])
      (simp_all add: store_ok_def ledger_steps.op_inv)
qed

lemma store_run_extends:
  assumes "store_ok env s"
  shows "extends (st_db s) (st_db (run_ops (store_step env) qs s))
    \<and> st_ledger_id (run_ops (store_step env) qs s) = st_ledger_id s
    \<and> st_mode (run_ops (store_step env) qs s) = st_mode s"
  using assms
proof (rule store_steps.run_preserves)
  fix q t
  assume t: "store_ok env t" "extends (st_db s) (st_db t) \<and> st_ledger_id t = st_ledger_id s \<and> st_mode t = st_mode s"
  show "extends (st_db s) (st_db (snd (store_step env q t)))
    \<and> st_ledger_id (snd (store_step env q t)) = st_ledger_id s
    \<and> st_mode (snd (store_step env q t)) = st_mode s"
  proof (cases rule: store_step_cases [of env q t])
    case (stepped r)
    from t(1) have "extends (st_db t) (snd (apply_step env (st_ledger_id t) Local (rq_signed q, rq_now q) (st_db t)))"
      using apply_step_invariant by (simp add: store_ok_def db_ok_def)
    with t(2) extends_trans stepped show ?thesis by auto
  qed (use t in simp)
qed simp

lemma create_store_ok:
  assumes "wire_env_ok env" "create env fs absolute ledger accounts = Inr s"
  shows "store_ok env s" "db_supply (st_db s) = genesis_supply accounts"
    "db_application_id (st_db s) = APP" "db_user_version (st_db s) = 1"
    "db_meta (st_db s) = [\<lparr>mt_singleton = 1, mt_ledger = ledger, mt_unit = TEST_UNIT,
       mt_supply = genesis_supply accounts\<rparr>]"
    "length ledger = 32" "ledger \<noteq> zero32" "st_ledger_id s = ledger" "st_mode s = Local"
proof -
  obtain d where "Inr d = Inr (st_db s)" "ledger_ok d" "settled_once d"
    "db_supply d = genesis_supply accounts" "db_application_id d = app_of Local" "db_user_version d = 1"
    "db_meta d = [\<lparr>mt_singleton = 1, mt_ledger = ledger, mt_unit = TEST_UNIT, mt_supply = genesis_supply accounts\<rparr>]"
    "length ledger = 32" "ledger \<noteq> zero32" "st_ledger_id s = ledger" "st_mode s = Local"
    using assms(2) [unfolded create_def] by (rule create_mode_ok) (simp_all add: assms)
  then show "store_ok env s" "db_supply (st_db s) = genesis_supply accounts"
    "db_application_id (st_db s) = APP" "db_user_version (st_db s) = 1"
    "db_meta (st_db s) = [\<lparr>mt_singleton = 1, mt_ledger = ledger, mt_unit = TEST_UNIT,
       mt_supply = genesis_supply accounts\<rparr>]"
    "length ledger = 32" "ledger \<noteq> zero32" "st_ledger_id s = ledger" "st_mode s = Local"
    using assms(1) by (simp_all add: store_ok_def db_ok_def app_of_def)
qed

section \<open>Properties of the store\<close>

text \<open>
  Claim C18. Every reachable store balances. Start from any genesis the code accepts and run any
  sequence of requests, with SQLite failing to begin or to commit at any of them: the database keeps
  the invariant, the reservations are settled at most once, and all units together are the units of
  the genesis accounts.
\<close>

theorem store_history_balances:
  assumes "wire_env_ok env" and "create env fs absolute ledger accounts = Inr s0"
    and "s = run_ops (store_step env) qs s0"
  shows "ledger_ok (st_db s) \<and> settled_once (st_db s)
    \<and> total_available (st_db s) + total_reserved (st_db s) = genesis_supply accounts"
proof -
  note cr = create_store_ok [OF assms(1,2)]
  from cr(1) have "store_ok env s" unfolding assms(3) by (rule store_steps.run_inv)
  moreover have "db_supply (st_db s) = genesis_supply accounts"
    using store_run_extends [OF cr(1), of qs] cr(2) assms(3) by (simp add: extends_def db_supply_def)
  ultimately show ?thesis by (simp add: store_ok_def db_ok_def ledger_ok_def accounting_ok_def)
qed

definition demo_genesis :: "genesis_account list" where
  "demo_genesis = [\<lparr>ga_owner = demo_id 1, ga_units = 100\<rparr>, \<lparr>ga_owner = demo_id 2, ga_units = 50\<rparr>]"

lemma demo_created:
  "create (demo_env Local) None True (demo_id 9) demo_genesis =
     Inr \<lparr>st_db = demo_db\<lparr>db_application_id := APP, db_user_version := 1\<rparr>, st_ledger_id = demo_id 9, st_mode = Local\<rparr>"
  by code_simp

definition demo_requests :: "store_request list" where
  "demo_requests =
     [\<lparr>rq_faults = \<lparr>sf_begin = None, sf_commit = Some Sqlite_Busy\<rparr>, rq_signed = demo_reserve, rq_now = 150\<rparr>,
      \<lparr>rq_faults = \<lparr>sf_begin = None, sf_commit = None\<rparr>, rq_signed = demo_reserve, rq_now = 151\<rparr>]"

theorem store_history_balances_witness:
  "\<exists>s. create (demo_env Local) None True (demo_id 9) demo_genesis = Inr s
    \<and> ledger_ok (st_db (run_ops (store_step (demo_env Local)) demo_requests s))
    \<and> genesis_supply demo_genesis = 150"
  using store_history_balances [OF demo_env_ok demo_created refl, of demo_requests] demo_created
  by (auto simp: genesis_supply_def demo_genesis_def)

text \<open>
  Claim C22. A store survives reopening. After any sequence of requests, with or without SQLite
  failures, opening the database file again succeeds and gives the same ledger, mode and tables.
\<close>

theorem store_reopens:
  assumes "wire_env_ok env" and "create env fs absolute ledger accounts = Inr s0"
  shows "open_mode (st_db (run_ops (store_step env) qs s0)) Local = Inr (run_ops (store_step env) qs s0)"
proof -
  note cr = create_store_ok [OF assms]
  let ?s = "run_ops (store_step env) qs s0"
  have "store_ok env ?s" using cr(1) by (rule store_steps.run_inv)
  then have "validate_accounting (st_db ?s) = Inr ()"
    by (intro validate_accounting_ok) (simp_all add: store_ok_def db_ok_def ledger_ok_def)
  moreover have "db_meta (st_db ?s) = db_meta (st_db s0)" "db_application_id (st_db ?s) = APP"
    "db_user_version (st_db ?s) = 1" "st_ledger_id ?s = ledger" "st_mode ?s = Local"
    using store_run_extends [OF cr(1), of qs] cr by (simp_all add: extends_def)
  ultimately show ?thesis using cr
    by (simp add: open_mode_def app_of_def store.equality)
qed

theorem store_reopens_witness:
  "\<exists>s. create (demo_env Local) None True (demo_id 9) demo_genesis = Inr s
    \<and> open_mode (st_db (run_ops (store_step (demo_env Local)) demo_requests s)) Local =
        Inr (run_ops (store_step (demo_env Local)) demo_requests s)"
  using store_reopens [OF demo_env_ok demo_created, of demo_requests] demo_created by blast

end
