(* ===== verification/Tx_Wire_Correct.thy ===== *)
theory Tx_Wire_Correct
  imports Tx_Example
begin

text \<open>
  Correctness of the signed-command wire format: what a verified message proves about its bytes, that
  a command signed for one kind of ledger cannot be reused for the other, and that signing a
  well-formed command gives bytes from which verification recovers exactly that command.
\<close>

text \<open>
  Claim C29. Verification is sound. If a message verifies, its bytes are the canonical encoding of an
  envelope of the right version for this ledger with a lifetime of at most an hour, the payload hash
  matches, the sender is the payer, the payer's key verifies the signature over the domain-separated
  unsigned envelope, and the command, its target and its amounts are exactly those of the signed body
  and are well formed.
\<close>

theorem verify_mode_sound:
  assumes "verify_mode env bs ledger m = Inr v"
  shows "\<exists>e b. authentic env bs ledger m e b
    \<and> vf_nonce v = ev_nonce e \<and> vf_valid_from v = ev_valid_from e \<and> vf_expires v = ev_expires e
    \<and> cm_operation_id (vf_command v) = bd_operation b \<and> cm_payer (vf_command v) = bd_payer b
    \<and> action_fields (cm_action (vf_command v)) = (bd_kind b, bd_target b, bd_units b)
    \<and> well_formed_command (vf_command v) \<and> vf_nonce v \<noteq> zero32"
proof -
  obtain e b where "authentic env bs ledger m e b"
    and c: "vf_command v = \<lparr>cm_operation_id = bd_operation b, cm_payer = bd_payer b,
           cm_action = cm_action (vf_command v)\<rparr>"
    and "action_fields (cm_action (vf_command v)) = (bd_kind b, bd_target b, bd_units b)"
    and "vf_nonce v = ev_nonce e" "vf_valid_from v = ev_valid_from e" "vf_expires v = ev_expires e"
    and "well_formed_command (vf_command v)" "vf_nonce v \<noteq> zero32"
    using assms by (rule verify_mode_authentic)
  moreover from c have "cm_operation_id (vf_command v) = bd_operation b"
    "cm_payer (vf_command v) = bd_payer b" by (metis command.select_convs(1), metis command.select_convs(2))
  ultimately show ?thesis by blast
qed

theorem verify_mode_sound_witness:
  "\<exists>e b. authentic (demo_env Local) demo_reserve (demo_id 9) Local e b \<and> bd_payer b = demo_id 1"
  using verify_mode_sound [OF demo_verify(1)] by (simp add: demo_verified_def) metis

lemma domains_differ: "DOMAIN @ x \<noteq> ORDERED_DOMAIN @ y"
proof
  assume "DOMAIN @ x = ORDERED_DOMAIN @ y"
  then have "(DOMAIN @ x) ! 23 = (ORDERED_DOMAIN @ y) ! 23" by simp
  then show False by (simp add: DOMAIN_def ORDERED_DOMAIN_def ascii_def)
qed

text \<open>
  Signatures do not cross ledgers of different kinds. The bytes signed for a local ledger and
  the bytes signed for an ordered ledger never coincide, whatever the two messages say, so a signature
  accepted in one mode is not a signature over anything accepted in the other.
\<close>

theorem signing_bytes_mode_separation:
  assumes "authentic env bs ledger Local e b" and "authentic env' bs' ledger' Ordered e' b'"
  shows "signing_bytes env e \<noteq> signing_bytes env' e'"
proof -
  from assms obtain x where x: "signing_bytes env e = Inr x" by (auto simp: authentic_def)
  from assms obtain y where y: "signing_bytes env' e' = Inr y" by (auto simp: authentic_def)
  from assms have "ev_version e = 1" "ev_version e' = 2" by (simp_all add: authentic_def version_of_def)
  with x y have "x \<noteq> y" by (auto simp: signing_bytes_Inr domains_differ)
  with x y show ?thesis by simp
qed

lemma demo_authentic:
  "authentic (demo_env m) demo_reserve (demo_id 9) m (demo_envelope m 3 [1]) (demo_body m 3 1 2 30)"
  by (simp add: authentic_def demo_env_def table_codec_def demo_reserve_def demo_envelope_def demo_body_def
      MAX_BYTES_def MAX_LIFETIME_def MAX_UNITS_def signing_bytes_Inr)

theorem signing_bytes_mode_separation_witness:
  "signing_bytes (demo_env Local) (demo_envelope Local 3 [1]) \<noteq>
   signing_bytes (demo_env Ordered) (demo_envelope Ordered 3 [1])"
  by (rule signing_bytes_mode_separation [OF demo_authentic demo_authentic])

section \<open>Signing and verifying\<close>

lemma action_fields_inject [simp]: "action_fields a = action_fields b \<longleftrightarrow> a = b"
  by (cases a; cases b) (auto simp: action_fields_def)

lemma body_action_command:
  assumes "well_formed_command c"
  shows "body_action (command_body ledger c m) (cm_payer c) (bd_target (command_body ledger c m)) = Inr (cm_action c)"
  using assms
  by (cases "cm_action c")
    (auto simp: body_action_def command_body_def action_fields_def well_formed_command_def)

text \<open>
  What signing needs from its arguments and from the third-party code: a well-formed command of the
  key's owner, a live window, messages that fit and decode to themselves, and a key whose signature
  over the message verifies.
\<close>

definition signable ::
  "wire_env \<Rightarrow> ledger_id \<Rightarrow> signing_key \<Rightarrow> command \<Rightarrow> nat \<Rightarrow> nat \<Rightarrow> bytes \<Rightarrow> mode \<Rightarrow> bool" where
  "signable env ledger key c from expires nonce m =
     (let b = command_body ledger c m;
          u = unsigned_envelope env key (cd_encode (we_body env) b) from expires nonce m;
          msg = (if m = Local then DOMAIN else ORDERED_DOMAIN) @ cd_encode (we_envelope env) u;
          e = u\<lparr>ev_signature := sk_sign key msg\<rparr>
      in well_formed_command c \<and> cm_payer c = sk_public key
         \<and> length ledger = 32 \<and> ledger \<noteq> zero32 \<and> length nonce = 32 \<and> nonce \<noteq> zero32
         \<and> from < expires \<and> expires \<le> from + MAX_LIFETIME \<and> expires \<le> MAX_UNITS
         \<and> length (cd_encode (we_body env) b) \<le> MAX_BYTES
         \<and> length (cd_encode (we_envelope env) u) \<le> MAX_BYTES
         \<and> length (cd_encode (we_envelope env) e) \<le> MAX_BYTES
         \<and> cd_decode (we_body env) (cd_encode (we_body env) b) = Some b
         \<and> cd_decode (we_envelope env) (cd_encode (we_envelope env) e) = Some e
         \<and> we_key_ok env (sk_public key) \<and> we_signature_ok env (sk_sign key msg)
         \<and> we_verify_strict env (sk_public key) msg (sk_sign key msg))"

text \<open>
  Claim C30. Signing and verification round trip. Signing a well-formed command with its owner's key
  succeeds, and verifying the resulting bytes for the same ledger and mode recovers exactly the command,
  the nonce and the validity window that were signed.
\<close>

theorem sign_verify_roundtrip:
  assumes "signable env ledger key c from expires nonce m"
  shows "\<exists>bs. sign_mode env ledger key c from expires nonce m = Inr bs
    \<and> verify_mode env bs ledger m =
        Inr \<lparr>vf_command = c, vf_nonce = nonce, vf_valid_from = from, vf_expires = expires\<rparr>"
proof -
  define b where "b = command_body ledger c m"
  define u where "u = unsigned_envelope env key (cd_encode (we_body env) b) from expires nonce m"
  define msg where "msg = (if m = Local then DOMAIN else ORDERED_DOMAIN) @ cd_encode (we_envelope env) u"
  define e where "e = u\<lparr>ev_signature := sk_sign key msg\<rparr>"
  note defs = assms [unfolded signable_def Let_def, folded b_def, folded u_def, folded msg_def, folded e_def]
  have bf: "bd_version b = version_of m" "bd_unit b = TEST_UNIT" "bd_ledger b = ledger"
    "bd_operation b = cm_operation_id c" "bd_payer b = cm_payer c"
    by (simp_all add: b_def command_body_def split: prod.split)
  have ef: "ev_version e = version_of m" "ev_sender e = sk_public key" "ev_valid_from e = from"
    "ev_expires e = expires" "ev_nonce e = nonce" "ev_payload e = cd_encode (we_body env) b"
    "ev_payload_hash e = we_sha256 env (cd_encode (we_body env) b)" "ev_signature e = sk_sign key msg"
    "e\<lparr>ev_signature := []\<rparr> = u"
    by (simp_all add: e_def u_def unsigned_envelope_def)
  have uf: "u\<lparr>ev_signature := []\<rparr> = u" "ev_version u = version_of m"
    by (simp_all add: u_def unsigned_envelope_def)
  have sb: "signing_bytes env e = Inr msg" "signing_bytes env u = Inr msg"
    using defs ef(1,9) uf by (simp_all add: signing_bytes_Inr msg_def version_of_def)
  have ids: "identifier32 (bd_target b) = Inr (bd_target b)" "identifier32 (cm_operation_id c) = Inr (cm_operation_id c)"
    "identifier32 (cm_payer c) = Inr (cm_payer c)"
    using defs by (auto simp: identifier32_Inr well_formed_command_def b_def command_body_def
        action_fields_def split: action.splits)
  have act: "body_action b (sk_public key) (bd_target b) = Inr (cm_action c)"
    using body_action_command [of c ledger m] defs by (simp add: b_def)
  let ?bs = "cd_encode (we_envelope env) e"
  have dec: "decode_canonical (we_envelope env) ?bs MAX_BYTES = Inr e"
    "decode_canonical (we_body env) (cd_encode (we_body env) b) MAX_BYTES = Inr b"
    using defs by (simp_all add: decode_canonical_Inr)
  have win: "\<not> is_none_or (\<lambda>n. n = 0 \<or> n > MAX_LIFETIME) (checked_sub expires from)"
    and idl: "identifier32 ledger = Inr ledger" "identifier32 nonce = Inr nonce"
    using defs by (auto simp: checked_sub_def identifier32_Inr)
  have ver: "verify_mode env ?bs ledger m =
        Inr \<lparr>vf_command = c, vf_nonce = nonce, vf_valid_from = from, vf_expires = expires\<rparr>"
    using defs dec bf ef sb ids act win idl
    by (simp add: verify_mode_def)
  have "sign_mode env ledger key c from expires nonce m = Inr ?bs"
    using defs sb ver
    by (simp add: sign_mode_def encode_canonical_def flip: b_def u_def e_def)
  with ver show ?thesis by blast
qed

definition demo_signing_key :: signing_key where
  "demo_signing_key = \<lparr>sk_public = demo_id 1, sk_sign = (\<lambda>_. [1])\<rparr>"

theorem sign_verify_roundtrip_witness:
  "\<exists>bs. sign_mode (demo_env Local) (demo_id 9) demo_signing_key
       (vf_command (demo_verified 3 (Reserve (demo_id 2) 30))) 100 200 (demo_id 67) Local = Inr bs
     \<and> verify_mode (demo_env Local) bs (demo_id 9) Local = Inr (demo_verified 3 (Reserve (demo_id 2) 30))"
proof -
  have "signable (demo_env Local) (demo_id 9) demo_signing_key
       (vf_command (demo_verified 3 (Reserve (demo_id 2) 30))) 100 200 (demo_id 67) Local"
    by code_simp
  from sign_verify_roundtrip [OF this] show ?thesis by (simp add: demo_verified_def)
qed

end
