(* ===== verification/Tx_Ordered.thy ===== *)
theory Tx_Ordered
  imports Tx_Ledger
begin

text \<open>
  Ordered execution of blocks (\<^verbatim>\<open>volparossa-transaction/src/ordered.rs\<close> and
  \<^verbatim>\<open>ordered_snapshot.rs\<close>): agreed block times, block validation, stable rejection codes,
  the canonical snapshot of the tables, staging on a copy in memory and the atomic commit.
  The three prost codecs and SHA-256 are parameters.
\<close>

section \<open>Blocks, outcomes and receipts\<close>

definition MAX_BLOCK_COMMANDS :: nat where
  "MAX_BLOCK_COMMANDS = 64"

definition MAX_BLOCK_BYTES :: nat where
  "MAX_BLOCK_BYTES = 65536"

definition MAX_RECORD_BYTES :: nat where
  "MAX_RECORD_BYTES = 128 * 1024"

record block_time =
  bt_seconds :: nat
  bt_nanos :: nat

definition validate_time :: "block_time \<Rightarrow> tx_error + unit" where
  "validate_time t =
     (if bt_seconds t > MAX_UNITS \<or> bt_nanos t \<ge> 1000000000 then Inl Tx_Invalid else Inr ())"

definition from_unix :: "int \<Rightarrow> int \<Rightarrow> tx_error + block_time" where
  "from_unix seconds nanos =
     (if seconds < 0 then Inl Tx_Invalid
      else if nanos < 0 then Inl Tx_Invalid
      else let value = \<lparr>bt_seconds = nat seconds, bt_nanos = nat nanos\<rparr>
           in rbind (validate_time value) (\<lambda>_. Inr value))"

text \<open>The derived order of the two fields.\<close>

definition time_less :: "block_time \<Rightarrow> block_time \<Rightarrow> bool" where
  "time_less a b \<longleftrightarrow> bt_seconds a < bt_seconds b
     \<or> bt_seconds a = bt_seconds b \<and> bt_nanos a < bt_nanos b"

record block =
  bk_height :: nat
  bk_block_id :: bytes
  bk_time :: block_time
  bk_commands :: "bytes list"

datatype command_failure =
    Cf_Invalid | Cf_Unauthorized | Cf_WrongLedger | Cf_NotLive | Cf_Conflict
  | Cf_Replay | Cf_Insufficient | Cf_NotFound | Cf_State | Cf_Capacity

definition classify :: "tx_error \<Rightarrow> tx_error + command_failure" where
  "classify e = (case e of
       Tx_Invalid \<Rightarrow> Inr Cf_Invalid
     | Tx_Unauthorized \<Rightarrow> Inr Cf_Unauthorized
     | Tx_WrongLedger \<Rightarrow> Inr Cf_WrongLedger
     | Tx_NotLive \<Rightarrow> Inr Cf_NotLive
     | Tx_Conflict \<Rightarrow> Inr Cf_Conflict
     | Tx_Replay \<Rightarrow> Inr Cf_Replay
     | Tx_Insufficient \<Rightarrow> Inr Cf_Insufficient
     | Tx_NotFound \<Rightarrow> Inr Cf_NotFound
     | Tx_State \<Rightarrow> Inr Cf_State
     | Tx_Capacity \<Rightarrow> Inr Cf_Capacity
     | other \<Rightarrow> Inl other)"

text \<open>The discriminants of the enum, and their inverse.\<close>

definition failure_code :: "command_failure \<Rightarrow> nat" where
  "failure_code f = (case f of
       Cf_Invalid \<Rightarrow> 1 | Cf_Unauthorized \<Rightarrow> 2 | Cf_WrongLedger \<Rightarrow> 3 | Cf_NotLive \<Rightarrow> 4
     | Cf_Conflict \<Rightarrow> 5 | Cf_Replay \<Rightarrow> 6 | Cf_Insufficient \<Rightarrow> 7 | Cf_NotFound \<Rightarrow> 8
     | Cf_State \<Rightarrow> 9 | Cf_Capacity \<Rightarrow> 10)"

definition failure_number :: "nat \<Rightarrow> tx_error + command_failure" where
  "failure_number n =
     (if n = 1 then Inr Cf_Invalid else if n = 2 then Inr Cf_Unauthorized
      else if n = 3 then Inr Cf_WrongLedger else if n = 4 then Inr Cf_NotLive
      else if n = 5 then Inr Cf_Conflict else if n = 6 then Inr Cf_Replay
      else if n = 7 then Inr Cf_Insufficient else if n = 8 then Inr Cf_NotFound
      else if n = 9 then Inr Cf_State else if n = 10 then Inr Cf_Capacity
      else Inl Tx_Store)"

record block_outcome =
  bo_command_sha256 :: bytes
  bo_result :: "command_failure + receipt"

record staged_block =
  sb_height :: nat
  sb_block_id :: bytes
  sb_app_hash :: bytes
  sb_outcomes :: "block_outcome list"

record block_receipt =
  br_height :: nat
  br_block_id :: bytes
  br_time :: block_time
  br_app_hash :: bytes
  br_outcomes :: "block_outcome list"

section \<open>Wire records\<close>

record initial_account =
  ia_owner :: bytes
  ia_units :: nat

record genesis_wire =
  gw_version :: nat
  gw_authority :: bytes
  gw_time :: "block_time option"
  gw_accounts :: "initial_account list"

record block_wire =
  bw_height :: nat
  bw_id :: bytes
  bw_time :: "block_time option"
  bw_commands :: "bytes list"

record receipt_wire =
  rw_operation :: bytes
  rw_hash :: bytes
  rw_sequence :: nat
  rw_reservation :: bytes
  rw_state :: nat

record outcome_wire =
  ow_hash :: bytes
  ow_code :: nat
  ow_receipt :: "receipt_wire option"

record record_wire =
  rr_block :: "block_wire option"
  rr_previous_hash :: bytes
  rr_outcomes :: "outcome_wire list"
  rr_app_hash :: bytes

definition block_wire_from :: "block \<Rightarrow> block_wire" where
  "block_wire_from b = \<lparr>bw_height = bk_height b, bw_id = bk_block_id b, bw_time = Some (bk_time b),
     bw_commands = bk_commands b\<rparr>"

section \<open>Snapshots\<close>

datatype scalar = Sc_Integer nat | Sc_Blob bytes | Sc_Text string

type_synonym cell = "scalar option"
type_synonym snapshot = "cell list list list"

record ordered_env =
  oe_wire :: wire_env
  oe_genesis :: "genesis_wire codec"
  oe_record :: "record_wire codec"
  oe_snapshot :: "snapshot codec"

text \<open>
  The four \<^verbatim>\<open>SELECT ... ORDER BY\<close> queries. Integer columns are unsigned in the model, as the
  schema and the bound parameters make them.
\<close>

definition meta_cells :: "meta_row \<Rightarrow> scalar list" where
  "meta_cells r = [Sc_Integer (mt_singleton r), Sc_Blob (mt_ledger r), Sc_Text (mt_unit r), Sc_Integer (mt_supply r)]"

definition account_cells :: "account_row \<Rightarrow> scalar list" where
  "account_cells r = [Sc_Blob (ac_owner r), Sc_Integer (ac_available r), Sc_Integer (ac_reserved r)]"

definition reservation_cells :: "reservation_row \<Rightarrow> scalar list" where
  "reservation_cells r = [Sc_Blob (rv_id r), Sc_Blob (rv_payer r), Sc_Blob (rv_recipient r),
     Sc_Integer (rv_units r), Sc_Integer (rv_state r)]"

definition operation_cells :: "operation_row \<Rightarrow> scalar list" where
  "operation_cells r = [Sc_Integer (op_sequence r), Sc_Blob (op_id r), Sc_Blob (op_signer r),
     Sc_Blob (op_nonce r), Sc_Blob (op_signed r), Sc_Blob (op_hash r), Sc_Blob (op_reservation r),
     Sc_Integer (op_state r)]"

definition capture_cell :: "scalar \<Rightarrow> tx_error + cell" where
  "capture_cell v = (case v of
       Sc_Integer n \<Rightarrow> Inr (Some v)
     | Sc_Blob b \<Rightarrow> if length b \<le> 4096 then Inr (Some v) else Inl Tx_Store
     | Sc_Text t \<Rightarrow> if length t \<le> 128 then Inr (Some v) else Inl Tx_Store)"

definition capture_table :: "nat \<Rightarrow> scalar list list \<Rightarrow> tx_error + cell list list" where
  "capture_table bound rows =
     (if length rows > bound then Inl Tx_Store else rtraverse (rtraverse capture_cell) rows)"

definition capture :: "db \<Rightarrow> tx_error + snapshot" where
  "capture d =
     rbind (validate_accounting d) (\<lambda>_.
     rbind (capture_table 1 (map meta_cells (sort_key mt_singleton (db_meta d)))) (\<lambda>t1.
     rbind (capture_table MAX_ACCOUNTS (map account_cells (sort_key ac_owner (db_accounts d)))) (\<lambda>t2.
     rbind (capture_table MAX_OPERATIONS (map reservation_cells (sort_key rv_id (db_reservations d)))) (\<lambda>t3.
     rbind (capture_table MAX_OPERATIONS (map operation_cells (sort_key op_sequence (db_operations d)))) (\<lambda>t4.
     Inr [t1, t2, t3, t4])))))"

definition snapshot_bytes :: "ordered_env \<Rightarrow> snapshot \<Rightarrow> tx_error + bytes" where
  "snapshot_bytes env s = map_err (\<lambda>_. Tx_Store) (encode_canonical (oe_snapshot env) s (6 * 1024 * 1024))"

text \<open>
  Inserting the captured rows into a fresh schema. A cell without a value and an integer above
  \<^verbatim>\<open>i64::MAX\<close> are refused; a row of the wrong shape violates the strict schema.
\<close>

definition copy_cell :: "cell \<Rightarrow> tx_error + scalar" where
  "copy_cell c = (case c of
       Some (Sc_Integer n) \<Rightarrow> if n \<le> MAX_UNITS then Inr (Sc_Integer n) else Inl Tx_Store
     | Some v \<Rightarrow> Inr v
     | None \<Rightarrow> Inl Tx_Store)"

definition int_column :: "scalar \<Rightarrow> tx_error + nat" where
  "int_column v = (case v of Sc_Integer n \<Rightarrow> Inr n | _ \<Rightarrow> Inl Tx_Database)"

definition blob_column :: "scalar \<Rightarrow> tx_error + bytes" where
  "blob_column v = (case v of Sc_Blob b \<Rightarrow> Inr b | _ \<Rightarrow> Inl Tx_Database)"

definition text_column :: "scalar \<Rightarrow> tx_error + string" where
  "text_column v = (case v of Sc_Text t \<Rightarrow> Inr t | _ \<Rightarrow> Inl Tx_Database)"

definition insert_meta_cells :: "scalar list \<Rightarrow> db \<Rightarrow> tx_error + db" where
  "insert_meta_cells row d = (case row of
       [c1, c2, c3, c4] \<Rightarrow>
         rbind (int_column c1) (\<lambda>a. rbind (blob_column c2) (\<lambda>l. rbind (text_column c3) (\<lambda>u.
         rbind (int_column c4) (\<lambda>s.
         insert_meta \<lparr>mt_singleton = a, mt_ledger = l, mt_unit = u, mt_supply = s\<rparr> d))))
     | _ \<Rightarrow> Inl Tx_Database)"

definition insert_account_cells :: "scalar list \<Rightarrow> db \<Rightarrow> tx_error + db" where
  "insert_account_cells row d = (case row of
       [c1, c2, c3] \<Rightarrow>
         rbind (blob_column c1) (\<lambda>k. rbind (int_column c2) (\<lambda>a. rbind (int_column c3) (\<lambda>r.
         insert_account \<lparr>ac_owner = k, ac_available = a, ac_reserved = r\<rparr> d)))
     | _ \<Rightarrow> Inl Tx_Database)"

definition insert_reservation_cells :: "scalar list \<Rightarrow> db \<Rightarrow> tx_error + db" where
  "insert_reservation_cells row d = (case row of
       [c1, c2, c3, c4, c5] \<Rightarrow>
         rbind (blob_column c1) (\<lambda>i. rbind (blob_column c2) (\<lambda>p. rbind (blob_column c3) (\<lambda>r.
         rbind (int_column c4) (\<lambda>n. rbind (int_column c5) (\<lambda>s.
         insert_reservation \<lparr>rv_id = i, rv_payer = p, rv_recipient = r, rv_units = n, rv_state = s\<rparr> d)))))
     | _ \<Rightarrow> Inl Tx_Database)"

definition insert_operation_cells :: "scalar list \<Rightarrow> db \<Rightarrow> tx_error + db" where
  "insert_operation_cells row d = (case row of
       [c1, c2, c3, c4, c5, c6, c7, c8] \<Rightarrow>
         rbind (int_column c1) (\<lambda>q. rbind (blob_column c2) (\<lambda>i. rbind (blob_column c3) (\<lambda>k.
         rbind (blob_column c4) (\<lambda>n. rbind (blob_column c5) (\<lambda>b. rbind (blob_column c6) (\<lambda>h.
         rbind (blob_column c7) (\<lambda>v. rbind (int_column c8) (\<lambda>s.
         insert_operation \<lparr>op_sequence = q, op_id = i, op_signer = k, op_nonce = n, op_signed = b,
           op_hash = h, op_reservation = v, op_state = s\<rparr> d))))))))
     | _ \<Rightarrow> Inl Tx_Database)"

fun copy_rows :: "(scalar list \<Rightarrow> db \<Rightarrow> tx_error + db) \<Rightarrow> cell list list \<Rightarrow> db \<Rightarrow> tx_error + db" where
  "copy_rows ins [] d = Inr d"
| "copy_rows ins (row # rows) d =
     rbind (rtraverse copy_cell row) (\<lambda>values. rbind (ins values d) (copy_rows ins rows))"

text \<open>The tables are zipped with the four insert statements.\<close>

fun copy_tables ::
  "(scalar list \<Rightarrow> db \<Rightarrow> tx_error + db) list \<Rightarrow> snapshot \<Rightarrow> db \<Rightarrow> tx_error + db" where
  "copy_tables (ins # inss) (t # ts) d = rbind (copy_rows ins t d) (copy_tables inss ts)"
| "copy_tables _ _ d = Inr d"

definition memory_copy :: "snapshot \<Rightarrow> tx_error + db" where
  "memory_copy s =
     rbind (copy_tables [insert_meta_cells, insert_account_cells, insert_reservation_cells,
              insert_operation_cells] s schema) (\<lambda>d.
     rbind (validate_accounting d) (\<lambda>_. Inr d))"

section \<open>Validation and execution of a block\<close>

definition encode_genesis ::
  "ordered_env \<Rightarrow> bytes \<Rightarrow> genesis_account list \<Rightarrow> block_time \<Rightarrow> tx_error + bytes" where
  "encode_genesis env authority_id accounts time =
     rbind (validate_time time) (\<lambda>_.
     if authority_id = zero32 \<or> accounts = [] \<or> length accounts > MAX_ACCOUNTS
     then Inl Tx_Invalid
     else
       let genesis = \<lparr>gw_version = 1, gw_authority = authority_id, gw_time = Some time,
             gw_accounts = map (\<lambda>a. \<lparr>ia_owner = ga_owner a, ia_units = ga_units a\<rparr>)
               (sort_key ga_owner accounts)\<rparr>
       in map_err (\<lambda>_. Tx_Invalid) (encode_canonical (oe_genesis env) genesis 8192))"

definition validate_block :: "block \<Rightarrow> tx_error + unit" where
  "validate_block b =
     rbind (validate_time (bk_time b)) (\<lambda>_.
     if bk_height b = 0 \<or> bk_height b > MAX_UNITS \<or> bk_block_id b = zero32
     then Inl Tx_Invalid
     else if length (bk_commands b) > MAX_BLOCK_COMMANDS
        \<or> (\<exists>c \<in> set (bk_commands b). length c > 4096)
        \<or> is_none_or (\<lambda>size. size > MAX_BLOCK_BYTES)
            (foldl (\<lambda>acc c. Option.bind acc (\<lambda>size. checked_add_u64 size (length c)))
              (Some 0) (bk_commands b))
     then Inl Tx_Capacity
     else Inr ())"

definition receipt_wire_from :: "receipt \<Rightarrow> receipt_wire" where
  "receipt_wire_from r = \<lparr>rw_operation = rc_operation_id r, rw_hash = rc_command_sha256 r,
     rw_sequence = rc_sequence r, rw_reservation = rc_reservation_id r,
     rw_state = state_number (rc_state r)\<rparr>"

text \<open>
  The loop of \<^verbatim>\<open>execute\<close>: every command runs in its own savepoint; a rejected command is rolled
  back and recorded with its code, any other error aborts the block.
\<close>

fun execute_commands ::
  "wire_env \<Rightarrow> ledger_id \<Rightarrow> nat \<Rightarrow> bytes list \<Rightarrow> db \<Rightarrow> tx_error + outcome_wire list \<times> db" where
  "execute_commands env ledger seconds [] d = Inr ([], d)"
| "execute_commands env ledger seconds (c # cs) d =
     (case apply_command env d ledger Ordered c seconds of
        Inr (r, d') \<Rightarrow>
          rbind (execute_commands env ledger seconds cs d') (\<lambda>(outcomes, d'').
          Inr (\<lparr>ow_hash = we_sha256 env c, ow_code = 0, ow_receipt = Some (receipt_wire_from r)\<rparr> # outcomes, d''))
      | Inl e \<Rightarrow>
          rbind (classify e) (\<lambda>f.
          rbind (execute_commands env ledger seconds cs d) (\<lambda>(outcomes, d'').
          Inr (\<lparr>ow_hash = we_sha256 env c, ow_code = failure_code f, ow_receipt = None\<rparr> # outcomes, d''))))"

definition execute ::
  "wire_env \<Rightarrow> db \<Rightarrow> ledger_id \<Rightarrow> block_wire \<Rightarrow> tx_error + outcome_wire list \<times> db" where
  "execute env d ledger b =
     rbind (ok_or (bw_time b) Tx_Store) (\<lambda>time.
     execute_commands env ledger (bt_seconds time) (bw_commands b) d)"

definition genesis_ledger :: "wire_env \<Rightarrow> bytes \<Rightarrow> ledger_id" where
  "genesis_ledger env genesis =
     we_sha256 env (ascii ''volparossa/transaction/ordered-genesis/v1'' @ [0] @ genesis)"

definition record_bytes :: "ordered_env \<Rightarrow> record_wire \<Rightarrow> tx_error + bytes" where
  "record_bytes env r = map_err (\<lambda>_. Tx_Store) (encode_canonical (oe_record env) r MAX_RECORD_BYTES)"

definition state_hash :: "ordered_env \<Rightarrow> db \<Rightarrow> bytes \<Rightarrow> record_wire \<Rightarrow> tx_error + bytes" where
  "state_hash env d genesis r =
     rbind (record_bytes env (r\<lparr>rr_app_hash := []\<rparr>)) (\<lambda>unhashed.
     rbind (rbind (capture d) (snapshot_bytes env)) (\<lambda>snap.
     Inr (we_sha256 (oe_wire env)
       (ascii ''volparossa/transaction/ordered-state/v1'' @ [0]
        @ concat (map (\<lambda>piece. be_bytes 8 (length piece) @ piece) [genesis, unhashed, snap])))))"

definition array32 :: "bytes \<Rightarrow> tx_error + bytes" where
  "array32 v = (if length v = 32 then Inr v else Inl Tx_Store)"

definition public_outcome :: "ledger_id \<Rightarrow> outcome_wire \<Rightarrow> tx_error + block_outcome" where
  "public_outcome ledger o' =
     rbind (case (ow_receipt o', ow_code o' = 0) of
        (Some v, True) \<Rightarrow>
          rbind (array32 (rw_operation v)) (\<lambda>i.
          rbind (array32 (rw_hash v)) (\<lambda>h.
          rbind (array32 (rw_reservation v)) (\<lambda>r.
          rbind (if rw_state v \<le> 255 then parse_state (rw_state v) else Inl Tx_Store) (\<lambda>s.
          Inr (Inr \<lparr>rc_ledger_id = ledger, rc_operation_id = i, rc_command_sha256 = h,
            rc_sequence = rw_sequence v, rc_reservation_id = r, rc_state = s\<rparr>)))))
      | (None, _) \<Rightarrow> rbind (failure_number (ow_code o')) (\<lambda>f. Inr (Inl f))
      | _ \<Rightarrow> Inl Tx_Store) (\<lambda>result.
     rbind (array32 (ow_hash o')) (\<lambda>h.
     Inr \<lparr>bo_command_sha256 = h, bo_result = result\<rparr>))"

definition public_receipt :: "record_wire \<Rightarrow> ledger_id \<Rightarrow> tx_error + block_receipt" where
  "public_receipt r ledger =
     rbind (ok_or (rr_block r) Tx_Store) (\<lambda>b.
     rbind (rtraverse (public_outcome ledger) (rr_outcomes r)) (\<lambda>outcomes.
     rbind (array32 (bw_id b)) (\<lambda>i.
     rbind (ok_or (bw_time b) Tx_Store) (\<lambda>t.
     rbind (array32 (rr_app_hash r)) (\<lambda>h.
     Inr \<lparr>br_height = bw_height b, br_block_id = i, br_time = t, br_app_hash = h,
          br_outcomes = outcomes\<rparr>)))))"

definition staged_receipt :: "record_wire \<Rightarrow> ledger_id \<Rightarrow> tx_error + staged_block" where
  "staged_receipt r ledger =
     rbind (public_receipt r ledger) (\<lambda>v.
     Inr \<lparr>sb_height = br_height v, sb_block_id = br_block_id v, sb_app_hash = br_app_hash v,
          sb_outcomes = br_outcomes v\<rparr>)"

section \<open>Loading the durable checkpoint\<close>

definition check_genesis_wire :: "ordered_env \<Rightarrow> ledger_id \<Rightarrow> bytes \<Rightarrow> tx_error + block_time" where
  "check_genesis_wire env ledger genesis =
     rbind (map_err (\<lambda>_. Tx_Store) (decode_canonical (oe_genesis env) genesis 8192)) (\<lambda>decoded.
     if gw_version decoded \<noteq> 1
        \<or> length (gw_authority decoded) \<noteq> 32
        \<or> gw_authority decoded = zero32
        \<or> gw_accounts decoded = []
        \<or> length (gw_accounts decoded) > MAX_ACCOUNTS
        \<or> \<not> strictly_sorted (map ia_owner (gw_accounts decoded))
        \<or> genesis_ledger (oe_wire env) genesis \<noteq> ledger
     then Inl Tx_Store
     else rbind (ok_or (gw_time decoded) Tx_Store) (\<lambda>time.
          rbind (map_err (\<lambda>_. Tx_Store) (validate_time time)) (\<lambda>_. Inr time)))"

definition check_record ::
  "ordered_env \<Rightarrow> ledger_id \<Rightarrow> block_time \<Rightarrow> bytes \<Rightarrow> tx_error + record_wire" where
  "check_record env ledger genesis_time bs =
     rbind (map_err (\<lambda>_. Tx_Store) (decode_canonical (oe_record env) bs MAX_RECORD_BYTES)) (\<lambda>r.
     rbind (ok_or (rr_block r) Tx_Store) (\<lambda>b.
     rbind (public_receipt r ledger) (\<lambda>public.
     if length (rr_previous_hash r) \<noteq> 32 \<or> length (bw_commands b) \<noteq> length (rr_outcomes r)
     then Inl Tx_Store else
     rbind
       (if bw_height b = 0
        then ensure (\<not> (bw_id b \<noteq> zero32 \<or> rr_previous_hash r \<noteq> zero32 \<or> bw_commands b \<noteq> []
                         \<or> bw_time b \<noteq> Some genesis_time)) Tx_Store
        else rbind (map_err (\<lambda>_. Tx_Store) (validate_block
                 \<lparr>bk_height = bw_height b, bk_block_id = br_block_id public, bk_time = br_time public,
                  bk_commands = bw_commands b\<rparr>)) (\<lambda>_.
             ensure (\<not> time_less (br_time public) genesis_time) Tx_Store)) (\<lambda>_.
     if \<exists>(c, o') \<in> set (zip (bw_commands b) (rr_outcomes r)). ow_hash o' \<noteq> we_sha256 (oe_wire env) c
     then Inl Tx_Store else Inr r))))"

definition load :: "ordered_env \<Rightarrow> db \<Rightarrow> ledger_id \<Rightarrow> tx_error + bytes \<times> record_wire" where
  "load env d ledger =
     rbind (ok_or (db_checkpoint d) Tx_Database) (\<lambda>(genesis, bs).
     rbind (check_genesis_wire env ledger genesis) (\<lambda>time.
     rbind (check_record env ledger time bs) (\<lambda>r.
     rbind (state_hash env d genesis r) (\<lambda>h.
     if h \<noteq> rr_app_hash r then Inl Tx_Store else Inr (genesis, r)))))"

section \<open>The ordered store\<close>

record pending =
  pd_base :: bytes
  pd_record :: record_wire

record ordered_store =
  os_store :: store
  os_staged :: "pending option"

definition genesis_record :: "block_time \<Rightarrow> record_wire" where
  "genesis_record time =
     \<lparr>rr_block = Some \<lparr>bw_height = 0, bw_id = zero32, bw_time = Some time, bw_commands = []\<rparr>,
      rr_previous_hash = zero32, rr_outcomes = [], rr_app_hash = []\<rparr>"

definition initialize_checkpoint :: "ordered_env \<Rightarrow> bytes \<Rightarrow> block_time \<Rightarrow> db \<Rightarrow> tx_error + db" where
  "initialize_checkpoint env genesis time d =
     rbind (state_hash env d genesis (genesis_record time)) (\<lambda>h.
     rbind (record_bytes env ((genesis_record time)\<lparr>rr_app_hash := h\<rparr>)) (\<lambda>bs.
     if length genesis < 1 \<or> length genesis > 8192 \<or> length bs < 1 \<or> length bs > 131072
     then Inl Tx_Database
     else Inr (d\<lparr>db_checkpoint := Some (genesis, bs)\<rparr>)))"

definition create_ordered ::
  "ordered_env \<Rightarrow> tx_error option \<Rightarrow> bool \<Rightarrow> bytes \<Rightarrow> genesis_account list \<Rightarrow> block_time \<Rightarrow>
   tx_error + ordered_store" where
  "create_ordered env fs path_is_absolute authority_id accounts time =
     rbind (encode_genesis env authority_id accounts time) (\<lambda>genesis.
     let ledger = genesis_ledger (oe_wire env) genesis in
     rbind (create_mode (oe_wire env) fs path_is_absolute ledger accounts Ordered
              (initialize_checkpoint env genesis time)) (\<lambda>s.
     Inr \<lparr>os_store = s, os_staged = None\<rparr>))"

definition ledger_of :: "ordered_store \<Rightarrow> ledger_id" where
  "ledger_of s = st_ledger_id (os_store s)"

definition db_of :: "ordered_store \<Rightarrow> db" where
  "db_of s = st_db (os_store s)"

definition info :: "ordered_env \<Rightarrow> ordered_store \<Rightarrow> tx_error + block_receipt" where
  "info env s =
     rbind (load env (db_of s) (ledger_of s)) (\<lambda>(_, r). public_receipt r (ledger_of s))"

definition open_ordered :: "ordered_env \<Rightarrow> db \<Rightarrow> tx_error + ordered_store" where
  "open_ordered env d =
     rbind (open_mode d Ordered) (\<lambda>st.
     let s = \<lparr>os_store = st, os_staged = None\<rparr> in
     rbind (info env s) (\<lambda>_. Inr s))"

definition matches_genesis ::
  "ordered_env \<Rightarrow> ordered_store \<Rightarrow> bytes \<Rightarrow> genesis_account list \<Rightarrow> block_time \<Rightarrow> tx_error + bool" where
  "matches_genesis env s authority_id accounts time =
     rbind (encode_genesis env authority_id accounts time) (\<lambda>expected.
     rbind (load env (db_of s) (ledger_of s)) (\<lambda>(actual, _). Inr (actual = expected)))"

definition inspect_ordered :: "ordered_env \<Rightarrow> ordered_store \<Rightarrow> bytes \<Rightarrow> tx_error + command" where
  "inspect_ordered env s bs =
     rbind (verify_mode (oe_wire env) bs (ledger_of s) Ordered) (\<lambda>v.
     rbind (account (db_of s) (cm_payer (vf_command v))) (\<lambda>_. Inr (vf_command v)))"

definition sqlite_fault :: "sqlite_error option \<Rightarrow> tx_error + unit" where
  "sqlite_fault f = (case f of Some e \<Rightarrow> Inl (from_rusqlite e) | None \<Rightarrow> Inr ())"

text \<open>
  The calculation of \<^verbatim>\<open>stage\<close> for a block that is neither staged nor committed: the record of the
  block and the bytes of the record it is based on, or \<open>None\<close> when the block is the committed one.
\<close>

definition compute_stage ::
  "ordered_env \<Rightarrow> sqlite_faults \<Rightarrow> db \<Rightarrow> ledger_id \<Rightarrow> block \<Rightarrow> tx_error + staged_block \<times> pending option" where
  "compute_stage env faults d ledger b =
     (let input = block_wire_from b in
      rbind (sqlite_fault (sf_begin faults)) (\<lambda>_.
      rbind (load env d ledger) (\<lambda>(genesis, current).
      rbind (ok_or (rr_block current) Tx_Store) (\<lambda>previous.
      if bw_height previous = bk_height b
      then (if previous \<noteq> input then Inl Tx_Conflict
            else rbind (staged_receipt current ledger) (\<lambda>p. Inr (p, None)))
      else if checked_add_u64 (bw_height previous) 1 \<noteq> Some (bk_height b) then Inl Tx_State
      else rbind (ok_or (bw_time previous) Tx_Store) (\<lambda>previous_time.
      if time_less (bk_time b) previous_time \<or> bw_id previous = bw_id input then Inl Tx_State else
      rbind (capture d) (\<lambda>snap.
      rbind (sqlite_fault (sf_commit faults)) (\<lambda>_.
      rbind (memory_copy snap) (\<lambda>memory.
      rbind (execute (oe_wire env) memory ledger input) (\<lambda>(outcomes, memory').
      let r = \<lparr>rr_block = Some input, rr_previous_hash = rr_app_hash current,
               rr_outcomes = outcomes, rr_app_hash = []\<rparr> in
      rbind (state_hash env memory' genesis r) (\<lambda>h.
      let r' = r\<lparr>rr_app_hash := h\<rparr> in
      rbind (staged_receipt r' ledger) (\<lambda>preview.
      rbind (record_bytes env current) (\<lambda>base.
      Inr (preview, Some \<lparr>pd_base = base, pd_record = r'\<rparr>)))))))))))))"

definition stage ::
  "ordered_env \<Rightarrow> sqlite_faults \<Rightarrow> block \<Rightarrow> ordered_store \<Rightarrow> (tx_error + staged_block) \<times> ordered_store" where
  "stage env faults b s =
     (case validate_block b of Inl e \<Rightarrow> (Inl e, s) | Inr _ \<Rightarrow>
      (case os_staged s of
         Some p \<Rightarrow>
           if rr_block (pd_record p) \<noteq> Some (block_wire_from b) then (Inl Tx_Conflict, s)
           else (staged_receipt (pd_record p) (ledger_of s), s)
       | None \<Rightarrow>
           (case compute_stage env faults (db_of s) (ledger_of s) b of
              Inl e \<Rightarrow> (Inl e, s)
            | Inr (preview, None) \<Rightarrow> (Inr preview, s)
            | Inr (preview, Some p) \<Rightarrow> (Inr preview, s\<lparr>os_staged := Some p\<rparr>))))"

definition discard_staged :: "ordered_store \<Rightarrow> ordered_store" where
  "discard_staged s = s\<lparr>os_staged := None\<rparr>"

text \<open>
  The transaction of \<^verbatim>\<open>commit_inner\<close>: the receipt and, unless the block was committed before, the new
  database. An error drops the transaction, so the store keeps its database and its staged block.
\<close>

definition compute_commit ::
  "ordered_env \<Rightarrow> bytes \<Rightarrow> ordered_store \<Rightarrow> tx_error + block_receipt \<times> db" where
  "compute_commit env block_id s =
     (let ledger = ledger_of s; d = db_of s in
      rbind (load env d ledger) (\<lambda>(genesis, current).
      rbind (ok_or (rr_block current) Tx_Store) (\<lambda>current_block.
      if bw_height current_block > 0 \<and> bw_id current_block = block_id
      then (if (case os_staged s of None \<Rightarrow> False | Some p \<Rightarrow> pd_record p \<noteq> current)
            then Inl Tx_Conflict
            else rbind (public_receipt current ledger) (\<lambda>receipt. Inr (receipt, d)))
      else
      rbind (ok_or (os_staged s) Tx_State) (\<lambda>p.
      rbind (ok_or (rr_block (pd_record p)) Tx_Store) (\<lambda>b.
      if bw_id b \<noteq> block_id then Inl Tx_Conflict else
      rbind (record_bytes env current) (\<lambda>base.
      if pd_base p \<noteq> base then Inl Tx_Conflict else
      rbind (execute (oe_wire env) d ledger b) (\<lambda>(outcomes, d').
      if outcomes \<noteq> rr_outcomes (pd_record p) then Inl Tx_Store else
      rbind (state_hash env d' genesis (pd_record p)) (\<lambda>h.
      if h \<noteq> rr_app_hash (pd_record p) then Inl Tx_Store else
      rbind (public_receipt (pd_record p) ledger) (\<lambda>receipt.
      rbind (record_bytes env (pd_record p)) (\<lambda>bs.
      if length bs < 1 \<or> length bs > 131072 then Inl Tx_Database else
      Inr (receipt, d'\<lparr>db_checkpoint := Some (genesis, bs)\<rparr>)))))))))))"

definition commit_inner ::
  "ordered_env \<Rightarrow> sqlite_faults \<Rightarrow> bytes \<Rightarrow> ordered_store \<Rightarrow> (tx_error + block_receipt) \<times> ordered_store" where
  "commit_inner env faults block_id s =
     (case rbind (sqlite_fault (sf_begin faults)) (\<lambda>_.
           rbind (compute_commit env block_id s) (\<lambda>r.
           rbind (sqlite_fault (sf_commit faults)) (\<lambda>_. Inr r))) of
        Inl e \<Rightarrow> (Inl e, s)
      | Inr (receipt, d) \<Rightarrow>
          (Inr receipt, \<lparr>os_store = (os_store s)\<lparr>st_db := d\<rparr>, os_staged = None\<rparr>))"

end
