(* ===== verification/Tx_Abci.thy ===== *)
theory Tx_Abci
  imports Tx_Ordered "HOL-Library.Char_ord"
begin

text \<open>
  The serialized ABCI application over the ordered store
  (\<^verbatim>\<open>volparossa-transaction-abci\<close>: \<^verbatim>\<open>config.rs\<close>, \<^verbatim>\<open>application.rs\<close> and the frames of
  \<^verbatim>\<open>server.rs\<close>). JSON, hex, the generated protobuf types and SHA-256 are parameters; socket and
  file-system steps are outcomes given to the model.
\<close>

datatype abci_error = Ae_Configuration | Ae_Protocol | Ae_Store tx_error | Ae_Io

section \<open>Configuration\<close>

record abci_account =
  aa_public_key :: string
  aa_units :: nat

record abci_genesis =
  ag_version :: nat
  ag_chain_id :: string
  ag_seconds :: int
  ag_nanos :: int
  ag_validators :: "string list"
  ag_accounts :: "abci_account list"

record consensus_params =
  cp_block :: "(int \<times> int) option"
  cp_evidence :: "(int \<times> (int \<times> int) option \<times> int) option"
  cp_validator :: "string list option"
  cp_version :: "nat option"
  cp_abci :: "int option"
  cp_authority :: "string option"

record validator_update =
  vu_ed25519 :: "bytes option"
  vu_power :: int

section \<open>Requests and responses\<close>

record timestamp =
  ts_seconds :: int
  ts_nanos :: int

record request_init_chain =
  ic_time :: "timestamp option"
  ic_chain_id :: string
  ic_consensus_params :: "consensus_params option"
  ic_validators :: "validator_update list"
  ic_app_state_bytes :: bytes
  ic_initial_height :: int

record request_check_tx =
  ct_tx :: bytes
  ct_type :: int

record request_prepare =
  pp_max_tx_bytes :: int
  pp_txs :: "bytes list"
  pp_height :: int
  pp_time :: "timestamp option"

record request_block =
  fb_txs :: "bytes list"
  fb_hash :: bytes
  fb_height :: int
  fb_time :: "timestamp option"

record request_query =
  qy_data :: bytes
  qy_path :: string
  qy_height :: int
  qy_prove :: bool

datatype request =
    Q_Echo string
  | Q_Flush
  | Q_Info
  | Q_InitChain request_init_chain
  | Q_CheckTx request_check_tx
  | Q_PrepareProposal request_prepare
  | Q_ProcessProposal request_block
  | Q_FinalizeBlock request_block
  | Q_Commit
  | Q_Query request_query
  | Q_ListSnapshots
  | Q_OfferSnapshot
  | Q_ApplySnapshotChunk
  | Q_LoadSnapshotChunk
  | Q_ExtendVote
  | Q_VerifyVoteExtension
  | Q_InsertTx
  | Q_ReapTxs

record response_info =
  ri_last_block_height :: int
  ri_last_block_app_hash :: bytes

record response_init_chain =
  rn_consensus_params :: "consensus_params option"
  rn_validators :: "validator_update list"
  rn_app_hash :: bytes

record exec_tx_result =
  et_code :: nat
  et_data :: bytes

record response_finalize =
  rf_tx_results :: "exec_tx_result list"
  rf_app_hash :: bytes

datatype query_value =
    Qv_Info nat bytes ledger_id
  | Qv_Balance nat nat
  | Qv_Operation receipt

record response_query =
  rq_code :: nat
  rq_height :: int
  rq_value :: "query_value option"

datatype response =
    R_Echo string
  | R_Flush
  | R_Info response_info
  | R_InitChain response_init_chain
  | R_CheckTx nat
  | R_PrepareProposal "bytes list"
  | R_ProcessProposal bool
  | R_FinalizeBlock response_finalize
  | R_Commit int
  | R_Query response_query
  | R_ListSnapshots
  | R_OfferSnapshot_Reject
  | R_ApplySnapshotChunk_Abort

section \<open>Parameters\<close>

record abci_env =
  ae_ordered :: ordered_env
  ae_parse_json :: "bytes \<Rightarrow> abci_genesis option"
  ae_hex_decode :: "string \<Rightarrow> bytes option"
  ae_hex_encode :: "bytes \<Rightarrow> string"
  ae_params_bytes :: "consensus_params \<Rightarrow> bytes"
  ae_request_len :: "request option \<Rightarrow> nat"
  ae_check_tx_type_ok :: "int \<Rightarrow> bool"

definition MAX_FRAME_BYTES :: nat where
  "MAX_FRAME_BYTES = 128 * 1024"

definition the_consensus_params :: consensus_params where
  "the_consensus_params =
     \<lparr>cp_block = Some (98304, -1), cp_evidence = Some (1000, Some (86400, 0), 8192),
      cp_validator = Some [''ed25519''], cp_version = Some 1, cp_abci = Some 0, cp_authority = Some ''''\<rparr>"

definition is_lower_hex :: "char \<Rightarrow> bool" where
  "is_lower_hex c \<longleftrightarrow> (CHR ''0'' \<le> c \<and> c \<le> CHR ''9'') \<or> (CHR ''a'' \<le> c \<and> c \<le> CHR ''f'')"

definition public_key :: "abci_env \<Rightarrow> string \<Rightarrow> abci_error + bytes" where
  "public_key env v =
     (if length v \<noteq> 64 \<or> \<not> list_all is_lower_hex v then Inl Ae_Configuration
      else rbind (ok_or (ae_hex_decode env v) Ae_Configuration) (\<lambda>b.
           if b = zero32 \<or> \<not> we_key_ok (oe_wire (ae_ordered env)) b then Inl Ae_Configuration
           else Inr b))"

definition genesis_time :: "abci_genesis \<Rightarrow> abci_error + block_time" where
  "genesis_time g = map_err (\<lambda>_. Ae_Configuration) (from_unix (ag_seconds g) (ag_nanos g))"

definition is_chain_char :: "char \<Rightarrow> bool" where
  "is_chain_char c \<longleftrightarrow> (CHR ''0'' \<le> c \<and> c \<le> CHR ''9'') \<or> (CHR ''a'' \<le> c \<and> c \<le> CHR ''z'')
     \<or> (CHR ''A'' \<le> c \<and> c \<le> CHR ''Z'') \<or> c = CHR ''-''"

fun distinct_keys :: "abci_env \<Rightarrow> bytes set \<Rightarrow> string list \<Rightarrow> abci_error + unit" where
  "distinct_keys env seen [] = Inr ()"
| "distinct_keys env seen (v # vs) =
     rbind (public_key env v) (\<lambda>k.
     if k \<in> seen then Inl Ae_Configuration else distinct_keys env (insert k seen) vs)"

fun check_accounts :: "abci_env \<Rightarrow> bytes set \<Rightarrow> nat \<Rightarrow> abci_account list \<Rightarrow> abci_error + nat" where
  "check_accounts env seen total_units [] = Inr total_units"
| "check_accounts env seen total_units (a # as) =
     rbind (public_key env (aa_public_key a)) (\<lambda>k.
     if k \<in> seen then Inl Ae_Configuration else
     rbind (ok_or (filter_option (\<lambda>v. v \<le> MAX_UNITS) (checked_add_u64 total_units (aa_units a)))
              Ae_Configuration) (\<lambda>t.
     check_accounts env (insert k seen) t as))"

definition normalized :: "abci_env \<Rightarrow> abci_genesis \<Rightarrow> abci_error + abci_genesis" where
  "normalized env g =
     (if ag_version g \<noteq> 1
         \<or> take 16 (ag_chain_id g) \<noteq> ''volparossa-test-''
         \<or> length (ag_chain_id g) > 50
         \<or> \<not> list_all is_chain_char (ag_chain_id g)
         \<or> length (ag_validators g) \<noteq> 4
         \<or> ag_accounts g = []
         \<or> length (ag_accounts g) > MAX_ACCOUNTS
      then Inl Ae_Configuration
      else
      rbind (genesis_time g) (\<lambda>_.
      let g' = g\<lparr>ag_validators := sort (ag_validators g),
                 ag_accounts := sort_key aa_public_key (ag_accounts g)\<rparr> in
      rbind (distinct_keys env {} (ag_validators g')) (\<lambda>_.
      rbind (check_accounts env {} 0 (ag_accounts g')) (\<lambda>_. Inr g'))))"

definition genesis_from_json :: "abci_env \<Rightarrow> bytes \<Rightarrow> abci_error + abci_genesis" where
  "genesis_from_json env bs =
     (if length bs > 16384 then Inl Ae_Configuration
      else rbind (ok_or (ae_parse_json env bs) Ae_Configuration) (normalized env))"

definition genesis_accounts :: "abci_env \<Rightarrow> abci_genesis \<Rightarrow> abci_error + genesis_account list" where
  "genesis_accounts env g =
     rtraverse (\<lambda>a. rbind (public_key env (aa_public_key a)) (\<lambda>k.
       Inr \<lparr>ga_owner = k, ga_units = aa_units a\<rparr>)) (ag_accounts g)"

definition authority :: "abci_env \<Rightarrow> abci_genesis \<Rightarrow> abci_error + bytes" where
  "authority env g =
     (if length (ag_chain_id g) > u32_max then Inl Ae_Configuration else
      rbind (rtraverse (public_key env) (ag_validators g)) (\<lambda>keys.
      Inr (we_sha256 (oe_wire (ae_ordered env))
        (ascii ''volparossa/transaction/comet-0.40-test-authority/v1'' @ [0]
         @ be_bytes 4 (length (ag_chain_id g)) @ ascii (ag_chain_id g)
         @ concat (map (\<lambda>k. k @ be_bytes 8 10) keys)
         @ ae_params_bytes env the_consensus_params))))"

definition validator_updates :: "abci_env \<Rightarrow> abci_genesis \<Rightarrow> abci_error + validator_update list" where
  "validator_updates env g =
     rtraverse (\<lambda>v. rbind (public_key env v) (\<lambda>k. Inr \<lparr>vu_ed25519 = Some k, vu_power = 10\<rparr>))
       (ag_validators g)"

section \<open>The application\<close>

record application =
  ap_genesis :: abci_genesis
  ap_store :: "ordered_store option"
  ap_pending :: "bytes option"
  ap_failed :: bool

text \<open>
  \<open>disk\<close> is what the path holds: an error of the file system, nothing, or a database.
\<close>

definition open_application ::
  "abci_env \<Rightarrow> bool \<Rightarrow> abci_error + db option \<Rightarrow> abci_genesis \<Rightarrow> abci_error + application" where
  "open_application env path_is_absolute disk genesis =
     rbind (normalized env genesis) (\<lambda>g.
     if \<not> path_is_absolute then Inl Ae_Configuration else
     rbind disk (\<lambda>found.
     rbind (case found of
        None \<Rightarrow> Inr None
      | Some d \<Rightarrow>
          rbind (map_err Ae_Store (open_ordered (ae_ordered env) d)) (\<lambda>s.
          rbind (authority env g) (\<lambda>a.
          rbind (genesis_accounts env g) (\<lambda>accounts.
          rbind (genesis_time g) (\<lambda>t.
          rbind (map_err Ae_Store (matches_genesis (ae_ordered env) s a accounts t)) (\<lambda>m.
          if \<not> m then Inl Ae_Configuration else Inr (Some s))))))) (\<lambda>s.
     Inr \<lparr>ap_genesis = g, ap_store = s, ap_pending = None, ap_failed = False\<rparr>)))"

definition app_store :: "application \<Rightarrow> abci_error + ordered_store" where
  "app_store a = ok_or (ap_store a) Ae_Protocol"

definition agreed_time :: "timestamp option \<Rightarrow> abci_error + block_time" where
  "agreed_time t = rbind (ok_or t Ae_Protocol) (\<lambda>v.
     map_err (\<lambda>_. Ae_Protocol) (from_unix (ts_seconds v) (ts_nanos v)))"

definition height_i64 :: "nat \<Rightarrow> abci_error + int" where
  "height_i64 n = (if n \<le> MAX_UNITS then Inr (int n) else Inl Ae_Protocol)"

definition block_id :: "bytes \<Rightarrow> abci_error + bytes" where
  "block_id b = (if length b \<noteq> 32 then Inl Ae_Protocol else if b = zero32 then Inl Ae_Protocol else Inr b)"

definition bounded_commands :: "bytes list \<Rightarrow> bool" where
  "bounded_commands cs \<longleftrightarrow>
     length cs \<le> MAX_BLOCK_COMMANDS \<and> list_all (\<lambda>tx. length tx \<le> 4096) cs
     \<and> (case foldl (\<lambda>acc tx. Option.bind acc (\<lambda>n. checked_add_u64 n (length tx))) (Some 0) cs of
          None \<Rightarrow> False | Some n \<Rightarrow> n \<le> MAX_BLOCK_BYTES)"

definition rejection :: "tx_error \<Rightarrow> abci_error + command_failure" where
  "rejection e = (case e of
       Tx_Invalid \<Rightarrow> Inr Cf_Invalid
     | Tx_Unauthorized \<Rightarrow> Inr Cf_Unauthorized
     | Tx_WrongLedger \<Rightarrow> Inr Cf_WrongLedger
     | Tx_NotLive \<Rightarrow> Inr Cf_NotLive
     | Tx_Conflict \<Rightarrow> Inr Cf_Conflict
     | Tx_Replay \<Rightarrow> Inr Cf_Replay
     | Tx_Insufficient \<Rightarrow> Inr Cf_Insufficient
     | Tx_NotFound \<Rightarrow> Inr Cf_NotFound
     | Tx_State \<Rightarrow> Inr Cf_State
     | Tx_Capacity \<Rightarrow> Inr Cf_Capacity
     | other \<Rightarrow> Inl (Ae_Store other))"

definition app_info :: "abci_env \<Rightarrow> application \<Rightarrow> abci_error + response_info" where
  "app_info env a = (case ap_store a of
       None \<Rightarrow> Inr \<lparr>ri_last_block_height = 0, ri_last_block_app_hash = []\<rparr>
     | Some s \<Rightarrow>
         rbind (map_err Ae_Store (info (ae_ordered env) s)) (\<lambda>v.
         rbind (height_i64 (br_height v)) (\<lambda>h.
         Inr \<lparr>ri_last_block_height = h, ri_last_block_app_hash = br_app_hash v\<rparr>)))"

definition validator_key :: "abci_env \<Rightarrow> validator_update \<Rightarrow> abci_error + string" where
  "validator_key env v = (case vu_ed25519 v of
       Some k \<Rightarrow> if length k = 32 \<and> vu_power v = 10 then Inr (ae_hex_encode env k) else Inl Ae_Configuration
     | None \<Rightarrow> Inl Ae_Configuration)"

text \<open>The checks of \<^verbatim>\<open>init_chain\<close> up to the store, which is created when there is none.\<close>

definition init_chain_store ::
  "abci_env \<Rightarrow> tx_error option \<Rightarrow> request_init_chain \<Rightarrow> application \<Rightarrow> abci_error + ordered_store" where
  "init_chain_store env fs q a =
     (let g = ap_genesis a in
      if ap_pending a \<noteq> None \<or> ic_chain_id q \<noteq> ag_chain_id g \<or> ic_initial_height q \<noteq> 1
      then Inl Ae_Configuration else
      rbind (agreed_time (ic_time q)) (\<lambda>t.
      rbind (genesis_time g) (\<lambda>gt.
      if t \<noteq> gt \<or> ic_consensus_params q \<noteq> Some the_consensus_params then Inl Ae_Configuration else
      rbind (genesis_from_json env (ic_app_state_bytes q)) (\<lambda>supplied.
      if supplied \<noteq> g then Inl Ae_Configuration else
      rbind (rtraverse (validator_key env) (ic_validators q)) (\<lambda>actual.
      if sort actual \<noteq> ag_validators g then Inl Ae_Configuration else
      case ap_store a of
        Some s \<Rightarrow> Inr s
      | None \<Rightarrow>
          rbind (authority env g) (\<lambda>auth.
          rbind (genesis_accounts env g) (\<lambda>accounts.
          map_err Ae_Store (create_ordered (ae_ordered env) fs True auth accounts gt))))))))"

definition init_chain ::
  "abci_env \<Rightarrow> tx_error option \<Rightarrow> request_init_chain \<Rightarrow> application \<Rightarrow>
   (abci_error + response_init_chain) \<times> application" where
  "init_chain env fs q a =
     (case init_chain_store env fs q a of
        Inl e \<Rightarrow> (Inl e, a)
      | Inr s \<Rightarrow>
          (rbind (map_err Ae_Store (info (ae_ordered env) s)) (\<lambda>i.
           if br_height i \<noteq> 0 then Inl Ae_Protocol else
           rbind (validator_updates env (ap_genesis a)) (\<lambda>updates.
           Inr \<lparr>rn_consensus_params = Some the_consensus_params, rn_validators = updates,
                rn_app_hash = br_app_hash i\<rparr>)),
           a\<lparr>ap_store := Some s\<rparr>))"

definition check_tx :: "abci_env \<Rightarrow> request_check_tx \<Rightarrow> application \<Rightarrow> abci_error + nat" where
  "check_tx env q a =
     (if \<not> ae_check_tx_type_ok env (ct_type q) then Inl Ae_Protocol else
      rbind (app_store a) (\<lambda>s.
      case inspect_ordered (ae_ordered env) s (ct_tx q) of
        Inr _ \<Rightarrow> Inr 0
      | Inl e \<Rightarrow> rbind (rejection e) (\<lambda>f. Inr (failure_code f))))"

definition try_u64 :: "int \<Rightarrow> nat option" where
  "try_u64 h = (if h < 0 then None else Some (nat h))"

definition proposal_position ::
  "abci_env \<Rightarrow> int \<Rightarrow> timestamp option \<Rightarrow> application \<Rightarrow> abci_error + bool" where
  "proposal_position env height time a =
     rbind (app_store a) (\<lambda>s.
     rbind (map_err Ae_Store (info (ae_ordered env) s)) (\<lambda>current.
     case agreed_time time of
       Inl _ \<Rightarrow> Inr False
     | Inr t \<Rightarrow> Inr (try_u64 height = checked_add_u64 (br_height current) 1
                     \<and> \<not> time_less t (br_time current))))"

text \<open>The selection loop of \<^verbatim>\<open>prepare\<close>: \<open>used\<close> bytes and \<open>count\<close> commands are already taken.\<close>

fun select_txs :: "nat \<Rightarrow> nat \<Rightarrow> nat \<Rightarrow> bytes list \<Rightarrow> bytes list" where
  "select_txs max_bytes used count [] = []"
| "select_txs max_bytes used count (tx # txs) =
     (if count = MAX_BLOCK_COMMANDS then []
      else if length tx \<le> 4096 \<and> length tx \<le> max_bytes - used
      then tx # select_txs max_bytes (used + length tx) (count + 1) txs
      else select_txs max_bytes used count txs)"

definition prepare :: "abci_env \<Rightarrow> request_prepare \<Rightarrow> application \<Rightarrow> abci_error + bytes list" where
  "prepare env q a =
     rbind (proposal_position env (pp_height q) (pp_time q) a) (\<lambda>ok.
     if \<not> ok then Inl Ae_Protocol
     else if pp_max_tx_bytes q < 0 then Inl Ae_Protocol
     else Inr (select_txs (min (nat (pp_max_tx_bytes q)) MAX_BLOCK_BYTES) 0 0 (pp_txs q)))"

definition process :: "abci_env \<Rightarrow> request_block \<Rightarrow> application \<Rightarrow> abci_error + bool" where
  "process env q a =
     rbind (proposal_position env (fb_height q) (fb_time q) a) (\<lambda>ok.
     Inr (ok \<and> is_ok (block_id (fb_hash q)) \<and> bounded_commands (fb_txs q)))"

definition finalize ::
  "abci_env \<Rightarrow> sqlite_faults \<Rightarrow> request_block \<Rightarrow> application \<Rightarrow> abci_error + response_finalize \<times> application" where
  "finalize env faults q a =
     rbind (ok_or (try_u64 (fb_height q)) Ae_Protocol) (\<lambda>h.
     rbind (block_id (fb_hash q)) (\<lambda>i.
     rbind (agreed_time (fb_time q)) (\<lambda>t.
     rbind (app_store a) (\<lambda>s.
     case stage (ae_ordered env) faults
            \<lparr>bk_height = h, bk_block_id = i, bk_time = t, bk_commands = fb_txs q\<rparr> s of
       (Inl e, _) \<Rightarrow> Inl (Ae_Store e)
     | (Inr staged, s') \<Rightarrow>
         Inr (\<lparr>rf_tx_results = map (\<lambda>o'. \<lparr>et_code = (case bo_result o' of Inr _ \<Rightarrow> 0 | Inl f \<Rightarrow> failure_code f),
                 et_data = bo_command_sha256 o'\<rparr>) (sb_outcomes staged),
               rf_app_hash = sb_app_hash staged\<rparr>,
              a\<lparr>ap_store := Some s', ap_pending := Some (sb_block_id staged)\<rparr>)))))"

definition app_commit ::
  "abci_env \<Rightarrow> sqlite_faults \<Rightarrow> application \<Rightarrow> abci_error + application" where
  "app_commit env faults a =
     rbind (ok_or (ap_pending a) Ae_Protocol) (\<lambda>i.
     rbind (app_store a) (\<lambda>s.
     case commit_inner (ae_ordered env) faults i s of
       (Inl e, _) \<Rightarrow> Inl (Ae_Store e)
     | (Inr _, s') \<Rightarrow> Inr (a\<lparr>ap_store := Some s', ap_pending := None\<rparr>)))"

definition query :: "abci_env \<Rightarrow> request_query \<Rightarrow> application \<Rightarrow> abci_error + response_query" where
  "query env q a =
     rbind (app_store a) (\<lambda>s.
     rbind (map_err Ae_Store (info (ae_ordered env) s)) (\<lambda>current.
     rbind (height_i64 (br_height current)) (\<lambda>h.
     let rejected = \<lparr>rq_code = 100, rq_height = h, rq_value = None\<rparr>;
         found = (\<lambda>v. \<lparr>rq_code = 0, rq_height = h, rq_value = Some v\<rparr>) in
     if qy_prove q \<or> (qy_height q \<noteq> 0 \<and> qy_height q \<noteq> h) then Inr rejected
     else if qy_path q = ''/test/info'' \<and> qy_data q = []
     then Inr (found (Qv_Info (br_height current) (br_app_hash current) (ledger_of s)))
     else if qy_path q = ''/test/balance'' \<and> length (qy_data q) = 32
     then (case status (os_store s) (qy_data q) of
             Inr b \<Rightarrow> Inr (found (Qv_Balance (available_units b) (reserved_units b)))
           | Inl e \<Rightarrow> if e = Tx_NotFound then Inr rejected else Inl (Ae_Store e))
     else if qy_path q = ''/test/operation'' \<and> length (qy_data q) = 32
     then rbind (map_err Ae_Store (operation (os_store s) (qy_data q))) (\<lambda>r.
            case r of Some v \<Rightarrow> Inr (found (Qv_Operation v)) | None \<Rightarrow> Inr rejected)
     else Inr rejected)))"

section \<open>Handling one request\<close>

text \<open>What the environment contributes to one request: SQLite faults and the file-system outcome.\<close>

record app_faults =
  af_sqlite :: sqlite_faults
  af_create :: "tx_error option"

definition reply :: "('a \<Rightarrow> response) \<Rightarrow> application \<Rightarrow> abci_error + 'a \<Rightarrow> (abci_error + response) \<times> application"
where
  "reply f a r = (case r of Inl e \<Rightarrow> (Inl e, a) | Inr v \<Rightarrow> (Inr (f v), a))"

definition handle_inner ::
  "abci_env \<Rightarrow> app_faults \<Rightarrow> request option \<Rightarrow> application \<Rightarrow> (abci_error + response) \<times> application" where
  "handle_inner env faults q a =
     (if ae_request_len env q > MAX_FRAME_BYTES then (Inl Ae_Protocol, a) else
      case q of None \<Rightarrow> (Inl Ae_Protocol, a) | Some value \<Rightarrow>
     (case value of
        Q_Echo m \<Rightarrow> (Inr (R_Echo m), a)
      | Q_Flush \<Rightarrow> (Inr R_Flush, a)
      | Q_Info \<Rightarrow> reply R_Info a (app_info env a)
      | Q_InitChain v \<Rightarrow>
          (case init_chain env (af_create faults) v a of (r, a') \<Rightarrow> reply R_InitChain a' r)
      | Q_CheckTx v \<Rightarrow> reply R_CheckTx a (check_tx env v a)
      | Q_PrepareProposal v \<Rightarrow> reply R_PrepareProposal a (prepare env v a)
      | Q_ProcessProposal v \<Rightarrow> reply R_ProcessProposal a (process env v a)
      | Q_FinalizeBlock v \<Rightarrow>
          (case finalize env (af_sqlite faults) v a of
             Inl e \<Rightarrow> (Inl e, a) | Inr (r, a') \<Rightarrow> (Inr (R_FinalizeBlock r), a'))
      | Q_Commit \<Rightarrow>
          (case app_commit env (af_sqlite faults) a of
             Inl e \<Rightarrow> (Inl e, a) | Inr a' \<Rightarrow> (Inr (R_Commit 0), a'))
      | Q_Query v \<Rightarrow> reply R_Query a (query env v a)
      | Q_ListSnapshots \<Rightarrow> (Inr R_ListSnapshots, a)
      | Q_OfferSnapshot \<Rightarrow> (Inr R_OfferSnapshot_Reject, a)
      | Q_ApplySnapshotChunk \<Rightarrow> (Inr R_ApplySnapshotChunk_Abort, a)
      | _ \<Rightarrow> (Inl Ae_Protocol, a)))"

definition handle ::
  "abci_env \<Rightarrow> app_faults \<times> request option \<Rightarrow> application \<Rightarrow> (abci_error + response) \<times> application" where
  "handle env q a =
     (if ap_failed a then (Inl Ae_Protocol, a)
      else case handle_inner env (fst q) (snd q) a of
        (Inl e, a') \<Rightarrow> (Inl e, a'\<lparr>ap_failed := True\<rparr>)
      | (Inr r, a') \<Rightarrow> (Inr r, a'))"

section \<open>Frames of the socket\<close>

text \<open>
  Length prefixes in groups of seven bits, least significant first, at most three of them. Time-outs
  and socket errors are not part of the model; reading a frame from a stream that ends gives an
  error, and from an empty stream no frame.
\<close>

datatype abci_frame_error = Afe_Protocol | Afe_Eof

text \<open>The loop \<^verbatim>\<open>for index in 0..3\<close> with the bytes read so far; \<open>acc\<close> is \<^verbatim>\<open>length\<close>.\<close>

fun read_frame_loop :: "nat \<Rightarrow> nat \<Rightarrow> bytes \<Rightarrow> abci_frame_error + bytes \<times> bytes" where
  "read_frame_loop index acc [] = Inl Afe_Eof"
| "read_frame_loop index acc (b # rest) =
     (if index \<ge> 3 then Inl Afe_Protocol else
      let acc' = acc + (unat b mod 128) * 128 ^ index in
      if unat b < 128 then
        (if acc' = 0 \<or> acc' > MAX_FRAME_BYTES then Inl Afe_Protocol
         else if length rest < acc' then Inl Afe_Eof
         else Inr (take acc' rest, drop acc' rest))
      else if index < 2 then read_frame_loop (index + 1) acc' rest
      else Inl Afe_Protocol)"

definition read_frame :: "bytes \<Rightarrow> abci_frame_error + (bytes \<times> bytes) option" where
  "read_frame stream =
     (if stream = [] then Inr None
      else rbind (read_frame_loop 0 0 stream) (\<lambda>r. Inr (Some r)))"

fun frame_prefix :: "nat \<Rightarrow> bytes" where
  "frame_prefix n =
     (if n \<ge> 128 then word_of_nat (n mod 128 + 128) # frame_prefix (n div 128) else [word_of_nat n])"

declare frame_prefix.simps [simp del]

definition write_frame :: "bytes \<Rightarrow> abci_frame_error + bytes" where
  "write_frame bs =
     (if bs = [] \<or> length bs > MAX_FRAME_BYTES then Inl Afe_Protocol
      else Inr (frame_prefix (length bs) @ bs))"

end
