(* ===== verification/Tx_Equiv.thy ===== *)
theory Tx_Equiv
  imports Tx_Apply Tx_Ordered "HOL-Library.Multiset"
begin

text \<open>
  The order of rows in a table is not observable: databases with the same rows behave alike. This
  is what lets a block computed on a copy of the tables, whose rows are in key order, be replayed on
  the durable tables, whose rows are in insertion order.
\<close>

definition db_equiv :: "db \<Rightarrow> db \<Rightarrow> bool" where
  "db_equiv d d' \<longleftrightarrow>
     db_meta d = db_meta d' \<and> mset (db_accounts d) = mset (db_accounts d')
     \<and> mset (db_reservations d) = mset (db_reservations d') \<and> db_operations d = db_operations d'"

definition keys_distinct :: "db \<Rightarrow> bool" where
  "keys_distinct d \<longleftrightarrow>
     distinct (map ac_owner (db_accounts d)) \<and> distinct (map rv_id (db_reservations d))"

section \<open>Tables with the same rows\<close>

lemma find_row_mset:
  assumes "mset xs = mset ys" "distinct (map key xs)"
  shows "find_row key k xs = find_row key k ys"
proof (cases "find_row key k xs")
  case None
  then have "k \<notin> key ` set xs" by (simp add: find_row_None)
  with assms(1) have "k \<notin> key ` set ys" by (metis set_mset_mset)
  with None show ?thesis by (metis find_row_None)
next
  case (Some r)
  note fr = find_row_SomeD [OF Some]
  from assms have "distinct (map key ys)" by (metis mset_eq_imp_distinct_iff mset_map)
  moreover from fr assms(1) have "r \<in> set ys" "key r = k" by (metis set_mset_mset, simp)
  ultimately have "find_row key k ys = Some r" by (metis find_row_in)
  with Some show ?thesis by simp
qed

lemma mset_upd_rows:
  "mset xs = mset ys \<Longrightarrow> mset (upd_rows key k g xs) = mset (upd_rows key k g ys)"
  by (simp add: upd_rows_def)

lemma length_filter_mset_eq: "mset xs = mset ys \<Longrightarrow> length (filter P xs) = length (filter P ys)"
  by (metis mset_filter size_mset)

lemma sum_list_mset_eq: "mset xs = mset ys \<Longrightarrow> sum_list (map f xs) = sum_list (map f (ys :: 'a list))" for f :: "'a \<Rightarrow> nat"
  by (metis mset_map sum_mset_sum_list)

lemma rtraverse_const_error:
  assumes "\<And>x e. x \<in> set xs \<Longrightarrow> f x = Inl e \<Longrightarrow> e = E"
  shows "rtraverse f xs = (if \<forall>x \<in> set xs. is_ok (f x) then Inr (map (projr \<circ> f) xs) else Inl E)"
  using assms
proof (induction xs)
  case (Cons x xs)
  have "rtraverse f xs = (if \<forall>x \<in> set xs. is_ok (f x) then Inr (map (projr \<circ> f) xs) else Inl E)"
    by (rule Cons.IH) (use Cons.prems in auto)
  with Cons.prems [of x] show ?case by (cases "f x") auto
qed simp

section \<open>Queries on equivalent databases\<close>

lemma db_equiv_sym: "db_equiv d d' \<Longrightarrow> db_equiv d' d"
  by (simp add: db_equiv_def)

lemma db_equiv_sets:
  assumes "db_equiv d d'"
  shows "set (db_accounts d) = set (db_accounts d')" "set (db_reservations d) = set (db_reservations d')"
    "length (db_accounts d) = length (db_accounts d')" "owners d = owners d'"
    "length (db_reservations d) = length (db_reservations d')"
proof -
  from assms have m: "mset (db_accounts d) = mset (db_accounts d')"
    "mset (db_reservations d) = mset (db_reservations d')" by (simp_all add: db_equiv_def)
  then show "set (db_accounts d) = set (db_accounts d')" "set (db_reservations d) = set (db_reservations d')"
    "length (db_accounts d) = length (db_accounts d')" "length (db_reservations d) = length (db_reservations d')"
    by (metis set_mset_mset, metis set_mset_mset, metis size_mset, metis size_mset)
  then show "owners d = owners d'" by (simp add: owners_def)
qed

lemma keys_distinct_equiv: "db_equiv d d' \<Longrightarrow> keys_distinct d \<Longrightarrow> keys_distinct d'"
  unfolding db_equiv_def keys_distinct_def by (metis mset_eq_imp_distinct_iff mset_map)

lemma find_rows_equiv:
  assumes "db_equiv d d'" "keys_distinct d"
  shows "find_row ac_owner k (db_accounts d) = find_row ac_owner k (db_accounts d')"
    "find_row rv_id k (db_reservations d) = find_row rv_id k (db_reservations d')"
  using assms by (auto simp: db_equiv_def keys_distinct_def intro: find_row_mset)

lemma pending_equiv:
  assumes "db_equiv d d'"
  shows "pending_count d = pending_count d'" "sum_list (pending_units d k) = sum_list (pending_units d' k)"
proof -
  from assms have m: "mset (db_reservations d) = mset (db_reservations d')" by (simp add: db_equiv_def)
  then show "pending_count d = pending_count d'"
    unfolding pending_count_def by (rule length_filter_mset_eq)
  from m show "sum_list (pending_units d k) = sum_list (pending_units d' k)"
    unfolding pending_units_def by (intro sum_list_mset_eq) simp
qed

lemma total_equiv:
  assumes "db_equiv d d'"
  shows "sum_list (map ac_available (db_accounts d)) = sum_list (map ac_available (db_accounts d'))"
    "sum_list (map ac_reserved (db_accounts d)) = sum_list (map ac_reserved (db_accounts d'))"
  using assms by (auto simp: db_equiv_def intro: sum_list_mset_eq)

lemma ledger_ok_equiv:
  assumes eq: "db_equiv d d'" and ok: "ledger_ok d"
  shows "ledger_ok d'"
proof -
  have "keys_distinct d" using ok by (simp add: ledger_ok_defs keys_distinct_def)
  with eq have "keys_distinct d'" by (rule keys_distinct_equiv)
  then show ?thesis
    using ok db_equiv_sets [OF eq] pending_equiv [OF eq] total_equiv [OF eq] eq
    by (simp add: ledger_ok_defs keys_distinct_def db_equiv_def db_supply_def total_available_def
        total_reserved_def)
qed

lemma ledger_keys_distinct: "ledger_ok d \<Longrightarrow> keys_distinct d"
  by (simp add: ledger_ok_defs keys_distinct_def)

lemma rtraverse_count_mset:
  assumes "mset xs = mset ys" and "\<And>x e. f x = Inl e \<Longrightarrow> e = E"
  shows "rbind (rtraverse f xs) (\<lambda>bs. Inr (length (filter (\<lambda>b. b) bs))) =
    rbind (rtraverse f ys) (\<lambda>bs. Inr (length (filter (\<lambda>b. b) bs)))"
proof -
  have eq: "rtraverse f zs = (if \<forall>x \<in> set zs. is_ok (f x) then Inr (map (projr \<circ> f) zs) else Inl E)" for zs
    by (rule rtraverse_const_error) (rule assms(2))
  have st: "set xs = set ys" using assms(1) by (metis set_mset_mset)
  have len: "length (filter (\<lambda>b. b) (map (projr \<circ> f) xs)) = length (filter (\<lambda>b. b) (map (projr \<circ> f) ys))"
    using assms(1) by (intro length_filter_mset_eq) simp
  show ?thesis
  proof (cases "\<forall>x \<in> set ys. is_ok (f x)")
    case True
    show ?thesis unfolding eq st if_P [OF True] rbind_simps len ..
  next
    case False
    show ?thesis unfolding eq st if_not_P [OF False] rbind_simps ..
  qed
qed

lemma count_mismatches_equiv:
  assumes eq: "db_equiv d d'"
  shows "count_mismatches d = count_mismatches d'"
proof -
  let ?f = "\<lambda>d a. rbind (sql_sum (pending_units d (ac_owner a))) (\<lambda>s. Inr (ac_reserved a \<noteq> s))"
  have f: "?f d = ?f d'" by (simp add: sql_sum_def pending_equiv [OF eq] fun_eq_iff)
  have e: "e = Tx_Database" if "?f d' a = Inl e" for a e
    using that by (auto simp: sql_sum_def sql_int_def result_simps split: if_splits)
  from eq have "mset (db_accounts d) = mset (db_accounts d')" by (simp add: db_equiv_def)
  then show ?thesis unfolding count_mismatches_def f by (rule rtraverse_count_mset) (rule e)
qed

lemma validate_accounting_equiv:
  assumes eq: "db_equiv d d'"
  shows "validate_accounting d = validate_accounting d'"
proof -
  from eq have eqs: "db_meta d = db_meta d'" "db_operations d = db_operations d'" by (simp_all add: db_equiv_def)
  show ?thesis
    unfolding validate_accounting_def count_mismatches_equiv [OF eq] sql_sum_def total_equiv [OF eq]
      pending_equiv(1) [OF eq] db_equiv_sets(3) [OF eq] eqs ..
qed

section \<open>Commands on equivalent databases\<close>

abbreviation same_result :: "('a \<Rightarrow> 'b \<Rightarrow> bool) \<Rightarrow> tx_error + 'a \<Rightarrow> tx_error + 'b \<Rightarrow> bool" where
  "same_result R \<equiv> rel_sum (=) R"

lemma rbind_same:
  assumes "same_result A r r'" "\<And>a b. A a b \<Longrightarrow> same_result B (f a) (g b)"
  shows "same_result B (rbind r f) (rbind r' g)"
  using assms by (cases r; cases r') auto

lemma rbind_same_eq:
  assumes "\<And>a. r = Inr a \<Longrightarrow> same_result B (f a) (g a)"
  shows "same_result B (rbind r f) (rbind r g)"
  using assms by (cases r) auto

lemma account_equiv: "db_equiv d d' \<Longrightarrow> keys_distinct d \<Longrightarrow> account d k = account d' k"
  by (simp add: account_def find_rows_equiv)

lemma update_account_equiv: "db_equiv d d' \<Longrightarrow> db_equiv (update_account k g d) (update_account k g d')"
  by (auto simp: db_equiv_def update_account_def intro: mset_upd_rows)

lemma update_reservation_equiv:
  "db_equiv d d' \<Longrightarrow> db_equiv (update_reservation_state k n d) (update_reservation_state k n d')"
  by (auto simp: db_equiv_def update_reservation_state_def intro: mset_upd_rows)

lemma insert_reservation_equiv:
  assumes eq: "db_equiv d d'"
  shows "same_result db_equiv (insert_reservation r d) (insert_reservation r d')"
  unfolding insert_reservation_def db_equiv_sets(1,2) [OF eq]
  by (rule rbind_same_eq) (use eq in \<open>simp add: db_equiv_def\<close>)

lemma insert_operation_equiv:
  assumes eq: "db_equiv d d'"
  shows "same_result db_equiv (insert_operation r d) (insert_operation r d')"
proof -
  from eq have ops: "db_operations d = db_operations d'" by (simp add: db_equiv_def)
  show ?thesis
    unfolding insert_operation_def db_equiv_sets(1,2) [OF eq] ops
    by (rule rbind_same_eq) (use eq in \<open>simp add: db_equiv_def\<close>)
qed

lemma reserve_transition_equiv:
  assumes "db_equiv d d'" "keys_distinct d"
  shows "same_result (rel_prod (=) (rel_prod (=) db_equiv))
    (reserve_transition d i p r n) (reserve_transition d' i p r n)"
  unfolding reserve_transition_def account_equiv [OF assms] Let_def
  by (intro rbind_same_eq rbind_same [OF insert_reservation_equiv] update_account_equiv assms) auto

lemma complete_transition_equiv:
  assumes "db_equiv d d'" "keys_distinct d"
  shows "same_result (rel_prod (=) (rel_prod (=) db_equiv))
    (complete_transition d p i commit) (complete_transition d' p i commit)"
  unfolding complete_transition_def account_equiv [OF assms] find_rows_equiv [OF assms] Let_def
  by (intro rbind_same_eq)
    (auto intro!: rbind_same_eq update_account_equiv update_reservation_equiv assms)

lemma transition_equiv:
  assumes "db_equiv d d'" "keys_distinct d"
  shows "same_result (rel_prod (=) (rel_prod (=) db_equiv)) (transition d c) (transition d' c)"
  unfolding transition_def
  by (cases "cm_action c") (simp_all add: reserve_transition_equiv complete_transition_equiv assms)

lemma receipt_of_equiv: "db_equiv d d' \<Longrightarrow> receipt_of d ledger i = receipt_of d' ledger i"
  by (simp add: receipt_of_def db_equiv_def)

lemma apply_command_equiv:
  assumes eq: "db_equiv d d'" and dist: "keys_distinct d"
  shows "same_result (rel_prod (=) db_equiv)
    (apply_command env d ledger m bs now) (apply_command env d' ledger m bs now)"
proof -
  from eq have ops: "db_operations d = db_operations d'" by (simp add: db_equiv_def)
  have tail: "same_result (rel_prod (=) db_equiv)
      (rbind (insert_operation row d1) (\<lambda>d2. rbind (validate_accounting d2) (\<lambda>_. Inr (r, d2))))
      (rbind (insert_operation row d1') (\<lambda>d2. rbind (validate_accounting d2) (\<lambda>_. Inr (r, d2))))"
    if "db_equiv d1 d1'" for d1 d1' row and r :: receipt
    by (rule rbind_same [OF insert_operation_equiv [OF that]])
      (auto simp: validate_accounting_equiv intro!: rbind_same_eq)
  show ?thesis
    unfolding apply_command_def account_equiv [OF eq dist] receipt_of_equiv [OF eq] ops
      pending_equiv(1) [OF eq] Let_def
    by (intro rbind_same_eq)
      (auto split: option.split intro!: rbind_same_eq rbind_same [OF transition_equiv [OF eq dist]] tail eq)
qed

section \<open>Snapshots of equivalent databases\<close>

lemma sort_key_mset:
  assumes "mset xs = mset ys" "distinct (map f xs)"
  shows "sort_key f xs = sort_key f ys"
proof -
  have "inj_on f (set xs)" using assms(2) by (simp add: distinct_map)
  moreover have "mset xs = mset (sort_key f ys)" using assms(1) by simp
  ultimately show ?thesis by (intro sort_key_inj_key_eq) simp_all
qed

lemma capture_equiv:
  assumes "db_equiv d d'" "keys_distinct d"
  shows "capture d = capture d'"
proof -
  from assms have "db_meta d = db_meta d'" "db_operations d = db_operations d'"
    "sort_key ac_owner (db_accounts d) = sort_key ac_owner (db_accounts d')"
    "sort_key rv_id (db_reservations d) = sort_key rv_id (db_reservations d')"
    by (auto simp: db_equiv_def keys_distinct_def intro: sort_key_mset)
  then show ?thesis unfolding capture_def validate_accounting_equiv [OF assms(1)] by simp
qed

lemma state_hash_equiv:
  "db_equiv d d' \<Longrightarrow> keys_distinct d \<Longrightarrow> state_hash env d genesis r = state_hash env d' genesis r"
  by (simp add: state_hash_def capture_equiv [of d d'])

section \<open>The copy in memory has the rows of the database\<close>

lemma capture_table_Inr:
  assumes "capture_table n rows = Inr t"
  shows "t = map (map Some) rows"
proof -
  have row: "rtraverse capture_cell r = Inr r' \<Longrightarrow> r' = map Some r" for r r'
    by (induction r arbitrary: r')
      (auto simp: result_simps capture_cell_def split: scalar.splits if_splits)
  from assms have "rtraverse (rtraverse capture_cell) rows = Inr t"
    by (simp add: capture_table_def split: if_splits)
  then show ?thesis
    by (induction rows arbitrary: t) (auto simp: result_simps row)
qed

lemma copy_row_cells:
  assumes "rtraverse copy_cell (map Some r) = Inr v"
  shows "v = r"
  using assms
  by (induction r arbitrary: v) (auto simp: result_simps copy_cell_def split: scalar.splits if_splits)

text \<open>A table whose insert statement appends the row it is given is copied row by row.\<close>

lemma copy_rows_append:
  assumes ins: "\<And>r d d'. ins (cells r) d = Inr d' \<Longrightarrow> d' = upd r d"
    and "copy_rows ins (map (map Some) (map cells rows)) d = Inr d'"
  shows "d' = fold upd rows d"
  using assms(2)
proof (induction rows arbitrary: d)
  case (Cons r rows)
  then obtain d1 where "ins (cells r) d = Inr d1"
    and rec: "copy_rows ins (map (map Some) (map cells rows)) d1 = Inr d'"
    by (auto simp: result_simps dest!: copy_row_cells)
  with ins have "d1 = upd r d" by blast
  with Cons.IH [OF rec] show ?case by simp
qed simp

lemma column_simps [simp]:
  "int_column (Sc_Integer n) = Inr n" "blob_column (Sc_Blob b) = Inr b" "text_column (Sc_Text t) = Inr t"
  by (simp_all add: int_column_def blob_column_def text_column_def)

lemma fold_append_rows:
  "fold (\<lambda>r d. d\<lparr>db_meta := db_meta d @ [r]\<rparr>) ms d = d\<lparr>db_meta := db_meta d @ ms\<rparr>"
  "fold (\<lambda>r d. d\<lparr>db_accounts := db_accounts d @ [r]\<rparr>) as d = d\<lparr>db_accounts := db_accounts d @ as\<rparr>"
  "fold (\<lambda>r d. d\<lparr>db_reservations := db_reservations d @ [r]\<rparr>) rs d =
     d\<lparr>db_reservations := db_reservations d @ rs\<rparr>"
  "fold (\<lambda>r d. d\<lparr>db_operations := db_operations d @ [r]\<rparr>) os d = d\<lparr>db_operations := db_operations d @ os\<rparr>"
  by (induction ms arbitrary: d, simp_all) (induction as arbitrary: d, simp_all,
      induction rs arbitrary: d, simp_all, induction os arbitrary: d, simp_all)

lemma copy_meta_rows:
  assumes "copy_rows insert_meta_cells (map (map Some) (map meta_cells rows)) d = Inr d'"
  shows "d' = d\<lparr>db_meta := db_meta d @ rows\<rparr>"
  using copy_rows_append [OF _ assms, of "\<lambda>r d. d\<lparr>db_meta := db_meta d @ [r]\<rparr>"]
  by (auto simp: fold_append_rows insert_meta_cells_def meta_cells_def insert_meta_def result_simps split: if_splits)

lemma copy_account_rows:
  assumes "copy_rows insert_account_cells (map (map Some) (map account_cells rows)) d = Inr d'"
  shows "d' = d\<lparr>db_accounts := db_accounts d @ rows\<rparr>"
  using copy_rows_append [OF _ assms, of "\<lambda>r d. d\<lparr>db_accounts := db_accounts d @ [r]\<rparr>"]
  by (auto simp: fold_append_rows insert_account_cells_def account_cells_def insert_account_def result_simps split: if_splits)

lemma copy_reservation_rows:
  assumes "copy_rows insert_reservation_cells (map (map Some) (map reservation_cells rows)) d = Inr d'"
  shows "d' = d\<lparr>db_reservations := db_reservations d @ rows\<rparr>"
  using copy_rows_append [OF _ assms, of "\<lambda>r d. d\<lparr>db_reservations := db_reservations d @ [r]\<rparr>"]
  by (auto simp: fold_append_rows insert_reservation_cells_def reservation_cells_def insert_reservation_def
      result_simps split: if_splits)

lemma copy_operation_rows:
  assumes "copy_rows insert_operation_cells (map (map Some) (map operation_cells rows)) d = Inr d'"
  shows "d' = d\<lparr>db_operations := db_operations d @ rows\<rparr>"
  using copy_rows_append [OF _ assms, of "\<lambda>r d. d\<lparr>db_operations := db_operations d @ [r]\<rparr>"]
  by (auto simp: fold_append_rows insert_operation_cells_def operation_cells_def insert_operation_def
      result_simps split: if_splits)

lemma memory_copy_equiv:
  assumes cap: "capture d = Inr snap" and mem: "memory_copy snap = Inr d'" and ok: "operations_ok d"
  shows "db_equiv d d'"
proof -
  let ?ms = "sort_key mt_singleton (db_meta d)" and ?as = "sort_key ac_owner (db_accounts d)"
    and ?rs = "sort_key rv_id (db_reservations d)" and ?os = "sort_key op_sequence (db_operations d)"
  from cap obtain t1 t2 t3 t4 where t: "capture_table 1 (map meta_cells ?ms) = Inr t1"
      "capture_table MAX_ACCOUNTS (map account_cells ?as) = Inr t2"
      "capture_table MAX_OPERATIONS (map reservation_cells ?rs) = Inr t3"
      "capture_table MAX_OPERATIONS (map operation_cells ?os) = Inr t4"
    and snap: "snap = [t1, t2, t3, t4]"
    by (auto simp: capture_def result_simps)
  have m1: "length (db_meta d) \<le> 1" using t(1) by (simp add: capture_table_def split: if_splits)
  then have ms: "?ms = db_meta d" by (cases "db_meta d") auto
  have "sorted (map op_sequence (db_operations d))"
    using ok by (simp add: operations_ok_def del: upt_Suc)
  then have os: "?os = db_operations d" by (rule sort_key_id_if_sorted)
  note ts = t [THEN capture_table_Inr]
  from mem obtain d1 d2 d3 where copies:
      "copy_rows insert_meta_cells t1 schema = Inr d1" "copy_rows insert_account_cells t2 d1 = Inr d2"
      "copy_rows insert_reservation_cells t3 d2 = Inr d3" "copy_rows insert_operation_cells t4 d3 = Inr d'"
    by (auto simp: memory_copy_def snap result_simps)
  note copies [unfolded ts]
  from copy_meta_rows [OF this(1)] copy_account_rows [OF this(2)] copy_reservation_rows [OF this(3)]
    copy_operation_rows [OF this(4)]
  show ?thesis by (simp add: db_equiv_def schema_def ms os)
qed

end
