(* ===== verification/Tx_Ordered_Correct.thy ===== *)
theory Tx_Ordered_Correct
  imports Tx_Equiv
begin

text \<open>
  Correctness of ordered execution: a block never aborts on a healthy ledger and its outcomes are
  those of its commands in order; staging has no durable effect; a staged block commits to exactly
  what was staged; the committed checkpoint reloads, and heights and times advance.
\<close>

section \<open>Executing a block\<close>

lemma classify_rejection: "e \<in> rejections \<Longrightarrow> \<exists>f. classify e = Inr f"
  by (auto simp: rejections_def wire_errors_def classify_def)

text \<open>The outcome recorded for a command is the answer of the ledger to it.\<close>

definition outcome_matches :: "wire_env \<Rightarrow> outcome_wire \<Rightarrow> bytes \<Rightarrow> tx_error + receipt \<Rightarrow> bool" where
  "outcome_matches env o' c res \<longleftrightarrow> ow_hash o' = we_sha256 env c
     \<and> (case res of
          Inr r \<Rightarrow> ow_code o' = 0 \<and> ow_receipt o' = Some (receipt_wire_from r)
        | Inl e \<Rightarrow> ow_receipt o' = None \<and> (\<exists>f. classify e = Inr f \<and> ow_code o' = failure_code f))"

fun block_outcomes ::
  "wire_env \<Rightarrow> ledger_id \<Rightarrow> nat \<Rightarrow> outcome_wire list \<Rightarrow> bytes list \<Rightarrow> db \<Rightarrow> bool" where
  "block_outcomes env ledger seconds [] [] d \<longleftrightarrow> True"
| "block_outcomes env ledger seconds (o' # os) (c # cs) d \<longleftrightarrow>
     outcome_matches env o' c (fst (apply_step env ledger Ordered (c, seconds) d))
     \<and> block_outcomes env ledger seconds os cs (snd (apply_step env ledger Ordered (c, seconds) d))"
| "block_outcomes env ledger seconds _ _ d \<longleftrightarrow> False"

lemma apply_step_eq:
  "apply_command env d ledger m c n = Inl e \<Longrightarrow> apply_step env ledger m (c, n) d = (Inl e, d)"
  "apply_command env d ledger m c n = Inr (r, d') \<Longrightarrow> apply_step env ledger m (c, n) d = (Inr r, d')"
  by (simp_all add: apply_step_def)

lemma execute_commands_ok:
  assumes "db_ok env d"
  shows "\<exists>outs. execute_commands env ledger seconds cs d =
      Inr (outs, run_ops (apply_step env ledger Ordered) (map (\<lambda>c. (c, seconds)) cs) d)
    \<and> block_outcomes env ledger seconds outs cs d"
  using assms
proof (induction cs arbitrary: d)
  case (Cons c cs)
  let ?d = "snd (apply_step env ledger Ordered (c, seconds) d)"
  from Cons.prems have ok: "db_ok env ?d" by (rule ledger_steps.op_inv)
  obtain outs where rec: "execute_commands env ledger seconds cs ?d =
      Inr (outs, run_ops (apply_step env ledger Ordered) (map (\<lambda>c. (c, seconds)) cs) ?d)"
    and bo: "block_outcomes env ledger seconds outs cs ?d" using Cons.IH [OF ok] by blast
  from Cons.prems have "ledger_ok d" "wire_env_ok env" by (simp_all add: db_ok_def)
  then show ?case
  proof (cases rule: apply_command_cases [where ledger = ledger and m = Ordered and bs = c and now = seconds])
    case (rejected e)
    obtain f where "classify e = Inr f" using classify_rejection [OF rejected(2)] by blast
    with rejected(1) rec bo show ?thesis
      by (intro exI [of _ "\<lparr>ow_hash = we_sha256 env c, ow_code = failure_code f, ow_receipt = None\<rparr> # outs"])
        (simp add: apply_step_eq outcome_matches_def)
  qed (use rec bo in \<open>auto simp: apply_step_eq outcome_matches_def\<close>)
qed simp

lemma settled_once_equiv: "db_equiv d d' \<Longrightarrow> settled_once d \<Longrightarrow> settled_once d'"
  using db_equiv_sets [of d d'] by (auto simp: settled_once_def settlements_def db_equiv_def)

lemma db_ok_equiv: "db_equiv d d' \<Longrightarrow> db_ok env d \<Longrightarrow> db_ok env d'"
  by (auto simp: db_ok_def intro: ledger_ok_equiv settled_once_equiv)

lemma apply_step_equiv:
  assumes "db_equiv d d'" "db_ok env d"
  shows "fst (apply_step env ledger m q d) = fst (apply_step env ledger m q d')"
    "db_equiv (snd (apply_step env ledger m q d)) (snd (apply_step env ledger m q d'))"
  using apply_command_equiv [OF assms(1), of env ledger m "fst q" "snd q"] assms
  by (auto simp: apply_step_def db_ok_def ledger_keys_distinct rel_sum.simps)

lemma run_steps_equiv:
  assumes "db_equiv d d'" "db_ok env d"
  shows "db_equiv (run_ops (apply_step env ledger m) qs d) (run_ops (apply_step env ledger m) qs d')"
  using assms
  by (induction qs arbitrary: d d') (auto simp: apply_step_equiv(2) ledger_steps.op_inv)

lemma outcome_matches_unique:
  assumes "outcome_matches env o1 c r" "outcome_matches env o2 c r"
  shows "o1 = o2"
  using assms by (cases r) (auto simp: outcome_matches_def intro!: outcome_wire.equality)

lemma block_outcomes_unique:
  assumes "block_outcomes env ledger seconds os cs d" "block_outcomes env ledger seconds os' cs d'"
    and "db_equiv d d'" "db_ok env d"
  shows "os = os'"
  using assms
proof (induction env ledger seconds os cs d arbitrary: os' d' rule: block_outcomes.induct)
  case (2 env ledger seconds o' os c cs d)
  then obtain o2 os2 where os': "os' = o2 # os2" by (cases os') auto
  note eq = apply_step_equiv [OF 2(4,5), of ledger Ordered "(c, seconds)"]
  from 2(2,3) eq(1) os' have "o' = o2" by (auto intro: outcome_matches_unique)
  moreover have "os = os2"
    using 2(1) [of os2] 2(2,3,5) os' eq(2) ledger_steps.op_inv by auto
  ultimately show ?case using os' by simp
qed (auto elim: block_outcomes.elims)

lemma execute_equiv:
  assumes "db_equiv d d'" "db_ok env d"
    and "execute env d ledger b = Inr (outs, d1)" "execute env d' ledger b = Inr (outs', d1')"
  shows "outs = outs'" "db_equiv d1 d1'" "db_ok env d1"
proof -
  from assms(3) obtain t where t: "bw_time b = Some t" by (auto simp: execute_def result_simps)
  have ok': "db_ok env d'" using assms(1,2) by (rule db_ok_equiv)
  obtain x where x: "execute env d ledger b = Inr (x,
      run_ops (apply_step env ledger Ordered) (map (\<lambda>c. (c, bt_seconds t)) (bw_commands b)) d)"
    "block_outcomes env ledger (bt_seconds t) x (bw_commands b) d"
    using execute_commands_ok [OF assms(2), of ledger "bt_seconds t" "bw_commands b"] t
    by (auto simp: execute_def)
  obtain y where y: "execute env d' ledger b = Inr (y,
      run_ops (apply_step env ledger Ordered) (map (\<lambda>c. (c, bt_seconds t)) (bw_commands b)) d')"
    "block_outcomes env ledger (bt_seconds t) y (bw_commands b) d'"
    using execute_commands_ok [OF ok', of ledger "bt_seconds t" "bw_commands b"] t
    by (auto simp: execute_def)
  from block_outcomes_unique [OF x(2) y(2) assms(1,2)] x(1) y(1) assms(3,4) show "outs = outs'" by simp
  from run_steps_equiv [OF assms(1,2)] x(1) y(1) assms(3,4) show "db_equiv d1 d1'" by simp
  from ledger_steps.run_inv [OF assms(2)] x(1) assms(3) show "db_ok env d1" by simp
qed

section \<open>Staging\<close>

definition no_faults :: sqlite_faults where
  "no_faults = \<lparr>sf_begin = None, sf_commit = None\<rparr>"

definition block_record :: "block \<Rightarrow> record_wire \<Rightarrow> outcome_wire list \<Rightarrow> bytes \<Rightarrow> record_wire" where
  "block_record b current outs h = \<lparr>rr_block = Some (block_wire_from b),
     rr_previous_hash = rr_app_hash current, rr_outcomes = outs, rr_app_hash = h\<rparr>"

lemma compute_stage_fresh:
  assumes "compute_stage env faults d ledger b = Inr (preview, Some p)"
  obtains genesis current previous t snap memory outs memory' h where
    "load env d ledger = Inr (genesis, current)" "rr_block current = Some previous"
    "bk_height b = Suc (bw_height previous)" "bw_time previous = Some t"
    "\<not> time_less (bk_time b) t" "bw_id previous \<noteq> bk_block_id b"
    "capture d = Inr snap" "memory_copy snap = Inr memory"
    "execute (oe_wire env) memory ledger (block_wire_from b) = Inr (outs, memory')"
    "state_hash env memory' genesis (block_record b current outs []) = Inr h"
    "pd_record p = block_record b current outs h"
    "staged_receipt (pd_record p) ledger = Inr preview"
    "record_bytes env current = Inr (pd_base p)"
  using assms
  by (auto simp: compute_stage_def Let_def result_simps block_record_def block_wire_from_def
      split: if_splits)

lemma state_hash_record:
  "state_hash env d genesis (r\<lparr>rr_app_hash := x\<rparr>) = state_hash env d genesis r"
  "state_hash env (d\<lparr>db_checkpoint := c\<rparr>) genesis r = state_hash env d genesis r"
proof -
  have "validate_accounting (d\<lparr>db_checkpoint := c\<rparr>) = validate_accounting d"
    by (rule validate_accounting_equiv) (simp add: db_equiv_def)
  then show "state_hash env (d\<lparr>db_checkpoint := c\<rparr>) genesis r = state_hash env d genesis r"
    by (simp add: state_hash_def capture_def)
qed (simp add: state_hash_def)

definition ordered_ok :: "ordered_env \<Rightarrow> ordered_store \<Rightarrow> bool" where
  "ordered_ok env s \<longleftrightarrow> db_ok (oe_wire env) (db_of s)"

lemma db_ok_checkpoint: "db_ok env (d\<lparr>db_checkpoint := c\<rparr>) = db_ok env d"
  by (simp add: db_ok_def ledger_ok_defs settled_once_def settlements_def owners_def db_supply_def
      total_available_def total_reserved_def pending_units_def pending_count_def)

text \<open>
  The durable half of a committed block: executing on the durable tables gives the outcomes and
  the state hash that staging computed on the copy.
\<close>

lemma commit_staged:
  assumes ok: "ordered_ok env s"
    and st: "compute_stage env faults (db_of s) (ledger_of s) b = Inr (preview, Some p)"
    and bs: "record_bytes env (pd_record p) = Inr bs" "bs \<noteq> []"
  obtains genesis current previous t outs d' h receipt where
    "load env (db_of s) (ledger_of s) = Inr (genesis, current)" "rr_block current = Some previous"
    "bk_height b = Suc (bw_height previous)" "bw_time previous = Some t" "\<not> time_less (bk_time b) t"
    "pd_record p = block_record b current outs h"
    "execute (oe_wire env) (db_of s) (ledger_of s) (block_wire_from b) = Inr (outs, d')"
    "db_ok (oe_wire env) d'" "state_hash env d' genesis (pd_record p) = Inr h"
    "public_receipt (pd_record p) (ledger_of s) = Inr receipt"
    "staged_receipt (pd_record p) (ledger_of s) = Inr preview"
    "compute_commit env (bk_block_id b) (s\<lparr>os_staged := Some p\<rparr>) =
       Inr (receipt, d'\<lparr>db_checkpoint := Some (genesis, bs)\<rparr>)"
proof -
  let ?d = "db_of s" and ?l = "ledger_of s"
  from st obtain genesis current previous t snap memory outs memory' h where
    ld: "load env ?d ?l = Inr (genesis, current)" "rr_block current = Some previous"
    and pr: "bk_height b = Suc (bw_height previous)" "bw_time previous = Some t"
      "\<not> time_less (bk_time b) t" "bw_id previous \<noteq> bk_block_id b"
    and mem: "capture ?d = Inr snap" "memory_copy snap = Inr memory"
    and ex: "execute (oe_wire env) memory ?l (block_wire_from b) = Inr (outs, memory')"
    and sh: "state_hash env memory' genesis (block_record b current outs []) = Inr h"
    and rec: "pd_record p = block_record b current outs h"
    and pv: "staged_receipt (pd_record p) ?l = Inr preview" "record_bytes env current = Inr (pd_base p)"
    by (rule compute_stage_fresh)
  have dok: "db_ok (oe_wire env) ?d" using ok by (simp add: ordered_ok_def)
  then have "db_equiv ?d memory"
    by (intro memory_copy_equiv [OF mem]) (simp add: db_ok_def ledger_ok_def)
  moreover obtain outs' d' where ex': "execute (oe_wire env) ?d ?l (block_wire_from b) = Inr (outs', d')"
    using execute_commands_ok [OF dok, of ?l "bt_seconds (bk_time b)" "bk_commands b"]
    by (auto simp: execute_def block_wire_from_def)
  ultimately have eq: "outs' = outs" "db_equiv d' memory'" and dok': "db_ok (oe_wire env) d'"
    using execute_equiv [OF _ dok ex' ex] by blast+
  have "state_hash env d' genesis (block_record b current outs []) = Inr h"
    using state_hash_equiv [OF eq(2)] dok' sh by (simp add: db_ok_def ledger_keys_distinct)
  then have sh': "state_hash env d' genesis (pd_record p) = Inr h"
    using state_hash_record(1) [of env d' genesis h "block_record b current outs []"]
    by (simp add: rec block_record_def)
  from pv(1) obtain receipt where rc: "public_receipt (pd_record p) ?l = Inr receipt"
    by (auto simp: staged_receipt_def result_simps)
  from bs(1) have len2: "length bs \<le> 131072" by (auto simp: record_bytes_def result_simps MAX_RECORD_BYTES_def)
  have st1: "db_of (s\<lparr>os_staged := Some p\<rparr>) = ?d" "ledger_of (s\<lparr>os_staged := Some p\<rparr>) = ?l"
    by (simp_all add: db_of_def ledger_of_def)
  have "compute_commit env (bk_block_id b) (s\<lparr>os_staged := Some p\<rparr>) =
      Inr (receipt, d'\<lparr>db_checkpoint := Some (genesis, bs)\<rparr>)"
    using ld pr(4) pv(2) ex' eq(1) sh' rc bs len2
    by (simp add: compute_commit_def st1 rec block_record_def block_wire_from_def Let_def)
  with that ld pr(1-3) rec ex' eq(1) dok' sh' rc pv(1) show thesis by simp
qed

lemma commit_inner_ok:
  "compute_commit env i s = Inr (r, d) \<Longrightarrow>
   commit_inner env no_faults i s = (Inr r, \<lparr>os_store = (os_store s)\<lparr>st_db := d\<rparr>, os_staged = None\<rparr>)"
  by (simp add: commit_inner_def no_faults_def sqlite_fault_def)

section \<open>Reloading a committed block\<close>

lemma block_outcomes_hashes:
  assumes "block_outcomes env ledger seconds os cs d"
  shows "length os = length cs" "\<forall>(c, o') \<in> set (zip cs os). ow_hash o' = we_sha256 env c"
  using assms
  by (induction env ledger seconds os cs d rule: block_outcomes.induct) (auto simp: outcome_matches_def)

lemma time_less_trans: "\<not> time_less a b \<Longrightarrow> \<not> time_less b c \<Longrightarrow> \<not> time_less a c"
  by (auto simp: time_less_def)

lemma load_InrD:
  assumes "load env d ledger = Inr (genesis, r)"
  obtains time bs where "db_checkpoint d = Some (genesis, bs)"
    "check_genesis_wire env ledger genesis = Inr time" "check_record env ledger time bs = Inr r"
    "state_hash env d genesis r = Inr (rr_app_hash r)"
  using assms by (auto simp: load_def result_simps split: if_splits)

lemma check_record_time:
  assumes "check_record env ledger time bs = Inr r" "rr_block r = Some b" "bw_time b = Some t"
  shows "\<not> time_less t time" "length (rr_app_hash r) = 32"
  using assms
  by (auto simp: check_record_def result_simps public_receipt_def array32_def time_less_def split: if_splits)

lemma load_committed:
  assumes ld: "load env d ledger = Inr (genesis, current)" and pr: "rr_block current = Some previous"
    "bw_time previous = Some t" "\<not> time_less (bk_time b) t"
    and b: "validate_block b = Inr ()" and r: "r = block_record b current outs h"
    and bo: "block_outcomes (oe_wire env) ledger seconds outs (bk_commands b) d0"
    and rc: "public_receipt r ledger = Inr receipt"
    and sh: "state_hash env d' genesis r = Inr h"
    and bs: "record_bytes env r = Inr bs" and dec: "cd_decode (oe_record env) bs = Some r"
  shows "load env (d'\<lparr>db_checkpoint := Some (genesis, bs)\<rparr>) ledger = Inr (genesis, r)"
proof -
  from ld obtain time bs0 where cg: "check_genesis_wire env ledger genesis = Inr time"
    and cr: "check_record env ledger time bs0 = Inr current" by (rule load_InrD)
  note old = check_record_time [OF cr pr(1,2)]
  have dc: "decode_canonical (oe_record env) bs MAX_RECORD_BYTES = Inr r"
    using bs dec by (auto simp: decode_canonical_Inr record_bytes_def result_simps)
  have br: "br_block_id receipt = bk_block_id b" "br_time receipt = bk_time b" "br_height receipt = bk_height b"
    using rc by (auto simp: r public_receipt_def block_record_def block_wire_from_def array32_def result_simps
        split: if_splits)
  have pos: "bk_height b \<noteq> 0" using b by (auto simp: validate_block_def result_simps split: if_splits)
  have vb: "validate_block \<lparr>bk_height = bk_height b, bk_block_id = bk_block_id b, bk_time = bk_time b,
      bk_commands = bk_commands b\<rparr> = Inr ()" using b by (cases b) simp
  have "\<not> time_less (bk_time b) time" using pr(3) old(1) by (rule time_less_trans)
  then have "check_record env ledger time bs = Inr r"
    using dc rc br pos vb old(2) block_outcomes_hashes [OF bo]
    by (auto simp: check_record_def r block_record_def block_wire_from_def)
  with cg sh show ?thesis
    by (simp add: load_def state_hash_record r block_record_def)
qed

section \<open>Properties of ordered execution\<close>

text \<open>
  Claim C25. A block never aborts on a healthy ledger. Executing a block gives one outcome per command,
  in order; each outcome is the ledger's answer to that command after the commands before it, a
  rejected command carries its stable code and leaves no trace, and the ledger stays healthy.
\<close>

theorem execute_block:
  assumes "db_ok env d" and "bw_time b = Some t"
  shows "\<exists>outs d'. execute env d ledger b = Inr (outs, d')
    \<and> d' = run_ops (apply_step env ledger Ordered) (map (\<lambda>c. (c, bt_seconds t)) (bw_commands b)) d
    \<and> length outs = length (bw_commands b)
    \<and> block_outcomes env ledger (bt_seconds t) outs (bw_commands b) d \<and> db_ok env d'"
proof -
  obtain outs where "execute_commands env ledger (bt_seconds t) (bw_commands b) d = Inr (outs,
      run_ops (apply_step env ledger Ordered) (map (\<lambda>c. (c, bt_seconds t)) (bw_commands b)) d)"
    and bo: "block_outcomes env ledger (bt_seconds t) outs (bw_commands b) d"
    using execute_commands_ok [OF assms(1), of ledger "bt_seconds t" "bw_commands b"] by blast
  with assms block_outcomes_hashes(1) [OF bo] ledger_steps.run_inv [OF assms(1)]
  show ?thesis by (simp add: execute_def)
qed

definition demo_block :: block where
  "demo_block = \<lparr>bk_height = 1, bk_block_id = demo_id 11, bk_time = \<lparr>bt_seconds = 150, bt_nanos = 0\<rparr>,
     bk_commands = [demo_reserve, demo_commit, demo_cancel]\<rparr>"

theorem execute_block_witness:
  "\<exists>outs d'. execute (demo_env Ordered) demo_db (demo_id 9) (block_wire_from demo_block) = Inr (outs, d')
    \<and> length outs = 3 \<and> db_ok (demo_env Ordered) d'"
  using execute_block [of "demo_env Ordered" demo_db "block_wire_from demo_block"
      "\<lparr>bt_seconds = 150, bt_nanos = 0\<rparr>" "demo_id 9"]
  by (auto simp: db_ok_def demo_db_ok demo_env_ok block_wire_from_def demo_block_def)

lemma stage_answered:
  assumes "stage env faults b s = (Inr preview, s1)"
  shows "os_store s1 = os_store s
    \<and> stage env faults b s1 = (Inr preview, s1)
    \<and> (\<forall>b' faults'. os_staged s1 \<noteq> None \<longrightarrow> validate_block b' = Inr () \<longrightarrow>
         block_wire_from b' \<noteq> block_wire_from b \<longrightarrow> stage env faults' b' s1 = (Inl Tx_Conflict, s1))"
proof -
  from assms have vb: "validate_block b = Inr ()" by (auto simp: stage_def split: sum.splits)
  show ?thesis
  proof (cases "os_staged s")
    case (Some p)
    with assms vb show ?thesis by (auto simp: stage_def split: if_splits)
  next
    case None
    with assms vb obtain q where q: "compute_stage env faults (db_of s) (ledger_of s) b = Inr (preview, q)"
      and s1: "s1 = (case q of None \<Rightarrow> s | Some p \<Rightarrow> s\<lparr>os_staged := Some p\<rparr>)"
      by (auto simp: stage_def split: sum.splits option.splits)
    show ?thesis
    proof (cases q)
      case None
      with assms s1 \<open>os_staged s = None\<close> show ?thesis by simp
    next
      case (Some p)
      from q [unfolded Some] have "staged_receipt (pd_record p) (ledger_of s) = Inr preview"
        "rr_block (pd_record p) = Some (block_wire_from b)"
        by (rule compute_stage_fresh, simp, rule compute_stage_fresh, simp add: block_record_def)
      with Some s1 vb show ?thesis by (simp add: stage_def ledger_of_def)
    qed
  qed
qed

text \<open>
  Staging is a calculation. Whatever it answers, staging a block changes nothing durable, and
  an error changes nothing at all; staging the same block again gives the same answer, and while a
  block is staged every other valid block is refused as a conflict without disturbing it.
\<close>

theorem stage_no_effect:
  "os_store (snd (stage env faults b s)) = os_store s
    \<and> (\<forall>e. fst (stage env faults b s) = Inl e \<longrightarrow> snd (stage env faults b s) = s)
    \<and> (\<forall>preview s1. stage env faults b s = (Inr preview, s1) \<longrightarrow>
         stage env faults b s1 = (Inr preview, s1)
         \<and> (\<forall>b' faults'. os_staged s1 \<noteq> None \<longrightarrow> validate_block b' = Inr () \<longrightarrow>
              block_wire_from b' \<noteq> block_wire_from b \<longrightarrow> stage env faults' b' s1 = (Inl Tx_Conflict, s1)))"
proof -
  have "os_store (snd (stage env faults b s)) = os_store s"
    and "fst (stage env faults b s) = Inl e \<Longrightarrow> snd (stage env faults b s) = s" for e
    by (auto simp: stage_def split: sum.splits option.splits)
  then show ?thesis using stage_answered [of env faults b s] by blast
qed

section \<open>A concrete ordered ledger\<close>

definition demo_time :: block_time where
  "demo_time = \<lparr>bt_seconds = 100, bt_nanos = 0\<rparr>"

definition demo_genesis_wire :: genesis_wire where
  "demo_genesis_wire = \<lparr>gw_version = 1, gw_authority = demo_id 8, gw_time = Some demo_time,
     gw_accounts = [\<lparr>ia_owner = demo_id 1, ia_units = 100\<rparr>, \<lparr>ia_owner = demo_id 2, ia_units = 50\<rparr>]\<rparr>"

definition demo_record0 :: record_wire where
  "demo_record0 = (genesis_record demo_time)\<lparr>rr_app_hash := demo_id 9\<rparr>"

definition demo_receipt_wire :: "byte \<Rightarrow> nat \<Rightarrow> nat \<Rightarrow> receipt_wire" where
  "demo_receipt_wire k n s = \<lparr>rw_operation = demo_id k, rw_hash = demo_id 7, rw_sequence = n,
     rw_reservation = demo_id 3, rw_state = s\<rparr>"

definition demo_record1 :: record_wire where
  "demo_record1 = block_record demo_block demo_record0
     [\<lparr>ow_hash = demo_id 7, ow_code = 0, ow_receipt = Some (demo_receipt_wire 3 1 1)\<rparr>,
      \<lparr>ow_hash = demo_id 7, ow_code = 0, ow_receipt = Some (demo_receipt_wire 4 2 2)\<rparr>,
      \<lparr>ow_hash = demo_id 7, ow_code = 9, ow_receipt = None\<rparr>] (demo_id 9)"

definition demo_oenv :: ordered_env where
  "demo_oenv = \<lparr>oe_wire = demo_env Ordered,
     oe_genesis = table_codec [(demo_genesis_wire, [30])],
     oe_record = table_codec [(demo_record0, [20]), (demo_record1, [21])],
     oe_snapshot = \<lparr>cd_encode = (\<lambda>_. [0]), cd_decode = (\<lambda>_. None)\<rparr>\<rparr>"

definition demo_os :: ordered_store where
  "demo_os = \<lparr>os_store = \<lparr>st_db = demo_db\<lparr>db_application_id := ORDERED_APP, db_user_version := 1,
       db_checkpoint := Some ([30], [20])\<rparr>, st_ledger_id = demo_id 9, st_mode = Ordered\<rparr>,
     os_staged = None\<rparr>"

definition demo_outcomes :: "block_outcome list" where
  "demo_outcomes =
     [\<lparr>bo_command_sha256 = demo_id 7, bo_result = Inr (demo_receipt 3 1 Reserved)\<rparr>,
      \<lparr>bo_command_sha256 = demo_id 7, bo_result = Inr (demo_receipt 4 2 Committed)\<rparr>,
      \<lparr>bo_command_sha256 = demo_id 7, bo_result = Inl Cf_State\<rparr>]"

definition demo_preview :: staged_block where
  "demo_preview = \<lparr>sb_height = 1, sb_block_id = demo_id 11, sb_app_hash = demo_id 9, sb_outcomes = demo_outcomes\<rparr>"

definition demo_pending :: pending where
  "demo_pending = \<lparr>pd_base = [20], pd_record = demo_record1\<rparr>"

lemma demo_staged:
  "stage demo_oenv no_faults demo_block demo_os = (Inr demo_preview, demo_os\<lparr>os_staged := Some demo_pending\<rparr>)"
  by code_simp

lemma demo_os_ok: "ordered_ok demo_oenv demo_os"
proof -
  have "db_ok (demo_env Ordered) (demo_db\<lparr>db_application_id := ORDERED_APP, db_user_version := 1\<rparr>)"
    using demo_db_ok demo_env_ok
    by (simp add: db_ok_def ledger_ok_defs settled_once_def settlements_def owners_def db_supply_def
      total_available_def total_reserved_def pending_units_def pending_count_def)
  then show ?thesis by (simp add: ordered_ok_def db_of_def demo_os_def demo_oenv_def db_ok_checkpoint)
qed

lemma demo_record_bytes: "record_bytes demo_oenv (pd_record demo_pending) = Inr [21]"
  by code_simp

lemma demo_record_decodes: "cd_decode (oe_record demo_oenv) [21] = Some (pd_record demo_pending)"
  by code_simp

text \<open>A block that is staged anew leaves the calculation of \<open>compute_stage\<close> in the store.\<close>

lemma stage_fresh:
  assumes "os_staged s = None" "stage env faults b s = (Inr preview, s1)" "os_staged s1 = Some p"
  shows "validate_block b = Inr ()" "s1 = s\<lparr>os_staged := Some p\<rparr>"
    "compute_stage env faults (db_of s) (ledger_of s) b = Inr (preview, Some p)"
  using assms by (auto simp: stage_def split: sum.splits option.splits)

lemma staged_commit:
  assumes "ordered_ok env s" and "os_staged s = None"
    and "stage env faults b s = (Inr preview, s1)" and "os_staged s1 = Some p"
    and "record_bytes env (pd_record p) = Inr bs" and "bs \<noteq> []"
  shows "\<exists>receipt s2. commit_inner env no_faults (bk_block_id b) s1 = (Inr receipt, s2)
    \<and> br_height receipt = sb_height preview \<and> br_block_id receipt = sb_block_id preview
    \<and> br_app_hash receipt = sb_app_hash preview \<and> br_outcomes receipt = sb_outcomes preview
    \<and> br_time receipt = bk_time b \<and> os_staged s2 = None \<and> ordered_ok env s2"
proof -
  note st = stage_fresh [OF assms(2-4)]
  obtain genesis current outs d' h receipt where rec: "pd_record p = block_record b current outs h"
    and ok': "db_ok (oe_wire env) d'"
    and rc: "public_receipt (pd_record p) (ledger_of s) = Inr receipt"
    and pv: "staged_receipt (pd_record p) (ledger_of s) = Inr preview"
    and cm: "compute_commit env (bk_block_id b) (s\<lparr>os_staged := Some p\<rparr>) =
       Inr (receipt, d'\<lparr>db_checkpoint := Some (genesis, bs)\<rparr>)"
    by (rule commit_staged [OF assms(1) st(3) assms(5,6)])
  have "br_time receipt = bk_time b"
    using rc by (auto simp: rec public_receipt_def block_record_def block_wire_from_def result_simps)
  moreover have "ordered_ok env \<lparr>os_store = (os_store s)\<lparr>st_db := d'\<lparr>db_checkpoint := Some (genesis, bs)\<rparr>\<rparr>,
      os_staged = None\<rparr>"
    using ok' by (simp add: ordered_ok_def db_of_def db_ok_checkpoint)
  ultimately show ?thesis
    using commit_inner_ok [OF cm] pv rc st(2) by (auto simp: staged_receipt_def)
qed

text \<open>
  Claim C23. What was staged is what commits. A block staged on a healthy store commits, without any
  store, conflict or database error: the durable tables, whose rows are stored in another order
  than the copy the block was computed on, give the same outcomes and the same state hash. The receipt
  carries the staged height, identifier, hash and outcomes, and the store stays healthy.
\<close>

theorem staged_block_commits:
  assumes "ordered_ok env s" and "os_staged s = None"
    and "stage env faults b s = (Inr preview, s1)" and "os_staged s1 = Some p"
    and "record_bytes env (pd_record p) = Inr bs" and "bs \<noteq> []"
  shows "\<exists>receipt s2. commit_inner env no_faults (bk_block_id b) s1 = (Inr receipt, s2)
    \<and> br_height receipt = sb_height preview \<and> br_block_id receipt = sb_block_id preview
    \<and> br_app_hash receipt = sb_app_hash preview \<and> br_outcomes receipt = sb_outcomes preview
    \<and> br_time receipt = bk_time b \<and> os_staged s2 = None \<and> ordered_ok env s2"
  using assms by (rule staged_commit)

lemma demo_commit_exists:
  "\<exists>receipt s2. commit_inner demo_oenv no_faults (bk_block_id demo_block)
     (demo_os\<lparr>os_staged := Some demo_pending\<rparr>) = (Inr receipt, s2)"
  using staged_commit [OF demo_os_ok _ demo_staged _ demo_record_bytes] by (simp add: demo_os_def) blast

theorem staged_block_commits_witness:
  "\<exists>receipt s2. commit_inner demo_oenv no_faults (bk_block_id demo_block)
     (demo_os\<lparr>os_staged := Some demo_pending\<rparr>) = (Inr receipt, s2) \<and> br_outcomes receipt = demo_outcomes"
proof -
  have "os_staged demo_os = None" "os_staged (demo_os\<lparr>os_staged := Some demo_pending\<rparr>) = Some demo_pending"
    "sb_outcomes demo_preview = demo_outcomes"
    by (simp_all add: demo_os_def demo_preview_def)
  with staged_block_commits [OF demo_os_ok this(1) demo_staged this(2) demo_record_bytes] show ?thesis by auto
qed

lemma committed_replay:
  assumes "ordered_ok env s" and "os_staged s = None"
    and "stage env faults b s = (Inr preview, s1)" and "os_staged s1 = Some p"
    and "record_bytes env (pd_record p) = Inr bs" and "bs \<noteq> []"
    and "cd_decode (oe_record env) bs = Some (pd_record p)"
    and "commit_inner env no_faults (bk_block_id b) s1 = (Inr receipt, s2)"
  shows "info env s2 = Inr receipt \<and> commit_inner env no_faults (bk_block_id b) s2 = (Inr receipt, s2)"
proof -
  note st = stage_fresh [OF assms(2-4)]
  let ?l = "ledger_of s"
  obtain genesis current previous t outs d' h receipt' where
    ld: "load env (db_of s) ?l = Inr (genesis, current)" "rr_block current = Some previous"
      "bw_time previous = Some t" "\<not> time_less (bk_time b) t"
    and rec: "pd_record p = block_record b current outs h"
    and ex: "execute (oe_wire env) (db_of s) ?l (block_wire_from b) = Inr (outs, d')"
    and sh: "state_hash env d' genesis (pd_record p) = Inr h"
    and rc: "public_receipt (pd_record p) ?l = Inr receipt'"
    and cm: "compute_commit env (bk_block_id b) (s\<lparr>os_staged := Some p\<rparr>) =
       Inr (receipt', d'\<lparr>db_checkpoint := Some (genesis, bs)\<rparr>)"
    by (rule commit_staged [OF assms(1) st(3) assms(5,6)])
  let ?d2 = "d'\<lparr>db_checkpoint := Some (genesis, bs)\<rparr>"
  from commit_inner_ok [OF cm] assms(8) st(2) have s2: "receipt = receipt'" "db_of s2 = ?d2"
    "ledger_of s2 = ?l" "os_staged s2 = None" "s2 = \<lparr>os_store = (os_store s)\<lparr>st_db := ?d2\<rparr>, os_staged = None\<rparr>"
    by (auto simp: db_of_def ledger_of_def)
  have "db_ok (oe_wire env) (db_of s)" using assms(1) by (simp add: ordered_ok_def)
  from execute_commands_ok [OF this, of ?l "bt_seconds (bk_time b)" "bk_commands b"] ex
  have bo: "block_outcomes (oe_wire env) ?l (bt_seconds (bk_time b)) outs (bk_commands b) (db_of s)"
    by (auto simp: execute_def block_wire_from_def)
  have ld2: "load env ?d2 ?l = Inr (genesis, pd_record p)"
    by (rule load_committed [OF ld st(1) rec bo rc sh assms(5,7)])
  have inf: "info env s2 = Inr receipt" using ld2 rc s2 by (simp add: info_def)
  have "bk_height b > 0" using st(1) by (auto simp: validate_block_def result_simps split: if_splits)
  then have "compute_commit env (bk_block_id b) s2 = Inr (receipt, ?d2)"
    using ld2 rc s2 by (simp add: compute_commit_def rec block_record_def block_wire_from_def Let_def)
  from commit_inner_ok [OF this] inf show ?thesis by (simp add: s2(5))
qed

text \<open>
  Claim C24. A committed block is durable and its commit is idempotent. After a staged block has been
  committed, the stored checkpoint reloads and passes every consistency check, the public information
  is the receipt of that block, and committing the same block again returns that receipt and
  changes nothing.
\<close>

theorem committed_block_replays:
  assumes "ordered_ok env s" and "os_staged s = None"
    and "stage env faults b s = (Inr preview, s1)" and "os_staged s1 = Some p"
    and "record_bytes env (pd_record p) = Inr bs" and "bs \<noteq> []"
    and "cd_decode (oe_record env) bs = Some (pd_record p)"
    and "commit_inner env no_faults (bk_block_id b) s1 = (Inr receipt, s2)"
  shows "info env s2 = Inr receipt \<and> commit_inner env no_faults (bk_block_id b) s2 = (Inr receipt, s2)"
  using assms by (rule committed_replay)

theorem committed_block_replays_witness:
  "\<exists>receipt s2. commit_inner demo_oenv no_faults (bk_block_id demo_block)
     (demo_os\<lparr>os_staged := Some demo_pending\<rparr>) = (Inr receipt, s2) \<and> info demo_oenv s2 = Inr receipt"
proof -
  obtain receipt s2 where cm: "commit_inner demo_oenv no_faults (bk_block_id demo_block)
     (demo_os\<lparr>os_staged := Some demo_pending\<rparr>) = (Inr receipt, s2)" using demo_commit_exists by blast
  have "os_staged demo_os = None" "os_staged (demo_os\<lparr>os_staged := Some demo_pending\<rparr>) = Some demo_pending"
    by (simp_all add: demo_os_def)
  from committed_block_replays [OF demo_os_ok this(1) demo_staged this(2) demo_record_bytes _
      demo_record_decodes cm] cm
  show ?thesis by auto
qed

text \<open>
  Heights are consecutive and time does not run backwards. A block that commits after being
  staged has the height after the committed one and a time not before it.
\<close>

theorem committed_height_and_time:
  assumes "ordered_ok env s" and "os_staged s = None"
    and "stage env faults b s = (Inr preview, s1)" and "os_staged s1 = Some p"
    and "record_bytes env (pd_record p) = Inr bs" and "bs \<noteq> []"
    and "info env s = Inr before"
    and "commit_inner env no_faults (bk_block_id b) s1 = (Inr receipt, s2)"
  shows "br_height receipt = Suc (br_height before) \<and> \<not> time_less (br_time receipt) (br_time before)"
proof -
  note st = stage_fresh [OF assms(2-4)]
  obtain genesis current previous t outs d' h receipt' where
    ld: "load env (db_of s) (ledger_of s) = Inr (genesis, current)" "rr_block current = Some previous"
      "bk_height b = Suc (bw_height previous)" "bw_time previous = Some t" "\<not> time_less (bk_time b) t"
    and rec: "pd_record p = block_record b current outs h"
    and rc: "public_receipt (pd_record p) (ledger_of s) = Inr receipt'"
    and cm: "compute_commit env (bk_block_id b) (s\<lparr>os_staged := Some p\<rparr>) =
       Inr (receipt', d'\<lparr>db_checkpoint := Some (genesis, bs)\<rparr>)"
    by (rule commit_staged [OF assms(1) st(3) assms(5,6)])
  from commit_inner_ok [OF cm] assms(8) st(2) have "receipt = receipt'" by simp
  with rc have "br_height receipt = bk_height b" "br_time receipt = bk_time b"
    by (auto simp: rec public_receipt_def block_record_def block_wire_from_def result_simps)
  moreover have "br_height before = bw_height previous" "br_time before = t"
    using assms(7) ld by (auto simp: info_def public_receipt_def result_simps)
  ultimately show ?thesis using ld by simp
qed

theorem committed_height_and_time_witness:
  "\<exists>before receipt s2. info demo_oenv demo_os = Inr before
    \<and> commit_inner demo_oenv no_faults (bk_block_id demo_block)
        (demo_os\<lparr>os_staged := Some demo_pending\<rparr>) = (Inr receipt, s2)
    \<and> br_height receipt = Suc (br_height before)"
proof -
  have i: "info demo_oenv demo_os = Inr \<lparr>br_height = 0, br_block_id = zero32, br_time = demo_time,
    br_app_hash = demo_id 9, br_outcomes = []\<rparr>"
    by code_simp
  obtain receipt s2 where cm: "commit_inner demo_oenv no_faults (bk_block_id demo_block)
     (demo_os\<lparr>os_staged := Some demo_pending\<rparr>) = (Inr receipt, s2)" using demo_commit_exists by blast
  have "os_staged demo_os = None" "os_staged (demo_os\<lparr>os_staged := Some demo_pending\<rparr>) = Some demo_pending"
    by (simp_all add: demo_os_def)
  from committed_height_and_time [OF demo_os_ok this(1) demo_staged this(2) demo_record_bytes _ i cm] i cm
  show ?thesis by auto
qed

theorem stage_no_effect_witness:
  "stage demo_oenv no_faults demo_block (demo_os\<lparr>os_staged := Some demo_pending\<rparr>) =
     (Inr demo_preview, demo_os\<lparr>os_staged := Some demo_pending\<rparr>)"
  using stage_no_effect [of demo_oenv no_faults demo_block demo_os] demo_staged by blast

end
