(* ===== verification/Tx_Abci_Correct.thy ===== *)
theory Tx_Abci_Correct
  imports Tx_Abci Tx_Ordered_Correct
begin

text \<open>
  Correctness of the ABCI application: frames on the socket, proposals that the application prepares
  are accepted by every replica, only the consensus requests change state, an error stops the
  application for good, and a finalized block that commits is the one reported afterwards.
\<close>

section \<open>Frames\<close>

lemma unat_small_byte: "n < 256 \<Longrightarrow> unat (word_of_nat n :: byte) = n"
  by (simp add: unat_word_of_nat_byte)

lemma read_frame_prefix:
  assumes "index \<le> 2" "n < 128 ^ (3 - index)" "acc + n * 128 ^ index = len"
    and "0 < len" "len \<le> MAX_FRAME_BYTES" "len \<le> length rest"
  shows "read_frame_loop index acc (frame_prefix n @ rest) = Inr (take len rest, drop len rest)"
  using assms
proof (induction n arbitrary: index acc rule: frame_prefix.induct)
  case (1 n)
  show ?case
  proof (cases "n \<ge> 128")
    case True
    have "index < 2"
    proof (rule ccontr)
      assume "\<not> index < 2"
      with 1(2) have "index = 2" by simp
      with 1(3) True show False by simp
    qed
    then have i: "index = 0 \<or> index = 1" by auto
    have b: "unat (word_of_nat (n mod 128 + 128) :: byte) = n mod 128 + 128"
      by (intro unat_small_byte) (use mod_less_divisor [of 128 n] in linarith)
    have "acc + (n mod 128) * 128 ^ index + (n div 128) * 128 ^ (index + 1) =
        acc + (n mod 128 + n div 128 * 128) * 128 ^ index"
      unfolding distrib_right by simp
    also have "n mod 128 + n div 128 * 128 = n" by simp
    finally have acc: "acc + (n mod 128) * 128 ^ index + (n div 128) * 128 ^ (index + 1) = len"
      using 1(4) by simp
    have "n div 128 < 128 ^ (3 - (index + 1))" using i 1(3) by (auto simp: less_mult_imp_div_less)
    from 1(1) [OF True _ this acc 1(5-7)] \<open>index < 2\<close> show ?thesis
      unfolding frame_prefix.simps [of n] using True b by (simp add: Let_def)
  next
    case False
    then have b: "unat (word_of_nat n :: byte) = n" by (intro unat_small_byte) simp
    have "\<not> index \<ge> 3" using 1(2) by simp
    then show ?thesis
      unfolding frame_prefix.simps [of n] using False b 1(4-7) by (simp add: Let_def)
  qed
qed

interpretation abci_frames: stream_framing write_frame "read_frame_loop 0 0" "\<lambda>_. True"
proof
  fix b f rest
  assume "write_frame b = Inr f"
  then have f: "f = frame_prefix (length b) @ b" "0 < length b" "length b \<le> MAX_FRAME_BYTES"
    by (auto simp: write_frame_def split: if_splits)
  from f(3) have "length b < 128 ^ (3 - 0)" by (simp add: MAX_FRAME_BYTES_def)
  from read_frame_prefix [OF _ this _ f(2,3), of 0 "b @ rest"] f(1)
  show "read_frame_loop 0 0 (f @ rest) = Inr (b, rest)" by simp
qed

text \<open>
  Claim C31. Responses arrive as sent. If every message fits the frame limit, the reader recovers from
  the concatenated frames exactly the messages, in order, and leaves the rest of the stream.
\<close>

theorem abci_frames_roundtrip:
  assumes "rtraverse write_frame msgs = Inr frames"
  shows "abci_frames.recv_n (length msgs) (concat frames @ rest) = Inr (msgs, rest)"
  using assms by (intro abci_frames.recv_all) simp_all

theorem abci_frames_roundtrip_witness:
  "abci_frames.recv_n (length [[7], [8, 9] :: bytes]) (concat [[1, 7], [2, 8, 9]] @ [5]) = Inr ([[7], [8, 9]], [5])"
proof -
  have "rtraverse write_frame [[7], [8, 9]] = Inr [[1, 7], [2, 8, 9]]" by code_simp
  then show ?thesis by (rule abci_frames_roundtrip)
qed

section \<open>Proposals\<close>

lemma foldl_sizes:
  "foldl (\<lambda>acc c. Option.bind acc (\<lambda>size. checked_add_u64 size (length c))) (Some n) cs =
     (if n + sum_list (map length cs) \<le> u64_max \<or> cs = [] then Some (n + sum_list (map length cs)) else None)"
proof (induction cs arbitrary: n)
  case (Cons c cs)
  have none: "foldl (\<lambda>acc c. Option.bind acc (\<lambda>size. checked_add_u64 size (length c))) None xs = None"
    for xs :: "'a list list" by (induction xs) simp_all
  show ?case
  proof (cases "n + length c \<le> u64_max")
    case True
    then show ?thesis using Cons.IH [of "n + length c"] by (auto simp: checked_add_u64_def add.assoc)
  next
    case False
    then have "checked_add_u64 n (length c) = None" by (simp add: checked_add_u64_def)
    with False show ?thesis by (simp add: none)
  qed
qed simp

lemma bounded_commands_iff:
  "bounded_commands cs \<longleftrightarrow> length cs \<le> MAX_BLOCK_COMMANDS \<and> (\<forall>c \<in> set cs. length c \<le> 4096)
     \<and> sum_list (map length cs) \<le> MAX_BLOCK_BYTES"
proof -
  have "MAX_BLOCK_BYTES \<le> u64_max" by (simp add: MAX_BLOCK_BYTES_def u64_max_def)
  then show ?thesis by (auto simp: bounded_commands_def foldl_sizes list_all_iff)
qed

lemma validate_block_iff:
  "validate_block b = Inr () \<longleftrightarrow> validate_time (bk_time b) = Inr () \<and> bk_height b \<noteq> 0
     \<and> bk_height b \<le> MAX_UNITS \<and> bk_block_id b \<noteq> zero32 \<and> bounded_commands (bk_commands b)"
proof -
  have "MAX_BLOCK_BYTES \<le> u64_max" by (simp add: MAX_BLOCK_BYTES_def u64_max_def)
  then show ?thesis
    by (auto simp: validate_block_def bounded_commands_iff result_simps foldl_sizes is_none_or_def
        split: if_splits)
qed

lemma select_txs_count:
  "cnt \<le> MAX_BLOCK_COMMANDS \<Longrightarrow>
     length (select_txs max_bytes used cnt txs) + cnt \<le> MAX_BLOCK_COMMANDS"
  by (induction max_bytes used cnt txs rule: select_txs.induct) auto

lemma select_txs_bytes:
  "used \<le> max_bytes \<Longrightarrow> sum_list (map length (select_txs max_bytes used cnt txs)) + used \<le> max_bytes"
proof (induction max_bytes used cnt txs rule: select_txs.induct)
  case (2 max_bytes used cnt tx txs)
  then show ?case by (simp add: add.assoc) linarith
qed simp

lemma select_txs_sub:
  "set (select_txs max_bytes used cnt txs) \<subseteq> {c \<in> set txs. length c \<le> 4096}"
  by (induction max_bytes used cnt txs rule: select_txs.induct) auto

lemma select_txs_bounded: "max_bytes \<le> MAX_BLOCK_BYTES \<Longrightarrow> bounded_commands (select_txs max_bytes 0 0 txs)"
  using select_txs_count [of 0 max_bytes 0 txs] select_txs_bytes [of 0 max_bytes 0 txs]
    select_txs_sub [of max_bytes 0 0 txs]
  by (auto simp: bounded_commands_iff)

lemma from_unix_valid: "from_unix x y = Inr t \<Longrightarrow> validate_time t = Inr ()"
  by (auto simp: from_unix_def Let_def result_simps split: if_splits)

lemma agreed_time_valid: "agreed_time x = Inr t \<Longrightarrow> validate_time t = Inr ()"
  by (auto simp: agreed_time_def result_simps from_unix_valid)

lemma info_height:
  assumes "info env s = Inr cur"
  shows "br_height cur \<le> MAX_UNITS"
proof -
  from assms obtain genesis r where ld: "load env (db_of s) (ledger_of s) = Inr (genesis, r)"
    and pr: "public_receipt r (ledger_of s) = Inr cur" by (auto simp: info_def result_simps)
  from ld obtain time bs where cr: "check_record env (ledger_of s) time bs = Inr r" by (rule load_InrD)
  from pr obtain b where b: "rr_block r = Some b" "br_height cur = bw_height b"
    by (auto simp: public_receipt_def result_simps)
  from cr b pr show ?thesis
    by (auto simp: check_record_def result_simps validate_block_iff split: if_splits)
qed

text \<open>
  Claim C28. A prepared proposal is accepted. The commands that \<open>prepare\<close> selects, proposed at the same
  height and time under any nonzero block hash, are accepted by \<open>process\<close> on the same state, and the
  block they form passes the validation of the ordered store: the proposer never builds a block that
  the replicas or its own store would refuse for its size or position.
\<close>

theorem prepared_proposal_accepted:
  assumes "prepare env q a = Inr txs"
    and "fb_txs p = txs" and "fb_height p = pp_height q" and "fb_time p = pp_time q"
    and "block_id (fb_hash p) = Inr i" and "fb_height p \<le> int MAX_UNITS"
  shows "process env p a = Inr True
    \<and> (\<exists>h t. try_u64 (fb_height p) = Some h \<and> agreed_time (fb_time p) = Inr t
         \<and> validate_block \<lparr>bk_height = h, bk_block_id = i, bk_time = t, bk_commands = txs\<rparr> = Inr ())"
proof -
  from assms(1) have pos: "proposal_position env (pp_height q) (pp_time q) a = Inr True"
    and txs: "txs = select_txs (min (nat (pp_max_tx_bytes q)) MAX_BLOCK_BYTES) 0 0 (pp_txs q)"
    by (auto simp: prepare_def result_simps split: if_splits)
  have bc: "bounded_commands txs" unfolding txs by (rule select_txs_bounded) simp
  from pos obtain s cur where sc: "ap_store a = Some s" "info (ae_ordered env) s = Inr cur"
    by (auto simp: proposal_position_def app_store_def result_simps)
  from pos sc obtain t where t: "agreed_time (pp_time q) = Inr t"
    and h: "try_u64 (pp_height q) = checked_add_u64 (br_height cur) 1"
    by (cases "agreed_time (pp_time q)") (auto simp: proposal_position_def app_store_def)
  from info_height [OF sc(2)] h have h': "try_u64 (pp_height q) = Some (br_height cur + 1)"
    by (simp add: checked_add_u64_def MAX_UNITS_def u64_max_def)
  then have "br_height cur + 1 \<le> MAX_UNITS"
    using assms(3,6) by (auto simp: try_u64_def split: if_splits)
  then have "validate_block \<lparr>bk_height = br_height cur + 1, bk_block_id = i, bk_time = t, bk_commands = txs\<rparr> = Inr ()"
    using assms(5) bc agreed_time_valid [OF t] by (auto simp: validate_block_iff block_id_def split: if_splits)
  moreover have "process env p a = Inr True"
    using pos assms(2-5) bc by (simp add: process_def)
  ultimately show ?thesis using t h' assms(3,4) by auto
qed

section \<open>Requests that change state\<close>

text \<open>
  An error stops the application for good. Once a request has been answered with an error,
  every later request is refused as a protocol error and nothing changes any more.
\<close>

theorem failure_is_final:
  assumes "fst (handle env q a) = Inl e" and "a' = snd (handle env q a)"
  shows "run_ops (handle env) qs a' = a' \<and> fst (handle env q' (run_ops (handle env) qs a')) = Inl Ae_Protocol"
proof -
  have f: "ap_failed a'"
    using assms by (cases "handle_inner env (fst q) (snd q) a") (auto simp: handle_def split: if_splits sum.splits)
  then have "handle env x a' = (Inl Ae_Protocol, a')" for x by (simp add: handle_def)
  then have "run_ops (handle env) qs a' = a'" by (induction qs) simp_all
  with f show ?thesis by (simp add: handle_def)
qed

lemma stage_store: "os_store (snd (stage env faults b s)) = os_store s"
  by (auto simp: stage_def split: sum.split option.split)

lemma finalize_InrD:
  assumes "finalize env faults v a = Inr (r, a')" "ap_store a = Some s"
  obtains h i t staged s' where "try_u64 (fb_height v) = Some h" "block_id (fb_hash v) = Inr i"
    "agreed_time (fb_time v) = Inr t"
    "stage (ae_ordered env) faults \<lparr>bk_height = h, bk_block_id = i, bk_time = t, bk_commands = fb_txs v\<rparr> s =
       (Inr staged, s')"
    "a' = a\<lparr>ap_store := Some s', ap_pending := Some (sb_block_id staged)\<rparr>"
    "rf_app_hash r = sb_app_hash staged"
proof -
  from assms obtain h i t where hit: "try_u64 (fb_height v) = Some h" "block_id (fb_hash v) = Inr i"
    "agreed_time (fb_time v) = Inr t" by (auto simp: finalize_def result_simps)
  obtain x s' where x: "stage (ae_ordered env) faults
      \<lparr>bk_height = h, bk_block_id = i, bk_time = t, bk_commands = fb_txs v\<rparr> s = (x, s')"
    by (cases "stage (ae_ordered env) faults
      \<lparr>bk_height = h, bk_block_id = i, bk_time = t, bk_commands = fb_txs v\<rparr> s")
  with assms hit that show thesis
    by (cases x) (auto simp: finalize_def app_store_def)
qed

lemma finalize_store:
  assumes "finalize env faults v a = Inr (r, a')" "ap_store a = Some s"
  shows "map_option os_store (ap_store a') = Some (os_store s)"
  using assms
proof (rule finalize_InrD)
  fix h i t staged s'
  assume "stage (ae_ordered env) faults \<lparr>bk_height = h, bk_block_id = i, bk_time = t, bk_commands = fb_txs v\<rparr> s =
       (Inr staged, s')"
    and a': "a' = a\<lparr>ap_store := Some s', ap_pending := Some (sb_block_id staged)\<rparr>"
  from stage_store [of "ae_ordered env" faults _ s] this(1) have "os_store s' = os_store s" by (metis snd_conv)
  with a' show ?thesis by simp
qed

lemma init_chain_keeps:
  assumes "ap_store a = Some s"
  shows "ap_store (snd (init_chain env fs v a)) = Some s"
proof (cases "init_chain_store env fs v a")
  case (Inr x)
  with assms have "x = s" by (auto simp: init_chain_store_def Let_def result_simps split: if_splits)
  with Inr show ?thesis by (simp add: init_chain_def)
qed (simp add: init_chain_def assms)

lemma reply_state [simp]: "snd (reply f a r) = a"
  by (simp add: reply_def split: sum.split)

lemma handle_store: "ap_store (snd (handle env q a)) =
  (if ap_failed a then ap_store a else ap_store (snd (handle_inner env (fst q) (snd q) a)))"
  by (simp add: handle_def split: prod.split sum.split)

text \<open>
  Claim C27. Only Commit changes the ledger. On an application with a store, every request other than
  Commit, FinalizeBlock included, leaves the durable store as it is, whatever it answers and whatever
  faults occur.
\<close>

theorem durable_changes_by_commit_only:
  assumes "ap_store a = Some s" and "q \<noteq> Some Q_Commit"
  shows "map_option os_store (ap_store (snd (handle env (faults, q) a))) = Some (os_store s)"
proof (cases "ae_request_len env q > MAX_FRAME_BYTES \<or> q = None")
  case True
  then show ?thesis using assms(1) by (auto simp: handle_store handle_inner_def)
next
  case False
  then obtain v where v: "q = Some v" "v \<noteq> Q_Commit" using assms(2) by auto
  have "map_option os_store (ap_store (snd (handle_inner env faults q a))) = Some (os_store s)"
  proof (cases v)
    case (Q_FinalizeBlock w)
    with v False assms(1) finalize_store [of env "af_sqlite faults" w a] show ?thesis
      by (auto simp: handle_inner_def split: sum.split)
  next
    case (Q_InitChain w)
    with v False init_chain_keeps [OF assms(1), of env "af_create faults" w] show ?thesis
      by (auto simp: handle_inner_def split: prod.split)
  qed (use v False assms(1) in \<open>simp_all add: handle_inner_def\<close>)
  with assms(1) show ?thesis by (simp add: handle_store)
qed

section \<open>Finalize and commit\<close>

lemma staged_preview:
  assumes "compute_stage env faults d ledger b = Inr (staged, Some p)"
  shows "sb_height staged = bk_height b" "sb_block_id staged = bk_block_id b"
proof -
  obtain current outs h where "pd_record p = block_record b current outs h"
    and "staged_receipt (pd_record p) ledger = Inr staged" using assms by (rule compute_stage_fresh)
  then show "sb_height staged = bk_height b" "sb_block_id staged = bk_block_id b"
    by (auto simp: staged_receipt_def public_receipt_def block_record_def block_wire_from_def array32_def
        result_simps split: if_splits)
qed

lemma commit_request:
  assumes "commit_inner (ae_ordered env) no_faults i s = (Inr receipt, s')"
    and "ap_store a = Some s" "ap_pending a = Some i" "\<not> ap_failed a"
    and "ae_request_len env (Some Q_Commit) \<le> MAX_FRAME_BYTES"
  shows "handle env (\<lparr>af_sqlite = no_faults, af_create = x\<rparr>, Some Q_Commit) a =
    (Inr (R_Commit 0), a\<lparr>ap_store := Some s', ap_pending := None\<rparr>)"
  using assms by (simp add: handle_def handle_inner_def app_commit_def app_store_def)

text \<open>
  Claim C26. The committed state is the finalized one. On a healthy application, a newly finalized block
  commits, and the information reported afterwards gives its height and the application hash
  announced when it was finalized.
\<close>

theorem finalize_commit_info:
  assumes "ap_store a = Some s" and "ordered_ok (ae_ordered env) s" and "os_staged s = None"
    and "handle env (faults, Some (Q_FinalizeBlock q)) a = (Inr (R_FinalizeBlock r), a1)"
    and "ap_store a1 = Some s1" and "os_staged s1 = Some p"
    and "record_bytes (ae_ordered env) (pd_record p) = Inr bs" and "bs \<noteq> []"
    and "cd_decode (oe_record (ae_ordered env)) bs = Some (pd_record p)"
    and "ae_request_len env (Some Q_Commit) \<le> MAX_FRAME_BYTES"
  shows "\<exists>a2. handle env (\<lparr>af_sqlite = no_faults, af_create = x\<rparr>, Some Q_Commit) a1 = (Inr (R_Commit 0), a2)
    \<and> app_info env a2 = Inr \<lparr>ri_last_block_height = fb_height q, ri_last_block_app_hash = rf_app_hash r\<rparr>"
proof -
  from assms(4) have nf: "\<not> ap_failed a"
    and fin: "finalize env (af_sqlite faults) q a = Inr (r, a1)"
    by (auto simp: handle_def handle_inner_def split: if_splits sum.splits prod.splits)
  from fin assms(1) obtain h i t staged s' where h: "try_u64 (fb_height q) = Some h"
    and bi: "block_id (fb_hash q) = Inr i"
    and st: "stage (ae_ordered env) (af_sqlite faults)
        \<lparr>bk_height = h, bk_block_id = i, bk_time = t, bk_commands = fb_txs q\<rparr> s = (Inr staged, s')"
    and a1: "a1 = a\<lparr>ap_store := Some s', ap_pending := Some (sb_block_id staged)\<rparr>"
    and hash: "rf_app_hash r = sb_app_hash staged" by (rule finalize_InrD)
  from a1 assms(5) have s': "s' = s1" by simp
  let ?b = "\<lparr>bk_height = h, bk_block_id = i, bk_time = t, bk_commands = fb_txs q\<rparr>"
  note st = st [unfolded s']
  obtain receipt s2 where cm: "commit_inner (ae_ordered env) no_faults (bk_block_id ?b) s1 = (Inr receipt, s2)"
    and rc: "br_height receipt = sb_height staged" "br_block_id receipt = sb_block_id staged"
      "br_app_hash receipt = sb_app_hash staged"
    using staged_commit [OF assms(2,3) st assms(6-8)] by blast
  have inf: "info (ae_ordered env) s2 = Inr receipt"
    using committed_replay [OF assms(2,3) st assms(6-9) cm] by blast
  have pv: "sb_height staged = h" "sb_block_id staged = i"
    using staged_preview [OF stage_fresh(3) [OF assms(3) st assms(6)]] by simp_all
  from h have hq: "fb_height q = int h" by (auto simp: try_u64_def split: if_splits)
  have hd: "handle env (\<lparr>af_sqlite = no_faults, af_create = x\<rparr>, Some Q_Commit) a1 =
    (Inr (R_Commit 0), a1\<lparr>ap_store := Some s2, ap_pending := None\<rparr>)"
    by (rule commit_request [OF _ assms(5)]) (use cm a1 pv nf assms(10) in simp_all)
  have "app_info env (a1\<lparr>ap_store := Some s2, ap_pending := None\<rparr>) =
      Inr \<lparr>ri_last_block_height = fb_height q, ri_last_block_app_hash = rf_app_hash r\<rparr>"
    using inf info_height [OF inf] rc pv hq hash by (simp add: app_info_def height_i64_def)
  with hd show ?thesis by blast
qed

section \<open>A concrete application\<close>

definition demo_aenv :: abci_env where
  "demo_aenv = \<lparr>ae_ordered = demo_oenv, ae_parse_json = (\<lambda>_. None), ae_hex_decode = (\<lambda>_. None),
     ae_hex_encode = (\<lambda>_. []), ae_params_bytes = (\<lambda>_. []), ae_request_len = (\<lambda>_. 10),
     ae_check_tx_type_ok = (\<lambda>_. True)\<rparr>"

definition demo_app :: application where
  "demo_app = \<lparr>ap_genesis = \<lparr>ag_version = 1, ag_chain_id = ''volparossa-test-1'', ag_seconds = 100, ag_nanos = 0,
       ag_validators = [], ag_accounts = []\<rparr>,
     ap_store = Some demo_os, ap_pending = None, ap_failed = False\<rparr>"

definition demo_finalize :: request_block where
  "demo_finalize = \<lparr>fb_txs = bk_commands demo_block, fb_hash = demo_id 11, fb_height = 1,
     fb_time = Some \<lparr>ts_seconds = 150, ts_nanos = 0\<rparr>\<rparr>"

definition demo_no_faults :: app_faults where
  "demo_no_faults = \<lparr>af_sqlite = no_faults, af_create = None\<rparr>"

definition demo_finalized :: application where
  "demo_finalized = demo_app\<lparr>ap_store := Some (demo_os\<lparr>os_staged := Some demo_pending\<rparr>),
     ap_pending := Some (demo_id 11)\<rparr>"

lemma demo_handle_finalize:
  "\<exists>r. handle demo_aenv (demo_no_faults, Some (Q_FinalizeBlock demo_finalize)) demo_app =
     (Inr (R_FinalizeBlock r), demo_finalized) \<and> rf_app_hash r = demo_id 9"
proof -
  have "\<lparr>bk_height = Suc 0, bk_block_id = demo_id 11, bk_time = \<lparr>bt_seconds = 150, bt_nanos = 0\<rparr>,
      bk_commands = bk_commands demo_block\<rparr> = demo_block"
    by (simp add: demo_block_def)
  moreover have "block_id (demo_id 11) = Inr (demo_id 11)" by code_simp
  ultimately show ?thesis
    by (simp add: handle_def handle_inner_def demo_aenv_def demo_app_def demo_no_faults_def MAX_FRAME_BYTES_def
        finalize_def demo_finalize_def try_u64_def agreed_time_def from_unix_def validate_time_def MAX_UNITS_def
        app_store_def demo_staged demo_preview_def demo_finalized_def)
qed

theorem finalize_commit_info_witness:
  "\<exists>a2. handle demo_aenv (demo_no_faults, Some Q_Commit) demo_finalized = (Inr (R_Commit 0), a2)
    \<and> app_info demo_aenv a2 = Inr \<lparr>ri_last_block_height = 1, ri_last_block_app_hash = demo_id 9\<rparr>"
proof -
  obtain r where r: "handle demo_aenv (demo_no_faults, Some (Q_FinalizeBlock demo_finalize)) demo_app =
     (Inr (R_FinalizeBlock r), demo_finalized)" "rf_app_hash r = demo_id 9"
    using demo_handle_finalize by blast
  have e: "ae_ordered demo_aenv = demo_oenv" "ae_request_len demo_aenv (Some Q_Commit) \<le> MAX_FRAME_BYTES"
    "ap_store demo_app = Some demo_os" "os_staged demo_os = None"
    "ap_store demo_finalized = Some (demo_os\<lparr>os_staged := Some demo_pending\<rparr>)"
    by (simp_all add: demo_aenv_def MAX_FRAME_BYTES_def demo_app_def demo_os_def demo_finalized_def)
  have "fb_height demo_finalize = 1" by (simp add: demo_finalize_def)
  with finalize_commit_info [OF e(3) _ e(4) r(1) e(5), of demo_pending "[21]" None] r(2) e
    demo_os_ok demo_record_bytes demo_record_decodes
  show ?thesis by (simp add: demo_no_faults_def)
qed

theorem failure_is_final_witness:
  "fst (handle demo_aenv (demo_no_faults, Some Q_Flush)
     (snd (handle demo_aenv (demo_no_faults, Some Q_ReapTxs) demo_app))) = Inl Ae_Protocol"
proof -
  have "fst (handle demo_aenv (demo_no_faults, Some Q_ReapTxs) demo_app) = Inl Ae_Protocol"
    by (simp add: handle_def handle_inner_def demo_aenv_def demo_app_def MAX_FRAME_BYTES_def)
  from failure_is_final [OF this refl, of "[]"] show ?thesis by simp
qed

theorem durable_changes_by_commit_only_witness:
  "map_option os_store (ap_store (snd (handle demo_aenv
     (demo_no_faults, Some (Q_FinalizeBlock demo_finalize)) demo_app))) = Some (os_store demo_os)"
  by (rule durable_changes_by_commit_only) (simp_all add: demo_app_def)

theorem prepared_proposal_accepted_witness:
  "process demo_aenv demo_finalize demo_app = Inr True"
proof -
  have i: "info demo_oenv demo_os = Inr \<lparr>br_height = 0, br_block_id = zero32, br_time = demo_time,
    br_app_hash = demo_id 9, br_outcomes = []\<rparr>"
    by code_simp
  have "prepare demo_aenv \<lparr>pp_max_tx_bytes = 100, pp_txs = bk_commands demo_block, pp_height = 1,
      pp_time = fb_time demo_finalize\<rparr> demo_app = Inr (fb_txs demo_finalize)"
    by (simp add: prepare_def proposal_position_def app_store_def demo_app_def demo_aenv_def i demo_finalize_def
        agreed_time_def from_unix_def validate_time_def MAX_UNITS_def try_u64_def checked_add_u64_def u64_max_def
        demo_time_def time_less_def demo_block_def MAX_BLOCK_COMMANDS_def MAX_BLOCK_BYTES_def
        demo_reserve_def demo_commit_def demo_cancel_def)
  from prepared_proposal_accepted [OF this refl, of "demo_id 11"] show ?thesis
    by (simp add: demo_finalize_def block_id_def demo_id_def zero32_def MAX_UNITS_def)
qed

end
