(* ===== verification/Core_Types.thy ===== *)
theory Core_Types
  imports Volparossa_Prelude "HOL-Library.Char_ord"
begin

unbundle bit_operations_syntax

text \<open>
  Shared domain types (\<^verbatim>\<open>volparossa-core\<close>): bandwidth and capacity claims, timestamps, textual
  identifiers, and the classification of IP addresses into local, public and special ones.
\<close>

section \<open>Capacity\<close>

definition MAX_BANDWIDTH_MBPS :: nat where
  "MAX_BANDWIDTH_MBPS = 1000000"

datatype capacity_error = Ce_ImplausibleBandwidth | Ce_InconsistentClaim | Ce_InvalidSampleWindow

record bandwidth =
  up_mbps :: nat
  down_mbps :: nat

definition bandwidth_validate :: "bandwidth \<Rightarrow> capacity_error + unit" where
  "bandwidth_validate b =
     (if up_mbps b > MAX_BANDWIDTH_MBPS \<or> down_mbps b > MAX_BANDWIDTH_MBPS
      then Inl Ce_ImplausibleBandwidth else Inr ())"

definition bandwidth_new :: "nat \<Rightarrow> nat \<Rightarrow> capacity_error + bandwidth" where
  "bandwidth_new up down =
     (let value = \<lparr>up_mbps = up, down_mbps = down\<rparr>
      in rbind (bandwidth_validate value) (\<lambda>_. Inr value))"

definition component_min :: "bandwidth \<Rightarrow> bandwidth \<Rightarrow> bandwidth" where
  "component_min a b = \<lparr>up_mbps = min (up_mbps a) (up_mbps b), down_mbps = min (down_mbps a) (down_mbps b)\<rparr>"

definition satisfies :: "bandwidth \<Rightarrow> bandwidth \<Rightarrow> bool" where
  "satisfies b required \<longleftrightarrow> up_mbps b \<ge> up_mbps required \<and> down_mbps b \<ge> down_mbps required"

definition bandwidth_is_zero :: "bandwidth \<Rightarrow> bool" where
  "bandwidth_is_zero b \<longleftrightarrow> up_mbps b = 0 \<and> down_mbps b = 0"

record capacity_snapshot =
  cs_relay_limit :: bandwidth
  cs_exit_limit :: bandwidth
  cs_currently_reserved :: bandwidth
  cs_estimated_free :: bandwidth
  cs_active_relay_sessions :: nat
  cs_active_exit_sessions :: nat
  cs_free_relay_slots :: nat
  cs_free_exit_slots :: nat
  cs_sample_window_seconds :: nat

definition snapshot_validate :: "capacity_snapshot \<Rightarrow> capacity_error + unit" where
  "snapshot_validate c =
     rbind (bandwidth_validate (cs_relay_limit c)) (\<lambda>_.
     rbind (bandwidth_validate (cs_exit_limit c)) (\<lambda>_.
     rbind (bandwidth_validate (cs_currently_reserved c)) (\<lambda>_.
     rbind (bandwidth_validate (cs_estimated_free c)) (\<lambda>_.
     if cs_sample_window_seconds c = 0 \<or> cs_sample_window_seconds c > 300
     then Inl Ce_InvalidSampleWindow
     else
       let maximum_up = up_mbps (cs_relay_limit c) + up_mbps (cs_exit_limit c);
           maximum_down = down_mbps (cs_relay_limit c) + down_mbps (cs_exit_limit c) in
       if up_mbps (cs_currently_reserved c) > maximum_up
          \<or> down_mbps (cs_currently_reserved c) > maximum_down
          \<or> up_mbps (cs_estimated_free c) > maximum_up
          \<or> down_mbps (cs_estimated_free c) > maximum_down
       then Inl Ce_InconsistentClaim else Inr ()))))"

record conservative_capacity =
  cc_bandwidth :: bandwidth
  cc_locally_measured :: bool

definition estimate :: "bandwidth \<Rightarrow> bandwidth option \<Rightarrow> bandwidth \<Rightarrow> conservative_capacity" where
  "estimate advertised_free locally_measured_p25 reserved_path_limit =
     (let advertised_and_reserved = component_min advertised_free reserved_path_limit in
      case locally_measured_p25 of
        Some measured \<Rightarrow>
          \<lparr>cc_bandwidth = component_min advertised_and_reserved measured, cc_locally_measured = True\<rparr>
      | None \<Rightarrow> \<lparr>cc_bandwidth = advertised_and_reserved, cc_locally_measured = False\<rparr>)"

section \<open>Time\<close>

type_synonym unix_time = nat

datatype time_error = Te_Overflow

definition time_checked_add :: "unix_time \<Rightarrow> nat \<Rightarrow> time_error + unix_time" where
  "time_checked_add t seconds = ok_or (checked_add_u64 t seconds) Te_Overflow"

definition is_expired_at :: "unix_time \<Rightarrow> unix_time \<Rightarrow> bool" where
  "is_expired_at t now \<longleftrightarrow> now \<ge> t"

definition age_at :: "unix_time \<Rightarrow> unix_time \<Rightarrow> nat" where
  "age_at t now = now - t"

section \<open>Identifiers and service types\<close>

datatype transport = TcpMptcp | UdpSinglePath | MultipathQuic

datatype ip_family = Ipv4 | Ipv6

datatype service_role = Relay | Exit

definition MAX_IDENTIFIER_BYTES :: nat where
  "MAX_IDENTIFIER_BYTES = 128"

datatype identifier_error = Id_Empty | Id_TooLong | Id_InvalidCharacter

definition is_ascii_alphanumeric :: "char \<Rightarrow> bool" where
  "is_ascii_alphanumeric c \<longleftrightarrow> (CHR ''0'' \<le> c \<and> c \<le> CHR ''9'') \<or> (CHR ''A'' \<le> c \<and> c \<le> CHR ''Z'')
     \<or> (CHR ''a'' \<le> c \<and> c \<le> CHR ''z'')"

definition validate_identifier :: "string \<Rightarrow> identifier_error + unit" where
  "validate_identifier v =
     (if v = [] then Inl Id_Empty
      else if length v > MAX_IDENTIFIER_BYTES then Inl Id_TooLong
      else if \<not> list_all (\<lambda>c. is_ascii_alphanumeric c \<or> c \<in> set ''-_.:'') v then Inl Id_InvalidCharacter
      else Inr ())"

definition text_id_new :: "string \<Rightarrow> identifier_error + string" where
  "text_id_new v = rbind (validate_identifier v) (\<lambda>_. Inr v)"

definition path_id_new :: "nat \<Rightarrow> identifier_error + nat" where
  "path_id_new v = (if v = 0 then Inl Id_Empty else Inr v)"

section \<open>IP addresses\<close>

text \<open>An IPv6 address is given by its sixteen octets.\<close>

datatype ip_addr = V4 byte byte byte byte | V6 "byte list"

datatype network_prefix =
    Prefix_Ipv4 byte byte byte
  | Prefix_Ipv6 "byte list"
  | Prefix_LocalIpv4 byte byte byte
  | Prefix_LocalIpv6 "byte list"

definition from_origin :: "ip_addr \<Rightarrow> network_prefix" where
  "from_origin a = (case a of V4 x y z _ \<Rightarrow> Prefix_Ipv4 x y z | V6 os \<Rightarrow> Prefix_Ipv6 (take 6 os))"

definition prefix_family :: "network_prefix \<Rightarrow> ip_family" where
  "prefix_family p = (case p of Prefix_Ipv4 _ _ _ \<Rightarrow> Ipv4 | Prefix_LocalIpv4 _ _ _ \<Rightarrow> Ipv4
     | Prefix_Ipv6 _ \<Rightarrow> Ipv6 | Prefix_LocalIpv6 _ \<Rightarrow> Ipv6)"

definition is_local_lan_ipv4_prefix :: "byte \<Rightarrow> byte \<Rightarrow> bool" where
  "is_local_lan_ipv4_prefix first second \<longleftrightarrow>
     first = 10 \<or> (first = 172 \<and> second \<ge> 16 \<and> second \<le> 31) \<or> (first = 192 \<and> second = 168)"

definition is_public_routable_ipv4_prefix :: "byte \<Rightarrow> byte \<Rightarrow> byte \<Rightarrow> bool" where
  "is_public_routable_ipv4_prefix first second third \<longleftrightarrow>
     \<not> (first = 0
        \<or> first = 10
        \<or> first = 127
        \<or> (first = 100 \<and> 64 \<le> second \<and> second \<le> 127)
        \<or> (first = 169 \<and> second = 254)
        \<or> (first = 172 \<and> 16 \<le> second \<and> second \<le> 31)
        \<or> (first = 192 \<and> second = 0 \<and> third = 0)
        \<or> (first = 192 \<and> second = 0 \<and> third = 2)
        \<or> (first = 192 \<and> second = 31 \<and> third = 196)
        \<or> (first = 192 \<and> second = 52 \<and> third = 193)
        \<or> (first = 192 \<and> second = 88 \<and> third = 99)
        \<or> (first = 192 \<and> second = 168)
        \<or> (first = 192 \<and> second = 175 \<and> third = 48)
        \<or> (first = 198 \<and> (second = 18 \<or> second = 19))
        \<or> (first = 198 \<and> second = 51 \<and> third = 100)
        \<or> (first = 203 \<and> second = 0 \<and> third = 113)
        \<or> first \<ge> 224)"

definition is_public_routable_ipv6_prefix :: "byte list \<Rightarrow> bool" where
  "is_public_routable_ipv6_prefix octets \<longleftrightarrow>
     (let ietf_protocol_assignments = octets ! 0 = 0x20 \<and> octets ! 1 = 0x01 \<and> octets ! 2 AND 0xfe = 0;
          documentation_2001_db8 = take 4 octets = [0x20, 0x01, 0x0d, 0xb8];
          deprecated_6to4 = take 2 octets = [0x20, 0x02];
          documentation_3fff = octets ! 0 = 0x3f \<and> octets ! 1 = 0xff \<and> octets ! 2 AND 0xf0 = 0;
          as112_direct_delegation = octets = [0x26, 0x20, 0x00, 0x4f, 0x80, 0x00]
      in octets ! 0 AND 0xe0 = 0x20
         \<and> \<not> ietf_protocol_assignments
         \<and> \<not> documentation_2001_db8
         \<and> \<not> deprecated_6to4
         \<and> \<not> documentation_3fff
         \<and> \<not> as112_direct_delegation)"

definition is_public_routable :: "network_prefix \<Rightarrow> bool" where
  "is_public_routable p = (case p of
       Prefix_Ipv4 x y z \<Rightarrow> is_public_routable_ipv4_prefix x y z
     | Prefix_Ipv6 os \<Rightarrow> is_public_routable_ipv6_prefix os
     | Prefix_LocalIpv4 _ _ _ \<Rightarrow> False
     | Prefix_LocalIpv6 _ \<Rightarrow> False)"

definition is_local_lan :: "network_prefix \<Rightarrow> bool" where
  "is_local_lan p = (case p of
       Prefix_LocalIpv4 x y _ \<Rightarrow> is_local_lan_ipv4_prefix x y
     | Prefix_LocalIpv6 os \<Rightarrow> os ! 0 AND 0xfe = 0xfc
     | Prefix_Ipv4 _ _ _ \<Rightarrow> False
     | Prefix_Ipv6 _ \<Rightarrow> False)"

definition is_local_lan_ip :: "ip_addr \<Rightarrow> bool" where
  "is_local_lan_ip a = (case a of
       V4 x y _ _ \<Rightarrow> is_local_lan_ipv4_prefix x y
     | V6 os \<Rightarrow> os ! 0 AND 0xfe = 0xfc)"

definition is_public_routable_ip :: "ip_addr \<Rightarrow> bool" where
  "is_public_routable_ip a = (case a of
       V4 x y z _ \<Rightarrow> is_public_routable_ipv4_prefix x y z
     | V6 os \<Rightarrow> is_public_routable_ipv6_prefix (take 6 os))"

section \<open>The special-purpose blocks\<close>

text \<open>
  Reference: an address as a bit string, and the registry of special-purpose blocks as prefixes.
\<close>

definition byte_bits :: "byte \<Rightarrow> bool list" where
  "byte_bits b = map (\<lambda>i. bit b (7 - i)) [0..<8]"

definition in_block :: "byte list \<times> nat \<Rightarrow> byte list \<Rightarrow> bool" where
  "in_block blk octets \<longleftrightarrow>
     take (snd blk) (concat (map byte_bits octets)) = take (snd blk) (concat (map byte_bits (fst blk)))"

definition special_blocks_v4 :: "(byte list \<times> nat) list" where
  "special_blocks_v4 =
     [([0, 0, 0, 0], 8), ([10, 0, 0, 0], 8), ([127, 0, 0, 0], 8), ([100, 64, 0, 0], 10),
      ([169, 254, 0, 0], 16), ([172, 16, 0, 0], 12), ([192, 0, 0, 0], 24), ([192, 0, 2, 0], 24),
      ([192, 31, 196, 0], 24), ([192, 52, 193, 0], 24), ([192, 88, 99, 0], 24), ([192, 168, 0, 0], 16),
      ([192, 175, 48, 0], 24), ([198, 18, 0, 0], 15), ([198, 51, 100, 0], 24), ([203, 0, 113, 0], 24),
      ([224, 0, 0, 0], 3)]"

definition special_blocks_v6 :: "(byte list \<times> nat) list" where
  "special_blocks_v6 =
     [([0x20, 0x01, 0, 0, 0, 0], 23), ([0x20, 0x01, 0x0d, 0xb8, 0, 0], 32), ([0x20, 0x02, 0, 0, 0, 0], 16),
      ([0x3f, 0xff, 0, 0, 0, 0], 20), ([0x26, 0x20, 0x00, 0x4f, 0x80, 0x00], 48)]"

lemma all_bytes: "(\<forall>b :: byte. P b) \<longleftrightarrow> (\<forall>n \<in> set [0..<256]. P (word_of_nat n))"
proof
  assume r: "\<forall>n \<in> set [0..<256]. P (word_of_nat n)"
  show "\<forall>b :: byte. P b"
  proof
    fix b :: byte
    have "unat b \<in> set [0..<256]" using unat_byte_bound [of b] by simp
    with r have "P (word_of_nat (unat b))" by blast
    then show "P b" by simp
  qed
qed simp

lemma length_byte_bits [simp]: "length (byte_bits b) = 8"
  by (simp add: byte_bits_def)

lemma byte_bits_inject [simp]: "byte_bits a = byte_bits b \<longleftrightarrow> a = b"
proof
  assume "byte_bits a = byte_bits b"
  then have e: "byte_bits a ! i = byte_bits b ! i" for i by simp
  have "bit a n = bit b n" if "n < 8" for n
  proof -
    from that have "7 - (7 - n) = n" "7 - n < 8" by simp_all
    with e [of "7 - n"] show ?thesis by (simp add: byte_bits_def)
  qed
  then show "a = b" by (intro bit_word_eqI) simp
qed simp

text \<open>A block whose length is \<open>k\<close> octets and \<open>r\<close> bits.\<close>

lemma in_block_Nil [simp]: "in_block (n, 0) x"
  by (simp add: in_block_def)

lemma in_block_Cons:
  "in_block (n # ns, 8 + k) (x # xs) \<longleftrightarrow> x = n \<and> in_block (ns, k) xs"
  by (simp add: in_block_def take_append)

lemma in_block_bits:
  "k \<le> 8 \<Longrightarrow> in_block (n # ns, k) (x # xs) \<longleftrightarrow> take k (byte_bits x) = take k (byte_bits n)"
  by (simp add: in_block_def)

lemma take_byte_bits:
  assumes "k \<le> 8"
  shows "take k (byte_bits a) = take k (byte_bits b) \<longleftrightarrow> unat a div 2 ^ (8 - k) = unat b div 2 ^ (8 - k)"
proof -
  have t: "take k (byte_bits x) = map (\<lambda>i. bit x (7 - i)) [0..<k]" for x
    using assms by (simp add: byte_bits_def take_map)
  have "take k (byte_bits a) = take k (byte_bits b) \<longleftrightarrow> drop_bit (8 - k) a = drop_bit (8 - k) b"
  proof
    assume "take k (byte_bits a) = take k (byte_bits b)"
    then have e: "bit a (7 - i) = bit b (7 - i)" if "i < k" for i using that unfolding t by auto
    show "drop_bit (8 - k) a = drop_bit (8 - k) b"
    proof (rule bit_word_eqI)
      fix n assume "n < LENGTH(8)"
      show "bit (drop_bit (8 - k) a) n = bit (drop_bit (8 - k) b) n"
      proof (cases "n < k")
        case True
        with assms have i: "7 - (k - 1 - n) = 8 - k + n" "k - 1 - n < k" by auto
        show ?thesis using e [OF i(2)] unfolding i(1) by (simp only: bit_drop_bit_eq o_apply)
      next
        case False
        with assms have "8 \<le> 8 - k + n" by simp
        then have "\<not> bit x (8 - k + n)" for x :: byte using bit_imp_le_length [of x] by force
        then show ?thesis by (simp only: bit_drop_bit_eq o_apply)
      qed
    qed
  next
    assume e: "drop_bit (8 - k) a = drop_bit (8 - k) b"
    have "bit a (7 - i) = bit b (7 - i)" if "i < k" for i
    proof -
      from that assms have i: "7 - i = 8 - k + (k - 1 - i)" by auto
      show ?thesis unfolding i
        using arg_cong [OF e, of "\<lambda>x. bit x (k - 1 - i)"] by (simp only: bit_drop_bit_eq o_apply)
    qed
    then show "take k (byte_bits a) = take k (byte_bits b)" unfolding t by simp
  qed
  then show ?thesis
    unfolding word_unat_eq_iff unat_drop_bit_eq by (simp add: drop_bit_eq_div)
qed

lemma div_eq_nat_iff:
  assumes "0 < (k :: nat)"
  shows "n div k = q \<longleftrightarrow> q * k \<le> n \<and> n < Suc q * k"
proof
  assume "n div k = q"
  with div_mult_mod_eq [of n k] mod_less_divisor [OF assms, of n]
  show "q * k \<le> n \<and> n < Suc q * k" by (auto simp: algebra_simps)
qed (auto intro: div_nat_eqI simp: mult.commute)

lemma top_bits_v4:
  "take 2 (byte_bits b) = take 2 (byte_bits 64) \<longleftrightarrow> 64 \<le> b \<and> b \<le> 127"
  "take 4 (byte_bits b) = take 4 (byte_bits 16) \<longleftrightarrow> 16 \<le> b \<and> b \<le> 31"
  "take 7 (byte_bits b) = take 7 (byte_bits 18) \<longleftrightarrow> b = 18 \<or> b = 19"
  "take 3 (byte_bits b) = take 3 (byte_bits 224) \<longleftrightarrow> 224 \<le> b"
proof -
  have "64 \<le> b \<and> b \<le> 127 \<longleftrightarrow> unat b div 64 = 1" by (auto simp: div_eq_nat_iff word_le_nat_alt)
  then show "take 2 (byte_bits b) = take 2 (byte_bits 64) \<longleftrightarrow> 64 \<le> b \<and> b \<le> 127"
    by (simp add: take_byte_bits)
  have "16 \<le> b \<and> b \<le> 31 \<longleftrightarrow> unat b div 16 = 1" by (auto simp: div_eq_nat_iff word_le_nat_alt)
  then show "take 4 (byte_bits b) = take 4 (byte_bits 16) \<longleftrightarrow> 16 \<le> b \<and> b \<le> 31"
    by (simp add: take_byte_bits)
  have "b = 18 \<or> b = 19 \<longleftrightarrow> unat b div 2 = 9" by (auto simp: div_eq_nat_iff word_unat_eq_iff)
  then show "take 7 (byte_bits b) = take 7 (byte_bits 18) \<longleftrightarrow> b = 18 \<or> b = 19"
    by (simp add: take_byte_bits)
  have "224 \<le> b \<longleftrightarrow> unat b div 32 = 7"
    using unat_byte_bound [of b] by (auto simp: div_eq_nat_iff word_le_nat_alt)
  then show "take 3 (byte_bits b) = take 3 (byte_bits 224) \<longleftrightarrow> 224 \<le> b"
    by (simp add: take_byte_bits)
qed

lemma byte_eq_bits:
  "(a :: byte) = b \<longleftrightarrow> bit a 0 = bit b 0 \<and> bit a 1 = bit b 1 \<and> bit a 2 = bit b 2 \<and> bit a 3 = bit b 3
     \<and> bit a 4 = bit b 4 \<and> bit a 5 = bit b 5 \<and> bit a 6 = bit b 6 \<and> bit a 7 = bit b 7"
proof
  assume r: "bit a 0 = bit b 0 \<and> bit a 1 = bit b 1 \<and> bit a 2 = bit b 2 \<and> bit a 3 = bit b 3
     \<and> bit a 4 = bit b 4 \<and> bit a 5 = bit b 5 \<and> bit a 6 = bit b 6 \<and> bit a 7 = bit b 7"
  show "a = b"
  proof (rule bit_word_eqI)
    fix n assume "n < LENGTH(8)"
    then have "n = 0 \<or> n = 1 \<or> n = 2 \<or> n = 3 \<or> n = 4 \<or> n = 5 \<or> n = 6 \<or> n = 7"
      by simp arith
    with r show "bit a n = bit b n" by blast
  qed
qed simp

lemma take_bits_explicit:
  "take 3 (byte_bits b) = [bit b 7, bit b 6, bit b 5]"
  "take 4 (byte_bits b) = [bit b 7, bit b 6, bit b 5, bit b 4]"
  "take 7 (byte_bits b) = [bit b 7, bit b 6, bit b 5, bit b 4, bit b 3, bit b 2, bit b 1]"
  by (simp_all add: byte_bits_def upt_conv_Cons)

lemma top_bits_v6:
  "take 3 (byte_bits b) = take 3 (byte_bits 0x20) \<longleftrightarrow> b AND 0xe0 = 0x20"
  "take 7 (byte_bits b) = take 7 (byte_bits 0) \<longleftrightarrow> b AND 0xfe = 0"
  "take 4 (byte_bits b) = take 4 (byte_bits 0) \<longleftrightarrow> b AND 0xf0 = 0"
  unfolding take_bits_explicit byte_eq_bits
  by (auto simp: bit_simps)

lemma local_not_public_byte: "\<not> ((b :: byte) AND 0xfe = 0xfc \<and> b AND 0xe0 = 0x20)"
  unfolding byte_eq_bits by (auto simp: bit_simps)

lemma in_block_v4:
  "in_block ([n1, n2, n3, n4], 8) [x1, x2, x3, x4] \<longleftrightarrow> x1 = n1"
  "in_block ([n1, n2, n3, n4], 10) [x1, x2, x3, x4] \<longleftrightarrow> x1 = n1 \<and> take 2 (byte_bits x2) = take 2 (byte_bits n2)"
  "in_block ([n1, n2, n3, n4], 12) [x1, x2, x3, x4] \<longleftrightarrow> x1 = n1 \<and> take 4 (byte_bits x2) = take 4 (byte_bits n2)"
  "in_block ([n1, n2, n3, n4], 15) [x1, x2, x3, x4] \<longleftrightarrow> x1 = n1 \<and> take 7 (byte_bits x2) = take 7 (byte_bits n2)"
  "in_block ([n1, n2, n3, n4], 16) [x1, x2, x3, x4] \<longleftrightarrow> x1 = n1 \<and> x2 = n2"
  "in_block ([n1, n2, n3, n4], 24) [x1, x2, x3, x4] \<longleftrightarrow> x1 = n1 \<and> x2 = n2 \<and> x3 = n3"
  "in_block ([n1, n2, n3, n4], 3) [x1, x2, x3, x4] \<longleftrightarrow> take 3 (byte_bits x1) = take 3 (byte_bits n1)"
  by (simp_all add: in_block_def take_append)

lemma in_block_v6:
  "in_block ([n1, n2, n3, n4, n5, n6], 3) [x1, x2, x3, x4, x5, x6] \<longleftrightarrow> take 3 (byte_bits x1) = take 3 (byte_bits n1)"
  "in_block ([n1, n2, n3, n4, n5, n6], 16) [x1, x2, x3, x4, x5, x6] \<longleftrightarrow> x1 = n1 \<and> x2 = n2"
  "in_block ([n1, n2, n3, n4, n5, n6], 20) [x1, x2, x3, x4, x5, x6] \<longleftrightarrow>
     x1 = n1 \<and> x2 = n2 \<and> take 4 (byte_bits x3) = take 4 (byte_bits n3)"
  "in_block ([n1, n2, n3, n4, n5, n6], 23) [x1, x2, x3, x4, x5, x6] \<longleftrightarrow>
     x1 = n1 \<and> x2 = n2 \<and> take 7 (byte_bits x3) = take 7 (byte_bits n3)"
  "in_block ([n1, n2, n3, n4, n5, n6], 32) [x1, x2, x3, x4, x5, x6] \<longleftrightarrow>
     x1 = n1 \<and> x2 = n2 \<and> x3 = n3 \<and> x4 = n4"
  "in_block ([n1, n2, n3, n4, n5, n6], 48) [x1, x2, x3, x4, x5, x6] \<longleftrightarrow>
     x1 = n1 \<and> x2 = n2 \<and> x3 = n3 \<and> x4 = n4 \<and> x5 = n5 \<and> x6 = n6"
  by (simp_all add: in_block_def take_append)

text \<open>
  Claim C32. Public addresses are exactly the ordinary unicast ones. The octet tests of the code agree,
  on every IPv4 and IPv6 address, with the registry: an IPv4 address is public iff it lies in none of
  the seventeen special blocks, an IPv6 address iff it lies in 2000::/3 and in none of the five
  special blocks below it; the answer for a truncated origin prefix is the answer for the address; and
  no address is both local and public.
\<close>

theorem public_routable_registry:
  assumes "length os = 16"
  shows "(is_public_routable_ip (V4 a b c d) \<longleftrightarrow> \<not> (\<exists>blk \<in> set special_blocks_v4. in_block blk [a, b, c, d]))
    \<and> (is_public_routable_ip (V6 os) \<longleftrightarrow> in_block ([0x20, 0, 0, 0, 0, 0], 3) (take 6 os)
         \<and> \<not> (\<exists>blk \<in> set special_blocks_v6. in_block blk (take 6 os)))
    \<and> (\<forall>ip. is_public_routable (from_origin ip) = is_public_routable_ip ip)
    \<and> \<not> (is_local_lan_ip (V4 a b c d) \<and> is_public_routable_ip (V4 a b c d))
    \<and> \<not> (is_local_lan_ip (V6 os) \<and> is_public_routable_ip (V6 os))"
proof -
  obtain x1 x2 x3 x4 x5 x6 rest where os: "os = x1 # x2 # x3 # x4 # x5 # x6 # rest"
    using assms by (auto simp: numeral_eq_Suc length_Suc_conv)
  have v4: "is_public_routable_ip (V4 a b c d) \<longleftrightarrow> \<not> (\<exists>blk \<in> set special_blocks_v4. in_block blk [a, b, c, d])"
    unfolding special_blocks_v4_def is_public_routable_ip_def is_public_routable_ipv4_prefix_def ip_addr.case
      list.set bex_simps in_block_v4 top_bits_v4 by (simp only: simp_thms)
  have take6: "take 6 os = [x1, x2, x3, x4, x5, x6]" by (simp add: os)
  have v6: "is_public_routable_ip (V6 os) \<longleftrightarrow> in_block ([0x20, 0, 0, 0, 0, 0], 3) (take 6 os)
         \<and> \<not> (\<exists>blk \<in> set special_blocks_v6. in_block blk (take 6 os))"
    unfolding special_blocks_v6_def is_public_routable_ip_def is_public_routable_ipv6_prefix_def ip_addr.case
      list.set bex_simps take6 in_block_v6 top_bits_v6 Let_def by simp
  have "\<not> (is_local_lan_ip (V6 os) \<and> is_public_routable_ip (V6 os))"
    using local_not_public_byte [of x1]
    by (auto simp: is_local_lan_ip_def is_public_routable_ip_def is_public_routable_ipv6_prefix_def os Let_def)
  moreover have "\<not> (is_local_lan_ip (V4 a b c d) \<and> is_public_routable_ip (V4 a b c d))"
    by (auto simp: is_local_lan_ip_def is_public_routable_ip_def is_public_routable_ipv4_prefix_def
        is_local_lan_ipv4_prefix_def)
  moreover have "\<forall>ip. is_public_routable (from_origin ip) = is_public_routable_ip ip"
    by (simp add: is_public_routable_def from_origin_def is_public_routable_ip_def split: ip_addr.split)
  ultimately show ?thesis using v4 v6 by blast
qed

theorem public_routable_registry_witness:
  "is_public_routable_ip (V4 8 8 8 8) \<and> \<not> is_public_routable_ip (V4 100 64 0 1)
    \<and> is_public_routable_ip (V6 ([0x26, 0x06, 0x47, 0x00, 0x47, 0x00] @ replicate 10 1))"
  using public_routable_registry [of "[0x26, 0x06, 0x47, 0x00, 0x47, 0x00] @ replicate 10 1" 8 8 8 8]
    public_routable_registry [of "replicate 16 1" 100 64 0 1]
  by (simp add: special_blocks_v4_def special_blocks_v6_def in_block_v4 in_block_v6 top_bits_v4 top_bits_v6)

end
