(* ===== verification/Reservation_Ledger.thy ===== *)
theory Reservation_Ledger
  imports Core_Types Row_Tables
begin

text \<open>
  The per-role capacity ledger of \<^verbatim>\<open>volparossa-reservation/src/lib.rs\<close>. The map of grants is the
  list of grants with distinct identifiers; the order of a hash map is not specified, and the
  results below do not depend on it.
\<close>

section \<open>Types\<close>

definition MAX_ALLOWED_TRANSPORTS :: nat where
  "MAX_ALLOWED_TRANSPORTS = 3"

datatype reservation_error =
    Re_InvalidLimits | Re_WrongLedger | Re_InvalidBandwidth | Re_InvalidTransports
  | Re_InvalidMaximumPaths | Re_InvalidLifetime | Re_LifetimeTooLong | Re_DuplicateReservation
  | Re_InsufficientCapacity | Re_NoFreeSlot | Re_CapacityOverflow | Re_UnknownReservation
  | Re_ReservationExpired | Re_LedgerInvariantViolation

record authorized_reservation =
  ar_reservation_id :: string
  ar_route_context_id :: string
  ar_service_node_id :: string
  ar_client_ephemeral_id :: string
  ar_role :: service_role
  ar_allowed_transports :: "transport list"
  ar_bandwidth :: bandwidth
  ar_maximum_paths :: nat
  ar_created_at :: unix_time
  ar_expires_at :: unix_time

record ledger_limits =
  ll_service_node_id :: string
  ll_role :: service_role
  ll_bandwidth :: bandwidth
  ll_maximum_sessions :: nat
  ll_maximum_reservation_ttl_seconds :: nat
  ll_tunnel_setup_timeout_seconds :: nat

datatype allocation_state = PendingTunnel | Active

record reservation_grant =
  rg_reservation :: authorized_reservation
  rg_accepted_at :: unix_time
  rg_tunnel_setup_deadline :: unix_time
  rg_state :: allocation_state

record available_capacity =
  av_bandwidth :: bandwidth
  av_free_slots :: nat

datatype expiry_reason = ReservationExpired | TunnelNotEstablished

record expired_allocation =
  ea_reservation_id :: string
  ea_reason :: expiry_reason

record capacity_ledger =
  cl_limits :: ledger_limits
  cl_reserved :: bandwidth
  cl_grants :: "reservation_grant list"

definition grant_id :: "reservation_grant \<Rightarrow> string" where
  "grant_id g = ar_reservation_id (rg_reservation g)"

section \<open>Operations\<close>

definition reservation_validate ::
  "authorized_reservation \<Rightarrow> ledger_limits \<Rightarrow> unix_time \<Rightarrow> reservation_error + unit" where
  "reservation_validate r limits now =
     (if ar_role r \<noteq> ll_role limits \<or> ar_service_node_id r \<noteq> ll_service_node_id limits
      then Inl Re_WrongLedger else
      rbind (map_err (\<lambda>_. Re_InvalidBandwidth) (bandwidth_validate (ar_bandwidth r))) (\<lambda>_.
      if up_mbps (ar_bandwidth r) = 0 \<or> down_mbps (ar_bandwidth r) = 0 then Inl Re_InvalidBandwidth
      else if ar_allowed_transports r = [] \<or> length (ar_allowed_transports r) > MAX_ALLOWED_TRANSPORTS
      then Inl Re_InvalidTransports
      else if card (set (ar_allowed_transports r)) \<noteq> length (ar_allowed_transports r)
      then Inl Re_InvalidTransports
      else if ar_maximum_paths r = 0 \<or> ar_maximum_paths r > 8
         \<or> (ar_role r = Relay \<and> ar_maximum_paths r \<noteq> 1)
      then Inl Re_InvalidMaximumPaths
      else if ar_created_at r > now \<or> ar_expires_at r \<le> ar_created_at r \<or> is_expired_at (ar_expires_at r) now
      then Inl Re_InvalidLifetime
      else if ar_expires_at r - ar_created_at r > ll_maximum_reservation_ttl_seconds limits
      then Inl Re_LifetimeTooLong
      else Inr ()))"

definition limits_validate :: "ledger_limits \<Rightarrow> reservation_error + unit" where
  "limits_validate l =
     rbind (map_err (\<lambda>_. Re_InvalidLimits) (bandwidth_validate (ll_bandwidth l))) (\<lambda>_.
     if up_mbps (ll_bandwidth l) = 0 \<or> down_mbps (ll_bandwidth l) = 0
        \<or> ll_maximum_sessions l = 0
        \<or> ll_maximum_reservation_ttl_seconds l = 0
        \<or> ll_tunnel_setup_timeout_seconds l = 0
        \<or> ll_tunnel_setup_timeout_seconds l > ll_maximum_reservation_ttl_seconds l
     then Inl Re_InvalidLimits else Inr ())"

definition ledger_new :: "ledger_limits \<Rightarrow> reservation_error + capacity_ledger" where
  "ledger_new limits =
     rbind (limits_validate limits) (\<lambda>_.
     Inr \<lparr>cl_limits = limits, cl_reserved = \<lparr>up_mbps = 0, down_mbps = 0\<rparr>, cl_grants = []\<rparr>)"

definition subtract_bandwidth :: "bandwidth \<Rightarrow> capacity_ledger \<Rightarrow> (reservation_error + unit) \<times> capacity_ledger" where
  "subtract_bandwidth b l =
     (case checked_sub (up_mbps (cl_reserved l)) (up_mbps b) of
        None \<Rightarrow> (Inl Re_LedgerInvariantViolation, l)
      | Some up \<Rightarrow>
          (case checked_sub (down_mbps (cl_reserved l)) (down_mbps b) of
             None \<Rightarrow> (Inl Re_LedgerInvariantViolation, l)
           | Some down \<Rightarrow> (Inr (), l\<lparr>cl_reserved := \<lparr>up_mbps = up, down_mbps = down\<rparr>\<rparr>)))"

definition remove_grant :: "string \<Rightarrow> capacity_ledger \<Rightarrow> reservation_grant option \<times> capacity_ledger" where
  "remove_grant i l =
     (find_row grant_id i (cl_grants l), l\<lparr>cl_grants := filter (\<lambda>g. grant_id g \<noteq> i) (cl_grants l)\<rparr>)"

definition expiry :: "unix_time \<Rightarrow> reservation_grant \<Rightarrow> expiry_reason option" where
  "expiry now g =
     (if is_expired_at (ar_expires_at (rg_reservation g)) now then Some ReservationExpired
      else if rg_state g = PendingTunnel \<and> is_expired_at (rg_tunnel_setup_deadline g) now
      then Some TunnelNotEstablished else None)"

text \<open>
  The release loop of \<^verbatim>\<open>purge_expired\<close>. The result of the subtraction is only looked at by a debug
  assertion; when it fails the reserved bandwidth stays as it is.
\<close>

fun release_all ::
  "(string \<times> expiry_reason) list \<Rightarrow> capacity_ledger \<Rightarrow> expired_allocation list \<times> capacity_ledger" where
  "release_all [] l = ([], l)"
| "release_all ((i, reason) # rest) l =
     (case remove_grant i l of
        (None, l') \<Rightarrow> release_all rest l'
      | (Some g, l') \<Rightarrow>
          (case release_all rest (snd (subtract_bandwidth (ar_bandwidth (rg_reservation g)) l')) of
             (released, l'') \<Rightarrow> (\<lparr>ea_reservation_id = i, ea_reason = reason\<rparr> # released, l'')))"

definition expired_grants :: "unix_time \<Rightarrow> capacity_ledger \<Rightarrow> (string \<times> expiry_reason) list" where
  "expired_grants now l =
     List.map_filter (\<lambda>g. map_option (\<lambda>r. (grant_id g, r)) (expiry now g)) (cl_grants l)"

definition purge_expired :: "unix_time \<Rightarrow> capacity_ledger \<Rightarrow> expired_allocation list \<times> capacity_ledger" where
  "purge_expired now l = release_all (expired_grants now l) l"

definition reserve_checks ::
  "authorized_reservation \<Rightarrow> unix_time \<Rightarrow> capacity_ledger \<Rightarrow> reservation_error + reservation_grant \<times> capacity_ledger" where
  "reserve_checks r now l =
     rbind (reservation_validate r (cl_limits l) now) (\<lambda>_.
     if ar_reservation_id r \<in> grant_id ` set (cl_grants l) then Inl Re_DuplicateReservation else
     rbind (ok_or (checked_add_u32 (up_mbps (cl_reserved l)) (up_mbps (ar_bandwidth r))) Re_CapacityOverflow)
       (\<lambda>next_up.
     rbind (ok_or (checked_add_u32 (down_mbps (cl_reserved l)) (down_mbps (ar_bandwidth r))) Re_CapacityOverflow)
       (\<lambda>next_down.
     if next_up > up_mbps (ll_bandwidth (cl_limits l)) \<or> next_down > down_mbps (ll_bandwidth (cl_limits l))
     then Inl Re_InsufficientCapacity else
     if length (cl_grants l) > u32_max then Inl Re_CapacityOverflow else
     if length (cl_grants l) \<ge> ll_maximum_sessions (cl_limits l) then Inl Re_NoFreeSlot else
     rbind (map_err (\<lambda>_. Re_InvalidLifetime)
              (time_checked_add now (ll_tunnel_setup_timeout_seconds (cl_limits l)))) (\<lambda>setup_deadline.
     let grant = \<lparr>rg_reservation = r, rg_accepted_at = now,
                  rg_tunnel_setup_deadline = min setup_deadline (ar_expires_at r), rg_state = PendingTunnel\<rparr> in
     rbind (map_err (\<lambda>_. Re_CapacityOverflow) (bandwidth_new next_up next_down)) (\<lambda>b.
     Inr (grant, l\<lparr>cl_reserved := b, cl_grants := cl_grants l @ [grant]\<rparr>))))))"

definition reserve ::
  "authorized_reservation \<Rightarrow> unix_time \<Rightarrow> capacity_ledger \<Rightarrow> (reservation_error + reservation_grant) \<times> capacity_ledger" where
  "reserve r now l =
     (let l' = snd (purge_expired now l) in
      case reserve_checks r now l' of
        Inl e \<Rightarrow> (Inl e, l') | Inr (g, l'') \<Rightarrow> (Inr g, l''))"

definition mark_tunnel_established ::
  "string \<Rightarrow> unix_time \<Rightarrow> capacity_ledger \<Rightarrow> (reservation_error + unit) \<times> capacity_ledger" where
  "mark_tunnel_established i now l =
     (case purge_expired now l of (expired, l') \<Rightarrow>
       if i \<in> ea_reservation_id ` set expired then (Inl Re_ReservationExpired, l')
       else if i \<notin> grant_id ` set (cl_grants l') then (Inl Re_UnknownReservation, l')
       else (Inr (), l'\<lparr>cl_grants := upd_rows grant_id i (\<lambda>g. g\<lparr>rg_state := Active\<rparr>) (cl_grants l')\<rparr>))"

definition release :: "string \<Rightarrow> capacity_ledger \<Rightarrow> (reservation_error + reservation_grant) \<times> capacity_ledger" where
  "release i l =
     (case remove_grant i l of
        (None, l') \<Rightarrow> (Inl Re_UnknownReservation, l')
      | (Some g, l') \<Rightarrow>
          (case subtract_bandwidth (ar_bandwidth (rg_reservation g)) l' of
             (Inl e, l'') \<Rightarrow> (Inl e, l'')
           | (Inr _, l'') \<Rightarrow> (Inr g, l'')))"

text \<open>
  The two subtractions of \<^verbatim>\<open>available\<close> are unchecked on \<^verbatim>\<open>u32\<close>; \<open>None\<close> is the arithmetic overflow.
\<close>

definition available :: "unix_time \<Rightarrow> capacity_ledger \<Rightarrow> available_capacity option \<times> capacity_ledger" where
  "available now l =
     (let l' = snd (purge_expired now l) in
      (case (checked_sub (up_mbps (ll_bandwidth (cl_limits l'))) (up_mbps (cl_reserved l')),
             checked_sub (down_mbps (ll_bandwidth (cl_limits l'))) (down_mbps (cl_reserved l'))) of
         (Some up, Some down) \<Rightarrow>
           Some \<lparr>av_bandwidth = \<lparr>up_mbps = up, down_mbps = down\<rparr>,
                 av_free_slots = ll_maximum_sessions (cl_limits l') - min (length (cl_grants l')) u32_max\<rparr>
       | _ \<Rightarrow> None, l'))"

definition grant_of :: "string \<Rightarrow> capacity_ledger \<Rightarrow> reservation_grant option" where
  "grant_of i l = find_row grant_id i (cl_grants l)"

definition allocation_count :: "capacity_ledger \<Rightarrow> nat" where
  "allocation_count l = length (cl_grants l)"

text \<open>The public operations that change a ledger, as one step function.\<close>

datatype ledger_call =
    Call_Reserve authorized_reservation unix_time
  | Call_Established string unix_time
  | Call_Release string
  | Call_Purge unix_time
  | Call_Available unix_time

fun ledger_call_step :: "ledger_call \<Rightarrow> capacity_ledger \<Rightarrow> reservation_error option \<times> capacity_ledger" where
  "ledger_call_step (Call_Reserve r now) l =
     (case reserve r now l of (Inl e, l') \<Rightarrow> (Some e, l') | (Inr _, l') \<Rightarrow> (None, l'))"
| "ledger_call_step (Call_Established i now) l =
     (case mark_tunnel_established i now l of (Inl e, l') \<Rightarrow> (Some e, l') | (Inr _, l') \<Rightarrow> (None, l'))"
| "ledger_call_step (Call_Release i) l =
     (case release i l of (Inl e, l') \<Rightarrow> (Some e, l') | (Inr _, l') \<Rightarrow> (None, l'))"
| "ledger_call_step (Call_Purge now) l = (None, snd (purge_expired now l))"
| "ledger_call_step (Call_Available now) l = (None, snd (available now l))"

section \<open>Invariant\<close>

abbreviation grant_up :: "reservation_grant \<Rightarrow> nat" where
  "grant_up g \<equiv> up_mbps (ar_bandwidth (rg_reservation g))"

abbreviation grant_down :: "reservation_grant \<Rightarrow> nat" where
  "grant_down g \<equiv> down_mbps (ar_bandwidth (rg_reservation g))"

definition total_bandwidth :: "reservation_grant list \<Rightarrow> bandwidth" where
  "total_bandwidth gs =
     \<lparr>up_mbps = sum_list (map grant_up gs), down_mbps = sum_list (map grant_down gs)\<rparr>"

definition grant_ok :: "ledger_limits \<Rightarrow> reservation_grant \<Rightarrow> bool" where
  "grant_ok limits g \<longleftrightarrow>
     ar_role (rg_reservation g) = ll_role limits \<and>
     ar_service_node_id (rg_reservation g) = ll_service_node_id limits \<and>
     0 < grant_up g \<and> 0 < grant_down g \<and>
     rg_tunnel_setup_deadline g \<le> ar_expires_at (rg_reservation g)"

definition capacity_inv :: "capacity_ledger \<Rightarrow> bool" where
  "capacity_inv l \<longleftrightarrow>
     limits_validate (cl_limits l) = Inr () \<and>
     distinct (map grant_id (cl_grants l)) \<and>
     cl_reserved l = total_bandwidth (cl_grants l) \<and>
     satisfies (ll_bandwidth (cl_limits l)) (cl_reserved l) \<and>
     length (cl_grants l) \<le> ll_maximum_sessions (cl_limits l) \<and>
     list_all (grant_ok (cl_limits l)) (cl_grants l)"

lemma capacity_inv_filter:
  assumes "capacity_inv l"
  shows "capacity_inv (l\<lparr>cl_reserved := total_bandwidth (filter P (cl_grants l)), cl_grants := filter P (cl_grants l)\<rparr>)"
proof -
  let ?gs = "filter P (cl_grants l)"
  have "length ?gs \<le> ll_maximum_sessions (cl_limits l)"
    using assms length_filter_le [of P "cl_grants l"] unfolding capacity_inv_def by linarith
  moreover have "distinct (map grant_id ?gs)" "list_all (grant_ok (cl_limits l)) ?gs"
    using assms by (simp_all add: capacity_inv_def distinct_map_filter list_all_iff)
  moreover have "satisfies (ll_bandwidth (cl_limits l)) (total_bandwidth ?gs)"
    using assms sum_list_filter_le [of grant_up P "cl_grants l"] sum_list_filter_le [of grant_down P "cl_grants l"]
    unfolding capacity_inv_def satisfies_def total_bandwidth_def by auto
  ultimately show ?thesis using assms by (simp add: capacity_inv_def)
qed

lemma remove_subtract:
  assumes "capacity_inv l" "find_row grant_id i (cl_grants l) = Some g"
  shows "subtract_bandwidth (ar_bandwidth (rg_reservation g)) (snd (remove_grant i l)) =
    (Inr (), l\<lparr>cl_reserved := total_bandwidth (filter (\<lambda>g. grant_id g \<noteq> i) (cl_grants l)),
               cl_grants := filter (\<lambda>g. grant_id g \<noteq> i) (cl_grants l)\<rparr>)"
proof -
  have d: "distinct (map grant_id (cl_grants l))" and r: "cl_reserved l = total_bandwidth (cl_grants l)"
    using assms(1) by (auto simp: capacity_inv_def)
  let ?gs = "filter (\<lambda>g. grant_id g \<noteq> i) (cl_grants l)"
  note s = sum_list_remove_row [OF d assms(2)]
  have "up_mbps (cl_reserved l) = up_mbps (total_bandwidth ?gs) + grant_up g"
    "down_mbps (cl_reserved l) = down_mbps (total_bandwidth ?gs) + grant_down g"
    using s [of grant_up] s [of grant_down] unfolding r total_bandwidth_def by simp_all
  then show ?thesis
    by (cases l) (simp add: subtract_bandwidth_def remove_grant_def total_bandwidth_def checked_sub_def)
qed

lemma release_all_effect:
  assumes "capacity_inv l" "distinct (map fst es)" "fst ` set es \<subseteq> grant_id ` set (cl_grants l)"
  shows "release_all es l =
    (map (\<lambda>(i, r). \<lparr>ea_reservation_id = i, ea_reason = r\<rparr>) es,
     l\<lparr>cl_reserved := total_bandwidth (filter (\<lambda>g. grant_id g \<notin> fst ` set es) (cl_grants l)),
       cl_grants := filter (\<lambda>g. grant_id g \<notin> fst ` set es) (cl_grants l)\<rparr>)"
  using assms
proof (induction es arbitrary: l)
  case Nil
  then show ?case by (simp add: capacity_inv_def)
next
  case (Cons e es)
  obtain i r where e: "e = (i, r)" by (cases e)
  obtain g where g: "find_row grant_id i (cl_grants l) = Some g"
    using Cons.prems(3) e find_row_ex [of i grant_id "cl_grants l"] by auto
  define l' where "l' = l\<lparr>cl_reserved := total_bandwidth (filter (\<lambda>g. grant_id g \<noteq> i) (cl_grants l)),
               cl_grants := filter (\<lambda>g. grant_id g \<noteq> i) (cl_grants l)\<rparr>"
  have "capacity_inv l'" unfolding l'_def by (rule capacity_inv_filter [OF Cons.prems(1)])
  moreover have "fst ` set es \<subseteq> grant_id ` set (cl_grants l')"
  proof
    fix j assume j: "j \<in> fst ` set es"
    with Cons.prems(2) e have "j \<noteq> i" by auto
    moreover from j Cons.prems(3) obtain g where "g \<in> set (cl_grants l)" "grant_id g = j" by auto
    ultimately show "j \<in> grant_id ` set (cl_grants l')" by (auto simp: l'_def)
  qed
  ultimately have ih: "release_all es l' =
    (map (\<lambda>(i, r). \<lparr>ea_reservation_id = i, ea_reason = r\<rparr>) es,
     l'\<lparr>cl_reserved := total_bandwidth (filter (\<lambda>g. grant_id g \<notin> fst ` set es) (cl_grants l')),
       cl_grants := filter (\<lambda>g. grant_id g \<notin> fst ` set es) (cl_grants l')\<rparr>)"
    using Cons.IH Cons.prems(2) by simp
  have s: "snd (subtract_bandwidth (ar_bandwidth (rg_reservation g)) (snd (remove_grant i l))) = l'"
    using remove_subtract [OF Cons.prems(1) g] by (simp add: l'_def)
  have "remove_grant i l = (Some g, snd (remove_grant i l))" using g by (simp add: remove_grant_def)
  then have step: "release_all (e # es) l =
      (case release_all es l' of (released, l'') \<Rightarrow> (\<lparr>ea_reservation_id = i, ea_reason = r\<rparr> # released, l''))"
    unfolding e release_all.simps s [symmetric] by (metis (no_types, lifting) option.simps(5) prod.simps(2))
  have f: "filter (\<lambda>g. grant_id g \<notin> fst ` set es) (cl_grants l') =
      filter (\<lambda>g. grant_id g \<notin> fst ` set (e # es)) (cl_grants l)"
    by (auto simp: l'_def e intro: filter_cong)
  show ?case unfolding step ih f by (simp add: e l'_def)
qed

lemma map_fst_expired:
  "map fst (expired_grants now l) = map grant_id (filter (\<lambda>g. expiry now g \<noteq> None) (cl_grants l))"
proof -
  have "map fst (List.map_filter (\<lambda>g. map_option (\<lambda>r. (grant_id g, r)) (expiry now g)) gs) =
      map grant_id (filter (\<lambda>g. expiry now g \<noteq> None) gs)" for gs
    by (induction gs) (auto simp: map_filter_simps split: option.split)
  then show ?thesis by (simp add: expired_grants_def)
qed

lemma expired_grants_fst:
  "fst ` set (expired_grants now l) = grant_id ` {g \<in> set (cl_grants l). expiry now g \<noteq> None}"
  unfolding set_map [symmetric] map_fst_expired by auto

lemma filter_live:
  assumes "distinct (map grant_id gs)"
  shows "filter (\<lambda>g. grant_id g \<notin> grant_id ` {g \<in> set gs. expiry now g \<noteq> None}) gs =
    filter (\<lambda>g. expiry now g = None) gs"
proof -
  have inj: "inj_on grant_id (set gs)" using assms by (simp add: distinct_map)
  have "(grant_id g \<notin> grant_id ` {g \<in> set gs. expiry now g \<noteq> None}) = (expiry now g = None)"
    if g: "g \<in> set gs" for g
  proof -
    have "grant_id g \<in> grant_id ` {g \<in> set gs. expiry now g \<noteq> None} \<longleftrightarrow> g \<in> {g \<in> set gs. expiry now g \<noteq> None}"
      by (rule inj_on_image_mem_iff [OF inj g]) blast
    with g show ?thesis by simp
  qed
  then show ?thesis by (rule filter_cong [OF refl])
qed

definition live :: "unix_time \<Rightarrow> capacity_ledger \<Rightarrow> capacity_ledger" where
  "live now l =
     l\<lparr>cl_reserved := total_bandwidth (filter (\<lambda>g. expiry now g = None) (cl_grants l)),
       cl_grants := filter (\<lambda>g. expiry now g = None) (cl_grants l)\<rparr>"

lemma purge_effect:
  assumes "capacity_inv l"
  shows "purge_expired now l =
    (map (\<lambda>(i, r). \<lparr>ea_reservation_id = i, ea_reason = r\<rparr>) (expired_grants now l), live now l)"
proof -
  have d: "distinct (map grant_id (cl_grants l))" using assms by (simp add: capacity_inv_def)
  have "distinct (map fst (expired_grants now l))"
    unfolding map_fst_expired using d by (simp add: distinct_map_filter)
  moreover have "fst ` set (expired_grants now l) \<subseteq> grant_id ` set (cl_grants l)"
    by (auto simp: expired_grants_fst)
  ultimately show ?thesis
    using release_all_effect [OF assms, of "expired_grants now l"]
    unfolding purge_expired_def expired_grants_fst filter_live [OF d] live_def by simp
qed

lemma capacity_inv_live: "capacity_inv l \<Longrightarrow> capacity_inv (live now l)"
  unfolding live_def by (rule capacity_inv_filter)

section \<open>Effects of the operations\<close>

lemma reserve_checks_ok:
  assumes "capacity_inv l" "reserve_checks r now l = Inr (g, l')"
  shows "rg_reservation g = r \<and> rg_state g = PendingTunnel \<and> rg_accepted_at g = now
    \<and> l' = l\<lparr>cl_reserved := total_bandwidth (cl_grants l @ [g]), cl_grants := cl_grants l @ [g]\<rparr>
    \<and> capacity_inv l'"
proof -
  from assms(2) have v: "reservation_validate r (cl_limits l) now = Inr ()"
    and dup: "ar_reservation_id r \<notin> grant_id ` set (cl_grants l)"
    and up: "up_mbps (cl_reserved l) + up_mbps (ar_bandwidth r) \<le> up_mbps (ll_bandwidth (cl_limits l))"
    and down: "down_mbps (cl_reserved l) + down_mbps (ar_bandwidth r) \<le> down_mbps (ll_bandwidth (cl_limits l))"
    and free: "length (cl_grants l) < ll_maximum_sessions (cl_limits l)"
    and g: "rg_reservation g = r" "rg_state g = PendingTunnel" "rg_accepted_at g = now"
      "rg_tunnel_setup_deadline g \<le> ar_expires_at r"
    and l': "l' = l\<lparr>cl_reserved := \<lparr>up_mbps = up_mbps (cl_reserved l) + up_mbps (ar_bandwidth r),
               down_mbps = down_mbps (cl_reserved l) + down_mbps (ar_bandwidth r)\<rparr>, cl_grants := cl_grants l @ [g]\<rparr>"
    by (auto simp: reserve_checks_def result_simps bandwidth_new_def checked_add_u32_def Let_def split: if_splits)
  have t: "total_bandwidth (cl_grants l @ [g]) =
      \<lparr>up_mbps = up_mbps (cl_reserved l) + up_mbps (ar_bandwidth r),
       down_mbps = down_mbps (cl_reserved l) + down_mbps (ar_bandwidth r)\<rparr>"
    using assms(1) g(1) by (simp add: capacity_inv_def total_bandwidth_def)
  have "grant_ok (cl_limits l) g"
    using v g by (auto simp: grant_ok_def reservation_validate_def result_simps split: if_splits)
  then have "capacity_inv l'"
    using assms(1) dup up down free g(1) unfolding l' t [symmetric]
    by (auto simp: capacity_inv_def satisfies_def t grant_id_def)
  then show ?thesis using g l' t by simp
qed

lemma reserve_effect:
  assumes "capacity_inv l"
  shows "reserve r now l =
    (case reserve_checks r now (live now l) of Inl e \<Rightarrow> (Inl e, live now l) | Inr (g, l') \<Rightarrow> (Inr g, l'))"
  by (simp add: reserve_def Let_def purge_effect [OF assms])

lemma reserve_inv:
  assumes "capacity_inv l"
  shows "capacity_inv (snd (reserve r now l))"
proof (cases "reserve_checks r now (live now l)")
  case (Inl e)
  then show ?thesis using capacity_inv_live [OF assms] by (simp add: reserve_effect [OF assms])
next
  case (Inr gl)
  moreover obtain g l' where "gl = (g, l')" by (cases gl)
  ultimately have "reserve_checks r now (live now l) = Inr (g, l')" by simp
  moreover from reserve_checks_ok [OF capacity_inv_live [OF assms, of now] this] have "capacity_inv l'" by blast
  ultimately show ?thesis unfolding reserve_effect [OF assms] by simp
qed

lemma total_bandwidth_established:
  "total_bandwidth (upd_rows grant_id i (\<lambda>g. g\<lparr>rg_state := Active\<rparr>) gs) = total_bandwidth gs"
  unfolding total_bandwidth_def by (simp add: map_key_upd_rows)

lemma established_inv:
  assumes "capacity_inv l"
  shows "capacity_inv (l\<lparr>cl_grants := upd_rows grant_id i (\<lambda>g. g\<lparr>rg_state := Active\<rparr>) (cl_grants l)\<rparr>)"
proof -
  have "map grant_id (upd_rows grant_id i (\<lambda>g. g\<lparr>rg_state := Active\<rparr>) (cl_grants l)) = map grant_id (cl_grants l)"
    by (rule map_key_upd_rows) (simp add: grant_id_def)
  moreover have "list_all (grant_ok (cl_limits l)) (upd_rows grant_id i (\<lambda>g. g\<lparr>rg_state := Active\<rparr>) (cl_grants l))"
    using assms by (auto simp: capacity_inv_def list_all_iff grant_ok_def dest!: set_upd_rows)
  ultimately show ?thesis
    using assms by (auto simp: capacity_inv_def total_bandwidth_established)
qed

lemma mark_inv:
  assumes "capacity_inv l"
  shows "capacity_inv (snd (mark_tunnel_established i now l))"
  using established_inv [OF capacity_inv_live [OF assms, of now]] capacity_inv_live [OF assms, of now]
  by (simp add: mark_tunnel_established_def purge_effect [OF assms])

lemma release_effect:
  assumes "capacity_inv l"
  shows "release i l =
    (case find_row grant_id i (cl_grants l) of
       None \<Rightarrow> (Inl Re_UnknownReservation, l)
     | Some g \<Rightarrow> (Inr g, l\<lparr>cl_reserved := total_bandwidth (filter (\<lambda>g. grant_id g \<noteq> i) (cl_grants l)),
                         cl_grants := filter (\<lambda>g. grant_id g \<noteq> i) (cl_grants l)\<rparr>))"
proof (cases "find_row grant_id i (cl_grants l)")
  case None
  then have "filter (\<lambda>g. grant_id g \<noteq> i) (cl_grants l) = cl_grants l"
    by (auto simp: find_row_None filter_id_conv)
  with None show ?thesis by (simp add: release_def remove_grant_def)
next
  case (Some g)
  then have "remove_grant i l = (Some g, snd (remove_grant i l))" by (simp add: remove_grant_def)
  then obtain l' where l': "remove_grant i l = (Some g, l')" by blast
  with Some remove_subtract [OF assms Some] show ?thesis by (simp add: release_def)
qed

lemma release_inv:
  assumes "capacity_inv l"
  shows "capacity_inv (snd (release i l))"
  using assms capacity_inv_filter [OF assms]
  by (simp add: release_effect [OF assms] split: option.split)

lemma available_effect:
  assumes "capacity_inv l" "ll_maximum_sessions (cl_limits l) \<le> u32_max"
  shows "available now l =
    (Some \<lparr>av_bandwidth =
        \<lparr>up_mbps = up_mbps (ll_bandwidth (cl_limits l)) - up_mbps (cl_reserved (live now l)),
         down_mbps = down_mbps (ll_bandwidth (cl_limits l)) - down_mbps (cl_reserved (live now l))\<rparr>,
       av_free_slots = ll_maximum_sessions (cl_limits l) - length (cl_grants (live now l))\<rparr>, live now l)"
proof -
  have i: "capacity_inv (live now l)" and lim: "cl_limits (live now l) = cl_limits l"
    using capacity_inv_live [OF assms(1)] by (simp_all add: live_def)
  then have "length (cl_grants (live now l)) \<le> u32_max" using assms(2) by (simp add: capacity_inv_def)
  moreover have "satisfies (ll_bandwidth (cl_limits l)) (cl_reserved (live now l))"
    using i unfolding capacity_inv_def lim by blast
  ultimately show ?thesis
    by (simp add: available_def Let_def purge_effect [OF assms(1)] lim checked_sub_def satisfies_def min_absorb1)
qed

interpretation capacity: invariant_component ledger_call_step capacity_inv
proof
  fix c l
  assume i: "capacity_inv l"
  show "capacity_inv (snd (ledger_call_step c l))"
  proof (cases c)
    case (Call_Reserve r now)
    then show ?thesis using reserve_inv [OF i, of r now] by (auto split: prod.split sum.split)
  next
    case (Call_Established j now)
    then show ?thesis using mark_inv [OF i, of j now] by (auto split: prod.split sum.split)
  next
    case (Call_Release j)
    then show ?thesis using release_inv [OF i, of j] by (auto split: prod.split sum.split)
  next
    case (Call_Purge now)
    then show ?thesis using capacity_inv_live [OF i] by (simp add: purge_effect [OF i])
  next
    case (Call_Available now)
    then show ?thesis using capacity_inv_live [OF i] by (simp add: available_def Let_def purge_effect [OF i])
  qed
qed

lemma cl_limits_subtract: "cl_limits (snd (subtract_bandwidth b l)) = cl_limits l"
  by (simp add: subtract_bandwidth_def split: option.split)

lemma cl_limits_step:
  assumes "capacity_inv l"
  shows "cl_limits (snd (ledger_call_step c l)) = cl_limits l"
proof -
  have live: "cl_limits (live now l) = cl_limits l" for now by (simp add: live_def)
  have "cl_limits (snd (reserve r now l)) = cl_limits l" for r now
  proof (cases "reserve_checks r now (live now l)")
    case (Inr gl)
    moreover obtain g l' where gl: "gl = (g, l')" by (cases gl)
    ultimately have "cl_limits l' = cl_limits (live now l)"
      using reserve_checks_ok [OF capacity_inv_live [OF assms], of r now now g l'] by auto
    with Inr gl show ?thesis by (simp add: reserve_effect [OF assms] live)
  qed (simp add: reserve_effect [OF assms] live)
  moreover have "cl_limits (snd (mark_tunnel_established i now l)) = cl_limits l" for i now
    by (simp add: mark_tunnel_established_def purge_effect [OF assms] live)
  moreover have "cl_limits (snd (release i l)) = cl_limits l" for i
    by (simp add: release_effect [OF assms] split: option.split)
  ultimately show ?thesis
    by (cases c) (simp_all add: available_def Let_def purge_effect [OF assms] live prod.case_eq_if sum.case_eq_if)
qed

lemma ledger_new_inv:
  "ledger_new limits = Inr l \<Longrightarrow> capacity_inv l \<and> cl_limits l = limits"
  by (auto simp: ledger_new_def result_simps capacity_inv_def total_bandwidth_def satisfies_def)

section \<open>Properties\<close>

text \<open>
  Claim C4. Capacity is never oversold. Whatever requests a ledger receives after its creation, at
  whatever times, the reserved bandwidth is the sum of the bandwidth of the accepted grants, that sum is
  within the operator's ceiling in both directions, there are at most the permitted number of sessions
  and no identifier is granted twice. The ceiling itself never changes.
\<close>

theorem capacity_never_oversold:
  assumes "ledger_new limits = Inr l0" and "l = run_ops ledger_call_step calls l0"
  shows "cl_limits l = limits
    \<and> up_mbps (cl_reserved l) = sum_list (map grant_up (cl_grants l))
    \<and> down_mbps (cl_reserved l) = sum_list (map grant_down (cl_grants l))
    \<and> sum_list (map grant_up (cl_grants l)) \<le> up_mbps (ll_bandwidth limits)
    \<and> sum_list (map grant_down (cl_grants l)) \<le> down_mbps (ll_bandwidth limits)
    \<and> length (cl_grants l) \<le> ll_maximum_sessions limits
    \<and> distinct (map grant_id (cl_grants l))"
proof -
  from ledger_new_inv [OF assms(1)] have i0: "capacity_inv l0" and "cl_limits l0 = limits" by auto
  then have "cl_limits l = limits"
    unfolding assms(2)
    by (rule capacity.run_preserves [where P = "\<lambda>l. cl_limits l = limits"]) (simp_all add: cl_limits_step)
  moreover have "capacity_inv l" unfolding assms(2) by (rule capacity.run_inv [OF i0])
  ultimately show ?thesis by (auto simp: capacity_inv_def total_bandwidth_def satisfies_def)
qed

definition demo_limits :: ledger_limits where
  "demo_limits = \<lparr>ll_service_node_id = ''node'', ll_role = Relay, ll_bandwidth = \<lparr>up_mbps = 100, down_mbps = 50\<rparr>,
     ll_maximum_sessions = 2, ll_maximum_reservation_ttl_seconds = 600, ll_tunnel_setup_timeout_seconds = 30\<rparr>"

definition demo_reservation :: "string \<Rightarrow> nat \<Rightarrow> authorized_reservation" where
  "demo_reservation i up = \<lparr>ar_reservation_id = i, ar_route_context_id = ''route'', ar_service_node_id = ''node'',
     ar_client_ephemeral_id = ''client'', ar_role = Relay, ar_allowed_transports = [TcpMptcp],
     ar_bandwidth = \<lparr>up_mbps = up, down_mbps = 10\<rparr>, ar_maximum_paths = 1, ar_created_at = 1000, ar_expires_at = 1500\<rparr>"

definition demo_ledger :: capacity_ledger where
  "demo_ledger = \<lparr>cl_limits = demo_limits, cl_reserved = \<lparr>up_mbps = 60, down_mbps = 10\<rparr>,
     cl_grants = [\<lparr>rg_reservation = demo_reservation ''a'' 60, rg_accepted_at = 1000,
                   rg_tunnel_setup_deadline = 1030, rg_state = PendingTunnel\<rparr>]\<rparr>"

lemma demo_ledger_inv: "capacity_inv demo_ledger"
  by code_simp

theorem capacity_never_oversold_witness:
  "\<exists>l0. ledger_new demo_limits = Inr l0 \<and>
    length (cl_grants (run_ops ledger_call_step
      [Call_Reserve (demo_reservation ''a'' 60) 1000, Call_Reserve (demo_reservation ''b'' 60) 1001,
       Call_Reserve (demo_reservation ''b'' 40) 1002, Call_Reserve (demo_reservation ''c'' 1) 1003] l0)) \<le> 2"
proof -
  have new: "ledger_new demo_limits = Inr \<lparr>cl_limits = demo_limits, cl_reserved = \<lparr>up_mbps = 0, down_mbps = 0\<rparr>, cl_grants = []\<rparr>"
    by code_simp
  have "ll_maximum_sessions demo_limits = 2" by (simp add: demo_limits_def)
  with new capacity_never_oversold [OF new refl] show ?thesis by metis
qed

text \<open>
  Claim C34. Expiry releases exactly what is due. A purge removes the grants whose signed expiry has
  passed, and the pending ones whose set-up deadline has passed, each reported with its reason, and
  keeps all others; the advertised free capacity is the ceiling less the live grants, and computing it
  never underflows. The session ceiling is a 32-bit number.
\<close>

theorem purge_releases_exactly_due:
  assumes "capacity_inv l" and "ll_maximum_sessions (cl_limits l) \<le> u32_max"
  shows "set (fst (purge_expired now l)) =
      {\<lparr>ea_reservation_id = grant_id g, ea_reason = r\<rparr> | g r. g \<in> set (cl_grants l) \<and> expiry now g = Some r}
    \<and> cl_grants (snd (purge_expired now l)) = filter (\<lambda>g. expiry now g = None) (cl_grants l)
    \<and> (\<exists>a. fst (available now l) = Some a
        \<and> up_mbps (av_bandwidth a) + sum_list (map grant_up (filter (\<lambda>g. expiry now g = None) (cl_grants l)))
            = up_mbps (ll_bandwidth (cl_limits l))
        \<and> down_mbps (av_bandwidth a) + sum_list (map grant_down (filter (\<lambda>g. expiry now g = None) (cl_grants l)))
            = down_mbps (ll_bandwidth (cl_limits l))
        \<and> av_free_slots a + length (filter (\<lambda>g. expiry now g = None) (cl_grants l)) = ll_maximum_sessions (cl_limits l))"
proof -
  have "set (expired_grants now l) = {(grant_id g, r) | g r. g \<in> set (cl_grants l) \<and> expiry now g = Some r}"
    by (force simp: expired_grants_def List.map_filter_def image_iff)
  then have "set (fst (purge_expired now l)) =
      {\<lparr>ea_reservation_id = grant_id g, ea_reason = r\<rparr> | g r. g \<in> set (cl_grants l) \<and> expiry now g = Some r}"
    unfolding purge_effect [OF assms(1)] by (auto simp: image_def)
  moreover have "cl_grants (snd (purge_expired now l)) = filter (\<lambda>g. expiry now g = None) (cl_grants l)"
    unfolding purge_effect [OF assms(1)] by (simp add: live_def)
  moreover have "satisfies (ll_bandwidth (cl_limits l)) (cl_reserved (live now l))"
    "length (cl_grants (live now l)) \<le> ll_maximum_sessions (cl_limits l)"
    using capacity_inv_live [OF assms(1), of now] by (auto simp: capacity_inv_def live_def)
  ultimately show ?thesis
    unfolding available_effect [OF assms] by (simp add: live_def total_bandwidth_def satisfies_def)
qed

theorem purge_releases_exactly_due_witness:
  "cl_grants (snd (purge_expired 1029 demo_ledger)) = cl_grants demo_ledger
    \<and> cl_grants (snd (purge_expired 1030 demo_ledger)) = []"
  using purge_releases_exactly_due [OF demo_ledger_inv, of 1029] purge_releases_exactly_due [OF demo_ledger_inv, of 1030]
  by (simp add: demo_ledger_def demo_limits_def demo_reservation_def expiry_def is_expired_at_def u32_max_def)

text \<open>
  What a request must satisfy to be granted on a ledger whose live grants are those of the
  argument: the specification \<open>reserve\<close> is compared with.
\<close>

definition admissible :: "authorized_reservation \<Rightarrow> unix_time \<Rightarrow> capacity_ledger \<Rightarrow> bool" where
  "admissible r now l \<longleftrightarrow>
     reservation_validate r (cl_limits l) now = Inr () \<and>
     ar_reservation_id r \<notin> grant_id ` set (cl_grants l) \<and>
     satisfies (ll_bandwidth (cl_limits l))
       \<lparr>up_mbps = up_mbps (total_bandwidth (cl_grants l)) + up_mbps (ar_bandwidth r),
        down_mbps = down_mbps (total_bandwidth (cl_grants l)) + down_mbps (ar_bandwidth r)\<rparr> \<and>
     length (cl_grants l) < ll_maximum_sessions (cl_limits l) \<and>
     now + ll_tunnel_setup_timeout_seconds (cl_limits l) \<le> u64_max"

definition new_grant :: "authorized_reservation \<Rightarrow> unix_time \<Rightarrow> ledger_limits \<Rightarrow> reservation_grant" where
  "new_grant r now limits =
     \<lparr>rg_reservation = r, rg_accepted_at = now,
      rg_tunnel_setup_deadline = min (now + ll_tunnel_setup_timeout_seconds limits) (ar_expires_at r),
      rg_state = PendingTunnel\<rparr>"

lemma bandwidth_validate_ok:
  "bandwidth_validate b = Inr u \<longleftrightarrow> up_mbps b \<le> MAX_BANDWIDTH_MBPS \<and> down_mbps b \<le> MAX_BANDWIDTH_MBPS"
  by (simp add: bandwidth_validate_def)

lemma limits_bandwidth:
  assumes "capacity_inv l"
  shows "up_mbps (ll_bandwidth (cl_limits l)) \<le> MAX_BANDWIDTH_MBPS"
    "down_mbps (ll_bandwidth (cl_limits l)) \<le> MAX_BANDWIDTH_MBPS"
  using assms by (auto simp: capacity_inv_def limits_validate_def result_simps bandwidth_validate_ok split: if_splits)

lemma reserved_bandwidth:
  assumes "capacity_inv l"
  shows "up_mbps (cl_reserved l) \<le> MAX_BANDWIDTH_MBPS" "down_mbps (cl_reserved l) \<le> MAX_BANDWIDTH_MBPS"
  using limits_bandwidth [OF assms] assms by (auto simp: capacity_inv_def satisfies_def)

lemma requested_bandwidth:
  assumes "reservation_validate r limits now = Inr ()"
  shows "up_mbps (ar_bandwidth r) \<le> MAX_BANDWIDTH_MBPS \<and> down_mbps (ar_bandwidth r) \<le> MAX_BANDWIDTH_MBPS"
  using assms by (auto simp: reservation_validate_def result_simps bandwidth_validate_ok split: if_splits)

lemma reserve_sums_fit:
  assumes "capacity_inv l" "reservation_validate r (cl_limits l) now = Inr ()"
  shows "checked_add_u32 (up_mbps (cl_reserved l)) (up_mbps (ar_bandwidth r)) =
      Some (up_mbps (cl_reserved l) + up_mbps (ar_bandwidth r))"
    "checked_add_u32 (down_mbps (cl_reserved l)) (down_mbps (ar_bandwidth r)) =
      Some (down_mbps (cl_reserved l) + down_mbps (ar_bandwidth r))"
  using reserved_bandwidth [OF assms(1)] requested_bandwidth [OF assms(2)]
  by (auto simp: checked_add_u32_def MAX_BANDWIDTH_MBPS_def u32_max_def)

lemma bandwidth_new_fits:
  assumes "capacity_inv l" "up \<le> up_mbps (ll_bandwidth (cl_limits l))" "down \<le> down_mbps (ll_bandwidth (cl_limits l))"
  shows "bandwidth_new up down = Inr \<lparr>up_mbps = up, down_mbps = down\<rparr>"
  using limits_bandwidth [OF assms(1)] assms(2,3)
  by (auto simp: bandwidth_new_def bandwidth_validate_def rbind_def)

definition expected_errors :: "authorized_reservation \<Rightarrow> unix_time \<Rightarrow> ledger_limits \<Rightarrow> reservation_error set" where
  "expected_errors r now limits =
     {e. reservation_validate r limits now = Inl e} \<union>
     {Re_DuplicateReservation, Re_InsufficientCapacity, Re_NoFreeSlot, Re_InvalidLifetime}"

lemma reserve_checks_decides:
  assumes "capacity_inv l" "ll_maximum_sessions (cl_limits l) \<le> u32_max"
  shows "if admissible r now l
    then \<exists>l'. reserve_checks r now l = Inr (new_grant r now (cl_limits l), l')
    else \<exists>e \<in> expected_errors r now (cl_limits l). reserve_checks r now l = Inl e"
proof (cases "reservation_validate r (cl_limits l) now")
  case (Inl e)
  then show ?thesis by (simp add: admissible_def reserve_checks_def rbind_def expected_errors_def)
next
  case (Inr u)
  then have v: "reservation_validate r (cl_limits l) now = Inr ()" by simp
  have r: "total_bandwidth (cl_grants l) = cl_reserved l" and len: "\<not> length (cl_grants l) > u32_max"
    using assms by (auto simp: capacity_inv_def)
  show ?thesis
    using bandwidth_new_fits [OF assms(1)]
    unfolding reserve_checks_def admissible_def new_grant_def expected_errors_def r v
      reserve_sums_fit [OF assms(1) v] time_checked_add_def checked_add_u64_def satisfies_def
    using len by (simp add: rbind_def ok_or_def map_err_def Let_def)
qed

lemma reserve_admits:
  assumes "capacity_inv l" "ll_maximum_sessions (cl_limits l) \<le> u32_max" "admissible r now (live now l)"
  shows "reserve r now l = (Inr (new_grant r now (cl_limits l)),
    (live now l)\<lparr>cl_reserved := total_bandwidth (cl_grants (live now l) @ [new_grant r now (cl_limits l)]),
       cl_grants := cl_grants (live now l) @ [new_grant r now (cl_limits l)]\<rparr>)"
proof -
  note i = capacity_inv_live [OF assms(1), of now]
  have lim: "cl_limits (live now l) = cl_limits l" by (simp add: live_def)
  obtain l' where l': "reserve_checks r now (live now l) = Inr (new_grant r now (cl_limits l), l')"
    using reserve_checks_decides [OF i, of r now] assms(2,3) lim by auto
  moreover from reserve_checks_ok [OF i l'] have
    "l' = (live now l)\<lparr>cl_reserved := total_bandwidth (cl_grants (live now l) @ [new_grant r now (cl_limits l)]),
       cl_grants := cl_grants (live now l) @ [new_grant r now (cl_limits l)]\<rparr>" by blast
  ultimately show ?thesis by (simp add: reserve_effect [OF assms(1)])
qed

lemma reserve_refuses:
  assumes "capacity_inv l" "ll_maximum_sessions (cl_limits l) \<le> u32_max" "\<not> admissible r now (live now l)"
  shows "\<exists>e \<in> expected_errors r now (cl_limits l). reserve r now l = (Inl e, live now l)"
  using reserve_checks_decides [OF capacity_inv_live [OF assms(1)], of now r now] assms(2,3)
  by (auto simp: reserve_effect [OF assms(1)] live_def)

lemma reserve_then_release:
  assumes "capacity_inv l" "ll_maximum_sessions (cl_limits l) \<le> u32_max" "admissible r now (live now l)"
  shows "release (ar_reservation_id r) (snd (reserve r now l)) = (Inr (new_grant r now (cl_limits l)), live now l)"
proof -
  let ?g = "new_grant r now (cl_limits l)" and ?gs = "cl_grants (live now l)"
  have i: "capacity_inv (snd (reserve r now l))" by (rule reserve_inv [OF assms(1)])
  have g: "grant_id ?g = ar_reservation_id r" by (simp add: new_grant_def grant_id_def)
  have "ar_reservation_id r \<notin> grant_id ` set ?gs" using assms(3) by (simp add: admissible_def)
  then have f: "filter (\<lambda>x. grant_id x \<noteq> ar_reservation_id r) (?gs @ [?g]) = ?gs"
    and "find_row grant_id (ar_reservation_id r) ?gs = None"
    using g by (auto simp: filter_id_conv find_row_None image_iff)
  then have "find_row grant_id (ar_reservation_id r) (?gs @ [?g]) = Some ?g"
    using g by (simp add: find_row_append)
  moreover have "cl_grants (snd (reserve r now l)) = ?gs @ [?g]"
    unfolding reserve_admits [OF assms] by simp
  moreover have "(snd (reserve r now l))\<lparr>cl_reserved := total_bandwidth ?gs, cl_grants := ?gs\<rparr> = live now l"
    unfolding reserve_admits [OF assms] by (simp add: live_def)
  ultimately show ?thesis
    unfolding release_effect [OF i] by (simp only: f option.simps)
qed

text \<open>
  Claim C33. A request is granted exactly when it fits. The ledger accepts a reservation if and only if
  it is well formed for this node and role, its identifier is not live, both bandwidth sums with the
  live grants are within the ceiling, a session slot is free and the set-up deadline is representable;
  no arithmetic overflow or accounting error is ever reported. Acceptance records a pending grant
  whose deadline is the earlier of set-up timeout and expiry, releasing it gives the ledger without the
  request, and a refusal leaves the live grants as they were.
\<close>

theorem reserve_iff_admissible:
  assumes "capacity_inv l" and "ll_maximum_sessions (cl_limits l) \<le> u32_max"
    and "l0 = snd (purge_expired now l)"
  shows "(is_ok (fst (reserve r now l)) \<longleftrightarrow> admissible r now l0)
    \<and> (admissible r now l0 \<longrightarrow>
         fst (reserve r now l) = Inr (new_grant r now (cl_limits l))
         \<and> cl_grants (snd (reserve r now l)) = cl_grants l0 @ [new_grant r now (cl_limits l)]
         \<and> release (ar_reservation_id r) (snd (reserve r now l)) = (Inr (new_grant r now (cl_limits l)), l0))
    \<and> (\<not> admissible r now l0 \<longrightarrow>
         (\<exists>e \<in> expected_errors r now (cl_limits l). reserve r now l = (Inl e, l0)))"
proof -
  have l0: "l0 = live now l" using assms(3) by (simp add: purge_effect [OF assms(1)])
  show ?thesis
  proof (cases "admissible r now (live now l)")
    case True
    then show ?thesis
      using reserve_admits [OF assms(1,2) True] reserve_then_release [OF assms(1,2) True] l0 by simp
  next
    case False
    then show ?thesis using reserve_refuses [OF assms(1,2) False] l0 by auto
  qed
qed

theorem reserve_iff_admissible_witness:
  "is_ok (fst (reserve (demo_reservation ''b'' 40) 1002 demo_ledger))
    \<and> \<not> is_ok (fst (reserve (demo_reservation ''b'' 41) 1002 demo_ledger))
    \<and> is_ok (fst (reserve (demo_reservation ''b'' 41) 1030 demo_ledger))"
proof -
  have s: "ll_maximum_sessions (cl_limits demo_ledger) \<le> u32_max" by code_simp
  have "admissible (demo_reservation ''b'' 40) 1002 (snd (purge_expired 1002 demo_ledger))"
    "\<not> admissible (demo_reservation ''b'' 41) 1002 (snd (purge_expired 1002 demo_ledger))"
    "admissible (demo_reservation ''b'' 41) 1030 (snd (purge_expired 1030 demo_ledger))"
    by code_simp+
  then show ?thesis
    using reserve_iff_admissible [OF demo_ledger_inv s refl, of "demo_reservation ''b'' 40" 1002]
      reserve_iff_admissible [OF demo_ledger_inv s refl, of "demo_reservation ''b'' 41" 1002]
      reserve_iff_admissible [OF demo_ledger_inv s refl, of "demo_reservation ''b'' 41" 1030] by blast
qed

lemma grant_of_live:
  assumes "capacity_inv l" "grant_of i l = Some g"
  shows "grant_of i (live now l) = (if expiry now g = None then Some g else None)"
  using assms find_row_filter [of grant_id i "cl_grants l" g "\<lambda>g. expiry now g = None"]
    find_row_filter_out [of grant_id i "cl_grants l" g "\<lambda>g. expiry now g = None"]
  by (simp add: grant_of_def live_def capacity_inv_def)

lemma expired_ids:
  assumes "capacity_inv l" "grant_of i l = Some g"
  shows "i \<in> ea_reservation_id ` set (fst (purge_expired now l)) \<longleftrightarrow> expiry now g \<noteq> None"
proof -
  have g: "g \<in> set (cl_grants l)" "grant_id g = i"
    using assms(2) by (auto simp: grant_of_def dest: find_row_SomeD)
  have "ea_reservation_id ` set (fst (purge_expired now l)) = fst ` set (expired_grants now l)"
    unfolding purge_effect [OF assms(1)] by (force simp: image_iff)
  moreover have "inj_on grant_id (set (cl_grants l))" using assms(1) by (simp add: capacity_inv_def distinct_map)
  ultimately show ?thesis
    using g unfolding expired_grants_fst by (auto dest: inj_onD)
qed

text \<open>
  Claim C35. The set-up deadline binds until the tunnel is up, and only until then. Reporting the tunnel
  of a live grant in time succeeds and makes it active; from then on a purge keeps it at every time
  before its signed expiry. Reporting it late is answered as expired, and the grant is gone.
\<close>

theorem tunnel_deadline:
  assumes "capacity_inv l" and "grant_of i l = Some g"
  shows "(expiry now g = None \<longrightarrow>
       fst (mark_tunnel_established i now l) = Inr ()
       \<and> (\<forall>t. grant_of i (snd (purge_expired t (snd (mark_tunnel_established i now l)))) =
              (if t < ar_expires_at (rg_reservation g) then Some (g\<lparr>rg_state := Active\<rparr>) else None)))
    \<and> (expiry now g \<noteq> None \<longrightarrow>
       fst (mark_tunnel_established i now l) = Inl Re_ReservationExpired
       \<and> grant_of i (snd (mark_tunnel_established i now l)) = None)"
proof (cases "expiry now g")
  case None
  let ?l = "live now l"
  let ?l' = "?l\<lparr>cl_grants := upd_rows grant_id i (\<lambda>g. g\<lparr>rg_state := Active\<rparr>) (cl_grants ?l)\<rparr>"
  have gl: "grant_of i ?l = Some g" using grant_of_live [OF assms, of now] None by simp
  then have "i \<in> grant_id ` set (cl_grants ?l)" by (auto simp: grant_of_def dest: find_row_SomeD)
  with expired_ids [OF assms, of now] None have m: "mark_tunnel_established i now l = (Inr (), ?l')"
    by (simp add: mark_tunnel_established_def purge_effect [OF assms(1)])
  have i': "capacity_inv ?l'" by (rule established_inv [OF capacity_inv_live [OF assms(1)]])
  have g': "grant_of i ?l' = Some (g\<lparr>rg_state := Active\<rparr>)"
    using gl by (simp add: grant_of_def find_row_upd_rows grant_id_def)
  have "grant_of i (snd (purge_expired t ?l')) =
      (if t < ar_expires_at (rg_reservation g) then Some (g\<lparr>rg_state := Active\<rparr>) else None)" for t
    using grant_of_live [OF i' g', of t]
    by (simp add: purge_effect [OF i'] expiry_def is_expired_at_def)
  with None m show ?thesis by simp
next
  case (Some r)
  with grant_of_live [OF assms, of now] expired_ids [OF assms, of now] show ?thesis
    by (simp add: mark_tunnel_established_def purge_effect [OF assms(1)])
qed

theorem tunnel_deadline_witness:
  "fst (mark_tunnel_established ''a'' 1029 demo_ledger) = Inr ()
    \<and> grant_of ''a'' (snd (purge_expired 1499 (snd (mark_tunnel_established ''a'' 1029 demo_ledger)))) \<noteq> None
    \<and> fst (mark_tunnel_established ''a'' 1030 demo_ledger) = Inl Re_ReservationExpired"
proof -
  let ?g = "\<lparr>rg_reservation = demo_reservation ''a'' 60, rg_accepted_at = 1000,
    rg_tunnel_setup_deadline = 1030, rg_state = PendingTunnel\<rparr>"
  have "grant_of ''a'' demo_ledger = Some ?g" "expiry 1029 ?g = None" "expiry 1030 ?g \<noteq> None"
    "(1499::nat) < ar_expires_at (rg_reservation ?g)"
    by code_simp+
  with tunnel_deadline [OF demo_ledger_inv this(1), of 1029] tunnel_deadline [OF demo_ledger_inv this(1), of 1030]
  show ?thesis by simp
qed

end
