(* ===== verification/Protocol_Envelope.thy ===== *)
theory Protocol_Envelope
  imports Protocol_Canonical
begin

text \<open>
  The signed envelope of every control-plane message and the bounded replay cache
  (\<^verbatim>\<open>crates/volparossa-protocol/src/envelope.rs\<close>).

  The protobuf codecs, SHA-256 and Ed25519 are the parameter record \<open>control_env\<close>; a payload type is the
  record \<open>control_payload\<close> of its codec, discriminator and the two validations of the trait
  \<^verbatim>\<open>ControlPayload\<close>. The hash map of the replay cache is a list of entries with distinct keys.
\<close>

section \<open>Messages\<close>

definition message_types :: "control_message_type list" where
  "message_types =
    [Mt_Unspecified, Mt_NodeAdvertisement, Mt_ExitReservation, Mt_RelayAuthorization,
     Mt_RelayReservation, Mt_OpenTcp, Mt_UdpFlowAuthorization, Mt_ExitCapacityHoldRequest,
     Mt_RelayReservationRequest, Mt_ExitReservationConfirmation, Mt_ClientSessionCapability,
     Mt_ExitCapacityHold, Mt_RelayProbePermitRequest, Mt_RelayProbePermit, Mt_RelayProbeResult,
     Mt_ExitReservationFinalizeRequest, Mt_ExitConfirmationReceipt,
     Mt_PreselectionObservationReceipt, Mt_ForwardedPreselectionAttestation,
     Mt_NativeProbePermitRequest, Mt_NativeProbePermit, Mt_NativeProbeExitReady,
     Mt_NativeProbeRelayReady, Mt_NativeProbeStart, Mt_NativeProbeExitResult,
     Mt_NativeProbeRelayResult, Mt_NativeRouteCredentialDelivery, Mt_AdjacentReceiveBudget,
     Mt_AdjacentReceiveBudgetReceipt, Mt_RouteRetire, Mt_RetirementReceipt, Mt_DnsCacheQuery,
     Mt_DnsCacheReply, Mt_RouteExtensionRequest, Mt_RouteExtension, Mt_RouteExtensionRelayCommit,
     Mt_MptcpPathsRequest, Mt_MptcpPathsState]"

definition message_number :: "control_message_type \<Rightarrow> int" where
  "message_number t = int (length (takeWhile (\<lambda>u. u \<noteq> t) message_types))"

definition message_type_of :: "int \<Rightarrow> control_message_type option" where
  "message_type_of n =
     (if 0 \<le> n \<and> nat n < length message_types then Some (message_types ! nat n) else None)"

definition CONTROL_SIGNATURE_DOMAIN :: bytes where
  "CONTROL_SIGNATURE_DOMAIN = ascii ''volparossa/control-envelope/v4'' @ [0]"

definition NODE_ID_DOMAIN :: bytes where
  "NODE_ID_DOMAIN = ascii ''volparossa/node-id/v1'' @ [0]"

definition KEY_LENGTH :: nat where
  "KEY_LENGTH = 32"

definition NONCE_LENGTH :: nat where
  "NONCE_LENGTH = 32"

definition SIGNATURE_LENGTH :: nat where
  "SIGNATURE_LENGTH = 64"

definition PROTOCOL_VERSION :: nat where
  "PROTOCOL_VERSION = 4"

record signed_envelope =
  se_protocol_version :: nat
  se_sender_id :: bytes
  se_sender_public_key :: bytes
  se_timestamp_ms :: nat
  se_expires_at_ms :: nat
  se_nonce :: bytes
  se_message_type :: int
  se_payload :: bytes
  se_payload_hash :: bytes
  se_signature :: bytes

record signature_input =
  si_protocol_version :: nat
  si_sender_id :: bytes
  si_sender_public_key :: bytes
  si_timestamp_ms :: nat
  si_expires_at_ms :: nat
  si_nonce :: bytes
  si_message_type :: int
  si_payload_hash :: bytes

record control_env =
  ce_envelope :: "signed_envelope codec"
  ce_signature_input :: "signature_input codec"
  ce_sha256 :: "bytes \<Rightarrow> bytes"
  ce_key_ok :: "bytes \<Rightarrow> bool"
  ce_verify_strict :: "bytes \<Rightarrow> bytes \<Rightarrow> bytes \<Rightarrow> bool"

record 'm control_payload =
  cp_codec :: "'m codec"
  cp_type :: control_message_type
  cp_validate :: "'m \<Rightarrow> protocol_error + unit"
  cp_validate_envelope :: "'m \<Rightarrow> signed_envelope \<Rightarrow> protocol_error + unit"

section \<open>Validity windows\<close>

record time_policy =
  tp_maximum_lifetime_ms :: nat
  tp_maximum_clock_skew_ms :: nat

definition default_time_policy :: time_policy where
  "default_time_policy = \<lparr>tp_maximum_lifetime_ms = 15 * 60 * 1000, tp_maximum_clock_skew_ms = 60 * 1000\<rparr>"

definition validate_window :: "time_policy \<Rightarrow> nat \<Rightarrow> nat \<Rightarrow> protocol_error + unit" where
  "validate_window p timestamp_ms expires_at_ms =
     rbind (ok_or (checked_sub expires_at_ms timestamp_ms) Pe_InvalidLifetime) (\<lambda>lifetime.
     if lifetime = 0 \<or> tp_maximum_lifetime_ms p = 0 \<or> lifetime > tp_maximum_lifetime_ms p
     then Inl Pe_InvalidLifetime else Inr ())"

definition validate_at :: "time_policy \<Rightarrow> nat \<Rightarrow> nat \<Rightarrow> nat \<Rightarrow> protocol_error + unit" where
  "validate_at p timestamp_ms expires_at_ms now_ms =
     rbind (validate_window p timestamp_ms expires_at_ms) (\<lambda>_.
     if timestamp_ms > saturating_add_u64 now_ms (tp_maximum_clock_skew_ms p) then Inl Pe_NotYetValid
     else if expires_at_ms \<le> now_ms then Inl Pe_Expired
     else Inr ())"

section \<open>The replay cache\<close>

type_synonym replay_key = "bytes \<times> bytes"

record replay_cache =
  rc_maximum_entries :: nat
  rc_entries :: "(replay_key \<times> nat) list"

definition replay_new :: "nat \<Rightarrow> protocol_error + replay_cache" where
  "replay_new maximum_entries =
     (if maximum_entries = 0 then Inl (Pe_InvalidField ''replay cache maximum_entries'')
      else Inr \<lparr>rc_maximum_entries = maximum_entries, rc_entries = []\<rparr>)"

definition check_and_insert ::
  "bytes \<Rightarrow> bytes \<Rightarrow> nat \<Rightarrow> nat \<Rightarrow> replay_cache \<Rightarrow> (protocol_error + unit) \<times> replay_cache" where
  "check_and_insert sender_id nonce expires_at_ms now_ms c =
     (let live = filter (\<lambda>(_, expiry). expiry > now_ms) (rc_entries c);
          c' = c\<lparr>rc_entries := live\<rparr>;
          key = (sender_id, nonce) in
      if key \<in> fst ` set live then (Inl Pe_Replay, c')
      else if length live \<ge> rc_maximum_entries c then (Inl Pe_ReplayCapacity, c')
      else (Inr (), c'\<lparr>rc_entries := live @ [(key, expires_at_ms)]\<rparr>))"

definition rollback :: "bytes \<Rightarrow> bytes \<Rightarrow> replay_cache \<Rightarrow> bool \<times> replay_cache" where
  "rollback sender_id nonce c =
     ((sender_id, nonce) \<in> fst ` set (rc_entries c),
      c\<lparr>rc_entries := filter (\<lambda>(key, _). key \<noteq> (sender_id, nonce)) (rc_entries c)\<rparr>)"

section \<open>Signing and verification\<close>

definition all_zero :: "bytes \<Rightarrow> bool" where
  "all_zero bs \<longleftrightarrow> list_all (\<lambda>b. b = 0) bs"

definition fixed_array :: "nat \<Rightarrow> bytes \<Rightarrow> string \<Rightarrow> protocol_error + bytes" where
  "fixed_array n bs field = (if length bs = n then Inr bs else Inl (Pe_InvalidField field))"

definition node_id_from_public_key :: "control_env \<Rightarrow> bytes \<Rightarrow> bytes" where
  "node_id_from_public_key env public_key = ce_sha256 env (NODE_ID_DOMAIN @ public_key)"

definition signature_input_of :: "signed_envelope \<Rightarrow> signature_input" where
  "signature_input_of e =
     \<lparr>si_protocol_version = se_protocol_version e, si_sender_id = se_sender_id e,
      si_sender_public_key = se_sender_public_key e, si_timestamp_ms = se_timestamp_ms e,
      si_expires_at_ms = se_expires_at_ms e, si_nonce = se_nonce e,
      si_message_type = se_message_type e, si_payload_hash = se_payload_hash e\<rparr>"

definition control_signing_bytes :: "control_env \<Rightarrow> signed_envelope \<Rightarrow> protocol_error + bytes" where
  "control_signing_bytes env e =
     rbind (encode_canonical (ce_signature_input env) (signature_input_of e) MAX_CONTROL_MESSAGE_SIZE)
       (\<lambda>encoded. Inr (CONTROL_SIGNATURE_DOMAIN @ encoded))"

definition control_envelope ::
  "control_env \<Rightarrow> control_message_type \<Rightarrow> bytes \<Rightarrow> bytes \<Rightarrow> nat \<Rightarrow> nat \<Rightarrow> bytes \<Rightarrow> signed_envelope" where
  "control_envelope env t payload_bytes public_key timestamp_ms expires_at_ms nonce =
     \<lparr>se_protocol_version = PROTOCOL_VERSION, se_sender_id = node_id_from_public_key env public_key,
      se_sender_public_key = public_key, se_timestamp_ms = timestamp_ms, se_expires_at_ms = expires_at_ms,
      se_nonce = nonce, se_message_type = message_number t, se_payload = payload_bytes,
      se_payload_hash = ce_sha256 env payload_bytes, se_signature = []\<rparr>"

definition sign_control_message_with ::
  "control_env \<Rightarrow> 'm control_payload \<Rightarrow> 'm \<Rightarrow> bytes \<Rightarrow> nat \<Rightarrow> nat \<Rightarrow> bytes \<Rightarrow> time_policy
     \<Rightarrow> (bytes \<Rightarrow> bytes option) \<Rightarrow> protocol_error + bytes" where
  "sign_control_message_with env p payload public_key timestamp_ms expires_at_ms nonce policy signer =
     rbind (validate_window policy timestamp_ms expires_at_ms) (\<lambda>_.
     if all_zero nonce then Inl (Pe_InvalidField ''nonce'') else
     rbind (cp_validate p payload) (\<lambda>_.
     rbind (encode_canonical (cp_codec p) payload MAX_CONTROL_PAYLOAD_SIZE) (\<lambda>payload_bytes.
     let envelope = control_envelope env (cp_type p) payload_bytes public_key timestamp_ms expires_at_ms nonce in
     rbind (cp_validate_envelope p payload envelope) (\<lambda>_.
     rbind (control_signing_bytes env envelope) (\<lambda>input.
     rbind (ok_or (signer input) Pe_SigningFailed) (\<lambda>signature.
     if \<not> ce_key_ok env public_key then Inl Pe_SigningFailed
     else if \<not> ce_verify_strict env public_key input signature then Inl Pe_SigningFailed
     else encode_canonical (ce_envelope env) (envelope\<lparr>se_signature := signature\<rparr>) MAX_CONTROL_MESSAGE_SIZE))))))"

definition sign_control_message ::
  "control_env \<Rightarrow> 'm control_payload \<Rightarrow> 'm \<Rightarrow> (bytes \<Rightarrow> bytes) \<Rightarrow> bytes \<Rightarrow> nat \<Rightarrow> nat \<Rightarrow> bytes
     \<Rightarrow> time_policy \<Rightarrow> protocol_error + bytes" where
  "sign_control_message env p payload sign public_key timestamp_ms expires_at_ms nonce policy =
     sign_control_message_with env p payload public_key timestamp_ms expires_at_ms nonce policy
       (\<lambda>message. Some (sign message))"

definition verify_envelope ::
  "control_env \<Rightarrow> signed_envelope \<Rightarrow> nat \<Rightarrow> time_policy
     \<Rightarrow> protocol_error + bytes \<times> bytes \<times> bytes \<times> control_message_type" where
  "verify_envelope env e now_ms policy =
     (if se_protocol_version e \<noteq> PROTOCOL_VERSION then Inl (Pe_UnsupportedVersion (se_protocol_version e)) else
      rbind (validate_at policy (se_timestamp_ms e) (se_expires_at_ms e) now_ms) (\<lambda>_.
      if length (se_payload e) > MAX_CONTROL_PAYLOAD_SIZE
      then Inl (Pe_Oversized ''control payload'' MAX_CONTROL_PAYLOAD_SIZE) else
      rbind (fixed_array KEY_LENGTH (se_sender_id e) ''sender_id'') (\<lambda>sender_id.
      rbind (fixed_array KEY_LENGTH (se_sender_public_key e) ''sender_public_key'') (\<lambda>sender_public_key.
      rbind (fixed_array NONCE_LENGTH (se_nonce e) ''nonce'') (\<lambda>nonce.
      if all_zero nonce then Inl (Pe_InvalidField ''nonce'') else
      rbind (fixed_array KEY_LENGTH (se_payload_hash e) ''payload_hash'') (\<lambda>payload_hash.
      rbind (fixed_array SIGNATURE_LENGTH (se_signature e) ''signature'') (\<lambda>signature.
      if node_id_from_public_key env sender_public_key \<noteq> sender_id then Inl Pe_SenderKeyMismatch
      else if ce_sha256 env (se_payload e) \<noteq> payload_hash then Inl Pe_PayloadHashMismatch else
      rbind (ok_or (message_type_of (se_message_type e)) (Pe_UnknownMessageType (se_message_type e))) (\<lambda>t.
      if t = Mt_Unspecified then Inl (Pe_UnknownMessageType (se_message_type e))
      else if \<not> ce_key_ok env sender_public_key then Inl Pe_InvalidSignature else
      rbind (control_signing_bytes env e) (\<lambda>input.
      if \<not> ce_verify_strict env sender_public_key input signature then Inl Pe_InvalidSignature
      else Inr (sender_id, sender_public_key, nonce, t))))))))))"

record 'm verified_control_message =
  vm_message :: 'm
  vm_sender_id :: bytes
  vm_sender_public_key :: bytes
  vm_timestamp_ms :: nat
  vm_expires_at_ms :: nat
  vm_nonce :: bytes

text \<open>Everything before the replay check; it does not touch the cache.\<close>

definition verify_payload ::
  "control_env \<Rightarrow> 'm control_payload \<Rightarrow> bytes \<Rightarrow> nat \<Rightarrow> time_policy \<Rightarrow> protocol_error + 'm verified_control_message" where
  "verify_payload env p encoded now_ms policy =
     rbind (decode_canonical (ce_envelope env) encoded MAX_CONTROL_MESSAGE_SIZE) (\<lambda>e.
     rbind (verify_envelope env e now_ms policy) (\<lambda>(sender_id, sender_public_key, nonce, actual_type).
     if actual_type \<noteq> cp_type p then Inl (Pe_WrongMessageType (cp_type p) actual_type) else
     rbind (decode_canonical (cp_codec p) (se_payload e) MAX_CONTROL_PAYLOAD_SIZE) (\<lambda>payload.
     rbind (cp_validate p payload) (\<lambda>_.
     rbind (cp_validate_envelope p payload e) (\<lambda>_.
     Inr \<lparr>vm_message = payload, vm_sender_id = sender_id, vm_sender_public_key = sender_public_key,
          vm_timestamp_ms = se_timestamp_ms e, vm_expires_at_ms = se_expires_at_ms e, vm_nonce = nonce\<rparr>)))))"

definition verify_control_message ::
  "control_env \<Rightarrow> 'm control_payload \<Rightarrow> bytes \<Rightarrow> nat \<Rightarrow> time_policy \<Rightarrow> replay_cache
     \<Rightarrow> (protocol_error + 'm verified_control_message) \<times> replay_cache" where
  "verify_control_message env p encoded now_ms policy cache =
     (case verify_payload env p encoded now_ms policy of
        Inl err \<Rightarrow> (Inl err, cache)
      | Inr v \<Rightarrow>
          (case check_and_insert (vm_sender_id v) (vm_nonce v) (vm_expires_at_ms v) now_ms cache of
             (Inl err, cache') \<Rightarrow> (Inl err, cache')
           | (Inr _, cache') \<Rightarrow> (Inr v, cache')))"

section \<open>The cache keeps its bound and its live entries\<close>

definition cache_inv :: "replay_cache \<Rightarrow> bool" where
  "cache_inv c \<longleftrightarrow> distinct (map fst (rc_entries c)) \<and> length (rc_entries c) \<le> rc_maximum_entries c"

datatype cache_call =
    Cache_Check bytes bytes nat nat
  | Cache_Rollback bytes bytes

fun cache_step :: "cache_call \<Rightarrow> replay_cache \<Rightarrow> bool \<times> replay_cache" where
  "cache_step (Cache_Check sender_id nonce expires_at_ms now_ms) c =
     (case check_and_insert sender_id nonce expires_at_ms now_ms c of (r, c') \<Rightarrow> (is_ok r, c'))"
| "cache_step (Cache_Rollback sender_id nonce) c = rollback sender_id nonce c"

definition live_entries :: "nat \<Rightarrow> replay_cache \<Rightarrow> (replay_key \<times> nat) list" where
  "live_entries now c = filter (\<lambda>(_, expiry). expiry > now) (rc_entries c)"

lemma check_and_insert_eq:
  "check_and_insert s n x now c =
     (if (s, n) \<in> fst ` set (live_entries now c) then (Inl Pe_Replay, c\<lparr>rc_entries := live_entries now c\<rparr>)
      else if length (live_entries now c) \<ge> rc_maximum_entries c
      then (Inl Pe_ReplayCapacity, c\<lparr>rc_entries := live_entries now c\<rparr>)
      else (Inr (), c\<lparr>rc_entries := live_entries now c @ [((s, n), x)]\<rparr>))"
  by (simp add: check_and_insert_def live_entries_def Let_def)

lemma live_entries_inv:
  assumes "cache_inv c"
  shows "distinct (map fst (live_entries now c))" "length (live_entries now c) \<le> rc_maximum_entries c"
  using assms by (auto simp: cache_inv_def live_entries_def distinct_map_filter intro: order_trans [OF length_filter_le])

interpretation cache: invariant_component cache_step cache_inv
proof
  fix call c
  assume c: "cache_inv c"
  show "cache_inv (snd (cache_step call c))"
  proof (cases call)
    case (Cache_Check s n x now)
    then show ?thesis
      using live_entries_inv [OF c, of now] by (auto simp: check_and_insert_eq cache_inv_def)
  next
    case (Cache_Rollback s n)
    have "length (filter (\<lambda>(key, _). key \<noteq> (s, n)) (rc_entries c)) \<le> rc_maximum_entries c"
      using c length_filter_le [of "\<lambda>(key, _). key \<noteq> (s, n)" "rc_entries c"] unfolding cache_inv_def by linarith
    with c Cache_Rollback show ?thesis by (simp add: rollback_def cache_inv_def distinct_map_filter)
  qed
qed

lemma rc_maximum_step: "rc_maximum_entries (snd (cache_step call c)) = rc_maximum_entries c"
  by (cases call) (simp_all add: check_and_insert_eq rollback_def)

lemma rc_maximum_run: "rc_maximum_entries (run_ops cache_step calls c) = rc_maximum_entries c"
  by (induction calls arbitrary: c) (simp_all add: rc_maximum_step)

text \<open>An entry stays until it expires, unless it is rolled back.\<close>

definition call_keeps :: "replay_key \<times> nat \<Rightarrow> cache_call \<Rightarrow> bool" where
  "call_keeps entry call \<longleftrightarrow>
     (case call of Cache_Check _ _ _ now \<Rightarrow> now < snd entry | Cache_Rollback s n \<Rightarrow> (s, n) \<noteq> fst entry)"

lemma entry_kept_step:
  assumes "entry \<in> set (rc_entries c)" "call_keeps entry call"
  shows "entry \<in> set (rc_entries (snd (cache_step call c)))"
  using assms by (cases call) (auto simp: call_keeps_def check_and_insert_eq live_entries_def rollback_def)

lemma entry_kept_run:
  assumes "entry \<in> set (rc_entries c)" "\<forall>call \<in> set calls. call_keeps entry call"
  shows "entry \<in> set (rc_entries (run_ops cache_step calls c))"
  using assms by (induction calls arbitrary: c) (simp_all add: entry_kept_step)

lemma check_and_insert_ok:
  assumes "check_and_insert s n x now c = (Inr u, c')"
  shows "((s, n), x) \<in> set (rc_entries c')" "(s, n) \<notin> fst ` set (live_entries now c)"
    "rc_maximum_entries c' = rc_maximum_entries c"
    "c' = c\<lparr>rc_entries := live_entries now c @ [((s, n), x)]\<rparr>"
  using assms by (auto simp: check_and_insert_eq split: if_splits)

section \<open>What verification accepts\<close>

lemma message_type_of_number: "message_type_of (message_number t) = Some t"
  by (cases t) (simp_all add: message_type_of_def message_number_def message_types_def nth_Cons')

lemma fixed_array_Inr [result_simps]: "fixed_array n bs f = Inr b \<longleftrightarrow> length bs = n \<and> b = bs"
  by (auto simp: fixed_array_def)

lemma validate_window_Inr [result_simps]:
  "validate_window p t x = Inr u \<longleftrightarrow> t < x \<and> x - t \<le> tp_maximum_lifetime_ms p"
  by (auto simp: validate_window_def result_simps)

lemma validate_at_Inr [result_simps]:
  "validate_at p t x now = Inr u \<longleftrightarrow> t < x \<and> x - t \<le> tp_maximum_lifetime_ms p
     \<and> t \<le> saturating_add_u64 now (tp_maximum_clock_skew_ms p) \<and> now < x"
  by (auto simp: validate_at_def result_simps)

text \<open>
  An authentic envelope: the bytes are its one encoding, its window contains the present and is short,
  the sender is the hash of a usable key, the payload is the hashed one, the nonce is not zero, and the
  sender's key verifies the signature over the domain-separated fields.
\<close>

definition control_authentic ::
  "control_env \<Rightarrow> bytes \<Rightarrow> nat \<Rightarrow> time_policy \<Rightarrow> signed_envelope \<Rightarrow> control_message_type \<Rightarrow> bool" where
  "control_authentic env encoded now policy e t \<longleftrightarrow>
     length encoded \<le> MAX_CONTROL_MESSAGE_SIZE \<and> cd_decode (ce_envelope env) encoded = Some e
     \<and> cd_encode (ce_envelope env) e = encoded
     \<and> se_protocol_version e = PROTOCOL_VERSION
     \<and> se_timestamp_ms e < se_expires_at_ms e
     \<and> se_expires_at_ms e - se_timestamp_ms e \<le> tp_maximum_lifetime_ms policy
     \<and> se_timestamp_ms e \<le> saturating_add_u64 now (tp_maximum_clock_skew_ms policy)
     \<and> now < se_expires_at_ms e
     \<and> length (se_payload e) \<le> MAX_CONTROL_PAYLOAD_SIZE
     \<and> length (se_sender_id e) = KEY_LENGTH \<and> length (se_sender_public_key e) = KEY_LENGTH
     \<and> length (se_nonce e) = NONCE_LENGTH \<and> \<not> all_zero (se_nonce e)
     \<and> length (se_payload_hash e) = KEY_LENGTH \<and> length (se_signature e) = SIGNATURE_LENGTH
     \<and> se_sender_id e = node_id_from_public_key env (se_sender_public_key e)
     \<and> se_payload_hash e = ce_sha256 env (se_payload e)
     \<and> message_type_of (se_message_type e) = Some t \<and> t \<noteq> Mt_Unspecified
     \<and> ce_key_ok env (se_sender_public_key e)
     \<and> length (cd_encode (ce_signature_input env) (signature_input_of e)) \<le> MAX_CONTROL_MESSAGE_SIZE
     \<and> ce_verify_strict env (se_sender_public_key e)
         (CONTROL_SIGNATURE_DOMAIN @ cd_encode (ce_signature_input env) (signature_input_of e)) (se_signature e)"

lemma verify_envelope_Inr:
  "decode_canonical (ce_envelope env) encoded MAX_CONTROL_MESSAGE_SIZE = Inr e
     \<and> verify_envelope env e now policy = Inr r \<longleftrightarrow>
   (\<exists>t. control_authentic env encoded now policy e t
      \<and> r = (se_sender_id e, se_sender_public_key e, se_nonce e, t))"
  unfolding verify_envelope_def control_authentic_def control_signing_bytes_def decode_canonical_Inr
  by (auto simp: result_simps)

definition verified_of :: "signed_envelope \<Rightarrow> 'm \<Rightarrow> 'm verified_control_message" where
  "verified_of e m = \<lparr>vm_message = m, vm_sender_id = se_sender_id e, vm_sender_public_key = se_sender_public_key e,
     vm_timestamp_ms = se_timestamp_ms e, vm_expires_at_ms = se_expires_at_ms e, vm_nonce = se_nonce e\<rparr>"

lemma verified_of_sel [simp]:
  "vm_message (verified_of e m) = m" "vm_sender_id (verified_of e m) = se_sender_id e"
  "vm_sender_public_key (verified_of e m) = se_sender_public_key e"
  "vm_timestamp_ms (verified_of e m) = se_timestamp_ms e"
  "vm_expires_at_ms (verified_of e m) = se_expires_at_ms e" "vm_nonce (verified_of e m) = se_nonce e"
  by (simp_all add: verified_of_def)

definition payload_accepted :: "'m control_payload \<Rightarrow> signed_envelope \<Rightarrow> 'm \<Rightarrow> bool" where
  "payload_accepted p e m \<longleftrightarrow>
     cd_decode (cp_codec p) (se_payload e) = Some m \<and> cd_encode (cp_codec p) m = se_payload e
     \<and> cp_validate p m = Inr () \<and> cp_validate_envelope p m e = Inr ()"

lemma verify_payload_Inr:
  "verify_payload env p encoded now policy = Inr v \<longleftrightarrow>
   (\<exists>e m. control_authentic env encoded now policy e (cp_type p) \<and> payload_accepted p e m \<and> v = verified_of e m)"
    (is "?l \<longleftrightarrow> ?r")
proof
  assume ?l
  then obtain e s k n t m where d: "decode_canonical (ce_envelope env) encoded MAX_CONTROL_MESSAGE_SIZE = Inr e"
    "verify_envelope env e now policy = Inr (s, k, n, t)" and t: "t = cp_type p"
    and m: "decode_canonical (cp_codec p) (se_payload e) MAX_CONTROL_PAYLOAD_SIZE = Inr m"
      "cp_validate p m = Inr ()" "cp_validate_envelope p m e = Inr ()"
    and v: "v = \<lparr>vm_message = m, vm_sender_id = s, vm_sender_public_key = k,
        vm_timestamp_ms = se_timestamp_ms e, vm_expires_at_ms = se_expires_at_ms e, vm_nonce = n\<rparr>"
    by (auto simp: verify_payload_def result_simps split: if_splits)
  from d have a: "control_authentic env encoded now policy e t" "s = se_sender_id e" "k = se_sender_public_key e"
    "n = se_nonce e" using verify_envelope_Inr [of env encoded e now policy "(s, k, n, t)"] by auto
  with m v t show ?r by (auto simp: payload_accepted_def verified_of_def decode_canonical_Inr)
next
  assume ?r
  then obtain e m where a: "control_authentic env encoded now policy e (cp_type p)" and m: "payload_accepted p e m"
    and v: "v = verified_of e m" by blast
  from a have d: "decode_canonical (ce_envelope env) encoded MAX_CONTROL_MESSAGE_SIZE = Inr e"
    "verify_envelope env e now policy = Inr (se_sender_id e, se_sender_public_key e, se_nonce e, cp_type p)"
    using verify_envelope_Inr [of env encoded e now policy "(se_sender_id e, se_sender_public_key e, se_nonce e, cp_type p)"]
    by blast+
  moreover have "decode_canonical (cp_codec p) (se_payload e) MAX_CONTROL_PAYLOAD_SIZE = Inr m"
    using m a by (simp add: payload_accepted_def decode_canonical_Inr control_authentic_def)
  ultimately show ?l
    using m v by (simp add: verify_payload_def payload_accepted_def verified_of_def)
qed

lemma verify_control_message_Inr:
  "verify_control_message env p encoded now policy c = (Inr v, c') \<longleftrightarrow>
     verify_payload env p encoded now policy = Inr v
     \<and> check_and_insert (vm_sender_id v) (vm_nonce v) (vm_expires_at_ms v) now c = (Inr (), c')"
  by (auto simp: verify_control_message_def split: sum.splits prod.splits)

lemma verify_ok_iff:
  "fst (verify_control_message env p encoded now policy c) = Inr v \<longleftrightarrow>
     verify_payload env p encoded now policy = Inr v
     \<and> (vm_sender_id v, vm_nonce v) \<notin> fst ` set (live_entries now c)
     \<and> length (live_entries now c) < rc_maximum_entries c"
proof -
  have "fst (verify_control_message env p encoded now policy c) = Inr v \<longleftrightarrow>
      (\<exists>c'. verify_control_message env p encoded now policy c = (Inr v, c'))"
    by (metis fst_conv prod.collapse)
  then show ?thesis unfolding verify_control_message_Inr check_and_insert_eq by auto
qed

section \<open>Properties\<close>

text \<open>
  Claim C10. Verification accepts exactly the authentic, new messages, and records them. A control message is accepted,
  leaving the cache \<open>c'\<close>, if and only if its bytes are the canonical encoding of an authentic envelope of the expected
  type whose payload is canonical and valid, its sender and nonce are not among the live entries of the cache, the
  cache has room, and \<open>c'\<close> is the cache with its expired entries dropped and exactly the entry of this sender and nonce,
  kept to the end of the envelope's window, added. The returned message carries the fields that were signed. A refused
  message adds nothing: the cache is unchanged, or has only lost its expired entries.
\<close>

theorem verify_control_message_iff:
  "(verify_control_message env p encoded now policy c = (Inr v, c') \<longleftrightarrow>
     (\<exists>e m. control_authentic env encoded now policy e (cp_type p) \<and> payload_accepted p e m \<and> v = verified_of e m
        \<and> (se_sender_id e, se_nonce e) \<notin> fst ` set (live_entries now c)
        \<and> length (live_entries now c) < rc_maximum_entries c
        \<and> c' = c\<lparr>rc_entries := live_entries now c @ [((se_sender_id e, se_nonce e), se_expires_at_ms e)]\<rparr>))
   \<and> (verify_control_message env p encoded now policy c = (Inl err, c') \<longrightarrow>
        c' = c \<or> c' = c\<lparr>rc_entries := live_entries now c\<rparr>)"
proof
  show "verify_control_message env p encoded now policy c = (Inr v, c') \<longleftrightarrow>
     (\<exists>e m. control_authentic env encoded now policy e (cp_type p) \<and> payload_accepted p e m \<and> v = verified_of e m
        \<and> (se_sender_id e, se_nonce e) \<notin> fst ` set (live_entries now c)
        \<and> length (live_entries now c) < rc_maximum_entries c
        \<and> c' = c\<lparr>rc_entries := live_entries now c @ [((se_sender_id e, se_nonce e), se_expires_at_ms e)]\<rparr>)"
    unfolding verify_control_message_Inr verify_payload_Inr check_and_insert_eq
    by (auto simp: verified_of_def image_iff split: if_splits) (metis fst_conv)
  show "verify_control_message env p encoded now policy c = (Inl err, c') \<longrightarrow>
      c' = c \<or> c' = c\<lparr>rc_entries := live_entries now c\<rparr>"
    by (auto simp: verify_control_message_def check_and_insert_eq split: sum.splits prod.splits if_splits)
qed

text \<open>
  Claim C36. An accepted message is never accepted again. After a message has been accepted, and whatever
  other messages the cache sees and whatever other entries are rolled back, the same bytes are refused at
  every time not before the clock readings of those other calls; and no other message with the same
  sender and nonce is accepted before the first one has expired. The cache stays within its limit.
\<close>

theorem accepted_never_replayed:
  assumes "cache_inv c"
    and "verify_control_message env p encoded t0 policy c = (Inr v, c0)"
    and "c1 = run_ops cache_step calls c0"
    and "\<forall>s n x t. Cache_Check s n x t \<in> set calls \<longrightarrow> t \<le> now"
    and "Cache_Rollback (vm_sender_id v) (vm_nonce v) \<notin> set calls"
  shows "(\<forall>p' policy'. \<not> is_ok (fst (verify_control_message env p' encoded now policy' c1)))
    \<and> (\<forall>p' encoded' policy' v'. fst (verify_control_message env p' encoded' now policy' c1) = Inr v' \<longrightarrow>
         vm_sender_id v' = vm_sender_id v \<longrightarrow> vm_nonce v' = vm_nonce v \<longrightarrow> vm_expires_at_ms v \<le> now)
    \<and> length (rc_entries c1) \<le> rc_maximum_entries c"
proof -
  let ?entry = "((vm_sender_id v, vm_nonce v), vm_expires_at_ms v)"
  from assms(2) have pay: "verify_payload env p encoded t0 policy = Inr v"
    and ins: "check_and_insert (vm_sender_id v) (vm_nonce v) (vm_expires_at_ms v) t0 c = (Inr (), c0)"
    unfolding verify_control_message_Inr by auto
  have kept: "?entry \<in> set (live_entries now c1)" if "now < vm_expires_at_ms v"
  proof -
    have "\<forall>call \<in> set calls. call_keeps ?entry call"
      using assms(4,5) that by (fastforce simp: call_keeps_def split: cache_call.split)
    with check_and_insert_ok(1) [OF ins] have "?entry \<in> set (rc_entries c1)"
      unfolding assms(3) by (intro entry_kept_run)
    with that show ?thesis by (simp add: live_entries_def)
  qed
  have later: "vm_expires_at_ms v \<le> now"
    if "fst (verify_control_message env p' encoded' now policy' c1) = Inr v'"
      "vm_sender_id v' = vm_sender_id v" "vm_nonce v' = vm_nonce v" for p' encoded' policy' v'
  proof (rule ccontr)
    assume "\<not> vm_expires_at_ms v \<le> now"
    then have "?entry \<in> set (live_entries now c1)" using kept by simp
    then have "(vm_sender_id v, vm_nonce v) \<in> fst ` set (live_entries now c1)" by force
    with that show False unfolding verify_ok_iff by metis
  qed
  moreover have "\<not> is_ok (fst (verify_control_message env p' encoded now policy' c1))" for p' policy'
  proof
    assume "is_ok (fst (verify_control_message env p' encoded now policy' c1))"
    then obtain v' where v': "fst (verify_control_message env p' encoded now policy' c1) = Inr v'"
      by (auto simp: is_ok_conv)
    then obtain e' m' where e': "control_authentic env encoded now policy' e' (cp_type p')" "v' = verified_of e' m'"
      unfolding verify_ok_iff verify_payload_Inr by blast
    from pay obtain e m where e: "control_authentic env encoded t0 policy e (cp_type p)" "v = verified_of e m"
      unfolding verify_payload_Inr by blast
    from e(1) e'(1) have "e' = e" by (simp add: control_authentic_def)
    with e e' have "vm_expires_at_ms v \<le> now" by (intro later [OF v']) simp_all
    with e' \<open>e' = e\<close> e(2) show False by (simp add: control_authentic_def)
  qed
  moreover have "length (rc_entries c1) \<le> rc_maximum_entries c"
  proof -
    have "cache_inv c0"
      using cache.op_inv [OF assms(1), of "Cache_Check (vm_sender_id v) (vm_nonce v) (vm_expires_at_ms v) t0"] ins by simp
    then have "cache_inv c1" unfolding assms(3) by (rule cache.run_inv)
    then show ?thesis
      using check_and_insert_ok(3) [OF ins] by (simp add: cache_inv_def assms(3) rc_maximum_run)
  qed
  ultimately show ?thesis by blast
qed

text \<open>
  Claim C37. What is signed verifies. If signing a payload produces bytes, then at every time in the signed
  window, on a cache with room that has not seen the nonce, the bytes verify and give back the payload, the
  signer's key and identifier, and the signed window. The codecs decode what they encode, and
  the hash, the key and the signature have their fixed lengths.
\<close>

theorem control_sign_verify_roundtrip:
  assumes "sign_control_message_with env p m key t x nonce policy signer = Inr bs"
    and "cd_decode (cp_codec p) (cd_encode (cp_codec p) m) = Some m"
    and "\<And>e. cd_encode (ce_envelope env) e = bs \<Longrightarrow> cd_decode (ce_envelope env) bs = Some e"
    and "\<And>b. length (ce_sha256 env b) = KEY_LENGTH" and "length key = KEY_LENGTH" and "length nonce = NONCE_LENGTH"
    and "\<And>b s. signer b = Some s \<Longrightarrow> length s = SIGNATURE_LENGTH"
    and "\<And>e e'. cp_validate_envelope p m (e\<lparr>se_signature := e'\<rparr>) = cp_validate_envelope p m e"
    and "cp_type p \<noteq> Mt_Unspecified"
    and "t \<le> saturating_add_u64 now (tp_maximum_clock_skew_ms policy)" and "now < x"
    and "(node_id_from_public_key env key, nonce) \<notin> fst ` set (live_entries now c)"
    and "length (live_entries now c) < rc_maximum_entries c"
  shows "fst (verify_control_message env p bs now policy c) =
    Inr \<lparr>vm_message = m, vm_sender_id = node_id_from_public_key env key, vm_sender_public_key = key,
         vm_timestamp_ms = t, vm_expires_at_ms = x, vm_nonce = nonce\<rparr>"
proof -
  define u where "u = control_envelope env (cp_type p) (cd_encode (cp_codec p) m) key t x nonce"
  from assms(1) obtain s where s: "t < x" "x - t \<le> tp_maximum_lifetime_ms policy" "\<not> all_zero nonce"
      "cp_validate p m = Inr ()" "length (cd_encode (cp_codec p) m) \<le> MAX_CONTROL_PAYLOAD_SIZE"
      "cp_validate_envelope p m u = Inr ()"
      "length (cd_encode (ce_signature_input env) (signature_input_of u)) \<le> MAX_CONTROL_MESSAGE_SIZE"
      "signer (CONTROL_SIGNATURE_DOMAIN @ cd_encode (ce_signature_input env) (signature_input_of u)) = Some s"
      "ce_key_ok env key"
      "ce_verify_strict env key (CONTROL_SIGNATURE_DOMAIN @ cd_encode (ce_signature_input env) (signature_input_of u)) s"
      "bs = cd_encode (ce_envelope env) (u\<lparr>se_signature := s\<rparr>)" "length bs \<le> MAX_CONTROL_MESSAGE_SIZE"
    by (auto simp: sign_control_message_with_def result_simps Let_def control_signing_bytes_def u_def split: if_splits)
  let ?e = "u\<lparr>se_signature := s\<rparr>"
  have f: "se_protocol_version ?e = PROTOCOL_VERSION" "se_sender_id ?e = node_id_from_public_key env key"
    "se_sender_public_key ?e = key" "se_timestamp_ms ?e = t" "se_expires_at_ms ?e = x" "se_nonce ?e = nonce"
    "se_message_type ?e = message_number (cp_type p)" "se_payload ?e = cd_encode (cp_codec p) m"
    "se_payload_hash ?e = ce_sha256 env (cd_encode (cp_codec p) m)" "se_signature ?e = s"
    "signature_input_of ?e = signature_input_of u"
    by (simp_all add: u_def control_envelope_def signature_input_of_def)
  have "cd_decode (ce_envelope env) bs = Some ?e" by (rule assms(3)) (use s f in simp_all)
  then have "control_authentic env bs now policy ?e (cp_type p)"
    unfolding control_authentic_def f
    using s assms(4-7,9-11) by (simp add: message_type_of_number node_id_from_public_key_def)
  moreover have "payload_accepted p ?e m"
    unfolding payload_accepted_def f using s assms(2,8) by simp
  ultimately have "verify_payload env p bs now policy = Inr (verified_of ?e m)"
    unfolding verify_payload_Inr by blast
  then show ?thesis unfolding verify_ok_iff using assms(12,13) f by (simp add: verified_of_def)
qed

section \<open>A concrete instance\<close>

definition demo_control_payload :: "bytes control_payload" where
  "demo_control_payload = \<lparr>cp_codec = \<lparr>cd_encode = (\<lambda>m. m), cd_decode = Some\<rparr>, cp_type = Mt_DnsCacheQuery,
     cp_validate = (\<lambda>m. ensure (m \<noteq> []) (Pe_InvalidField ''query'')), cp_validate_envelope = (\<lambda>_ _. Inr ())\<rparr>"

definition demo_control_envelope :: signed_envelope where
  "demo_control_envelope = \<lparr>se_protocol_version = 4, se_sender_id = replicate 32 3, se_sender_public_key = replicate 32 1,
     se_timestamp_ms = 1000, se_expires_at_ms = 2000, se_nonce = replicate 32 2, se_message_type = 31,
     se_payload = [9], se_payload_hash = replicate 32 3, se_signature = replicate 64 5\<rparr>"

definition demo_control_env :: control_env where
  "demo_control_env = \<lparr>ce_envelope = table_codec [(demo_control_envelope, [1])],
     ce_signature_input = \<lparr>cd_encode = (\<lambda>_. [7]), cd_decode = (\<lambda>_. None)\<rparr>,
     ce_sha256 = (\<lambda>_. replicate 32 3), ce_key_ok = (\<lambda>_. True), ce_verify_strict = (\<lambda>_ _ s. s = replicate 64 5)\<rparr>"

definition demo_cache :: replay_cache where
  "demo_cache = \<lparr>rc_maximum_entries = 2, rc_entries = [((replicate 32 3, replicate 32 4), 1800)]\<rparr>"

definition demo_control_message :: "bytes verified_control_message" where
  "demo_control_message = verified_of demo_control_envelope [9]"

lemma demo_control_accepted:
  "verify_control_message demo_control_env demo_control_payload [1] 1500 default_time_policy demo_cache =
     (Inr demo_control_message,
      demo_cache\<lparr>rc_entries := rc_entries demo_cache @ [((replicate 32 3, replicate 32 2), 2000)]\<rparr>)"
  by code_simp

theorem verify_control_message_iff_witness:
  "control_authentic demo_control_env [1] 1500 default_time_policy demo_control_envelope Mt_DnsCacheQuery
    \<and> snd (verify_control_message demo_control_env demo_control_payload [1] 1500 default_time_policy demo_cache) =
        demo_cache\<lparr>rc_entries := live_entries 1500 demo_cache @ [((replicate 32 3, replicate 32 2), 2000)]\<rparr>
    \<and> snd (verify_control_message demo_control_env demo_control_payload [1] 2000 default_time_policy demo_cache) = demo_cache"
proof -
  obtain e where e: "control_authentic demo_control_env [1] 1500 default_time_policy e (cp_type demo_control_payload)"
    "demo_cache\<lparr>rc_entries := rc_entries demo_cache @ [((replicate 32 3, replicate 32 2), 2000)]\<rparr> =
      demo_cache\<lparr>rc_entries := live_entries 1500 demo_cache @ [((se_sender_id e, se_nonce e), se_expires_at_ms e)]\<rparr>"
    using demo_control_accepted [unfolded verify_control_message_iff [THEN conjunct1]] by blast
  have "cd_decode (ce_envelope demo_control_env) [1] = Some demo_control_envelope" by code_simp
  with e(1) have d: "e = demo_control_envelope" by (simp add: control_authentic_def)
  have "snd (verify_control_message demo_control_env demo_control_payload [1] 2000 default_time_policy demo_cache) = demo_cache"
    by code_simp
  then show ?thesis
    using e unfolding d demo_control_accepted snd_conv by (simp add: demo_control_payload_def demo_control_envelope_def)
qed

theorem accepted_never_replayed_witness:
  "\<not> is_ok (fst (verify_control_message demo_control_env demo_control_payload [1] 1900 default_time_policy
     (run_ops cache_step [Cache_Check (replicate 32 8) (replicate 32 2) 2500 1850, Cache_Rollback (replicate 32 8) (replicate 32 2)]
       (demo_cache\<lparr>rc_entries := rc_entries demo_cache @ [((replicate 32 3, replicate 32 2), 2000)]\<rparr>))))"
proof -
  have "cache_inv demo_cache" by code_simp
  moreover have "vm_sender_id demo_control_message = replicate 32 3" by code_simp
  moreover have "(replicate 32 3 :: bytes) \<noteq> replicate 32 8" by code_simp
  ultimately show ?thesis
    using accepted_never_replayed [OF _ demo_control_accepted refl, of
        "[Cache_Check (replicate 32 8) (replicate 32 2) 2500 1850, Cache_Rollback (replicate 32 8) (replicate 32 2)]" 1900]
    by auto
qed

theorem control_sign_verify_roundtrip_witness:
  "\<exists>bs. sign_control_message_with demo_control_env demo_control_payload [9] (replicate 32 1) 1000 2000 (replicate 32 2)
      default_time_policy (\<lambda>_. Some (replicate 64 5)) = Inr bs
    \<and> fst (verify_control_message demo_control_env demo_control_payload bs 1500 default_time_policy demo_cache) =
      Inr demo_control_message"
proof -
  have s: "sign_control_message_with demo_control_env demo_control_payload [9] (replicate 32 1) 1000 2000 (replicate 32 2)
      default_time_policy (\<lambda>_. Some (replicate 64 5)) = Inr [1]"
    by code_simp
  have "cd_decode (ce_envelope demo_control_env) [1] = Some e" if "cd_encode (ce_envelope demo_control_env) e = [1]" for e
    using that by (auto simp: demo_control_env_def table_codec_def split: option.splits if_splits)
  moreover have "cd_decode (cp_codec demo_control_payload) (cd_encode (cp_codec demo_control_payload) [9]) = Some [9]"
    "cp_type demo_control_payload \<noteq> Mt_Unspecified" by code_simp+
  moreover have "(node_id_from_public_key demo_control_env (replicate 32 1), replicate 32 2) \<notin> fst ` set (live_entries 1500 demo_cache)"
    "length (live_entries 1500 demo_cache) < rc_maximum_entries demo_cache" by code_simp+
  moreover have "(1000::nat) \<le> saturating_add_u64 1500 (tp_maximum_clock_skew_ms default_time_policy)" by code_simp
  moreover have "length (ce_sha256 demo_control_env b) = KEY_LENGTH" for b
    by (simp add: demo_control_env_def KEY_LENGTH_def)
  moreover have "cp_validate_envelope demo_control_payload [9] (e\<lparr>se_signature := e'\<rparr>) = cp_validate_envelope demo_control_payload [9] e" for e e'
    by (simp add: demo_control_payload_def)
  ultimately have "fst (verify_control_message demo_control_env demo_control_payload [1] 1500 default_time_policy demo_cache) =
    Inr \<lparr>vm_message = [9], vm_sender_id = node_id_from_public_key demo_control_env (replicate 32 1),
      vm_sender_public_key = replicate 32 1, vm_timestamp_ms = 1000, vm_expires_at_ms = 2000, vm_nonce = replicate 32 2\<rparr>"
    by (intro control_sign_verify_roundtrip [OF s])
      (auto simp: KEY_LENGTH_def NONCE_LENGTH_def SIGNATURE_LENGTH_def)
  with s show ?thesis by (simp add: demo_control_accepted)
qed

end
