(* ===== verification/Policy_Domain.thy ===== *)
theory Policy_Domain
  imports Core_Types "HOL-Library.Product_Lexorder"
begin

text \<open>
  Destination rules of the egress whitelist (\<^verbatim>\<open>crates/volparossa-policy/src/domain.rs\<close>): protocol and port
  permissions, exact and wildcard domain selectors, and their matching.

  A \<^verbatim>\<open>str\<close> is the list of its Unicode scalar values, \<open>lit\<close> reads an ASCII literal as one. Host parsing with
  its IDNA mapping is the third-party \<^verbatim>\<open>url\<close> crate, the parameter \<open>host_parse\<close>: the parsed host,
  or nothing when parsing fails.
\<close>

section \<open>Text\<close>

type_synonym utext = "nat list"

definition lit :: "string \<Rightarrow> utext" where
  "lit s = map of_char s"

definition utf8_len :: "utext \<Rightarrow> nat" where
  "utf8_len t = sum_list (map (\<lambda>c. if c < 0x80 then 1 else if c < 0x800 then 2 else if c < 0x10000 then 3 else 4) t)"

abbreviation dot :: nat where
  "dot \<equiv> 46"

definition is_whitespace :: "nat \<Rightarrow> bool" where
  "is_whitespace c \<longleftrightarrow> (9 \<le> c \<and> c \<le> 13) \<or> c = 32 \<or> c = 0x85 \<or> c = 0xA0 \<or> c = 0x1680
     \<or> (0x2000 \<le> c \<and> c \<le> 0x200A) \<or> c = 0x2028 \<or> c = 0x2029 \<or> c = 0x202F \<or> c = 0x205F \<or> c = 0x3000"

definition is_control :: "nat \<Rightarrow> bool" where
  "is_control c \<longleftrightarrow> c < 32 \<or> (127 \<le> c \<and> c < 160)"

definition ascii_lower :: "nat \<Rightarrow> nat" where
  "ascii_lower c = (if 65 \<le> c \<and> c \<le> 90 then c + 32 else c)"

fun split_on :: "'a \<Rightarrow> 'a list \<Rightarrow> 'a list list" where
  "split_on s [] = [[]]"
| "split_on s (c # cs) =
     (if c = s then [] # split_on s cs
      else (case split_on s cs of [] \<Rightarrow> [[c]] | l # ls \<Rightarrow> (c # l) # ls))"

definition strip_prefix :: "'a list \<Rightarrow> 'a list \<Rightarrow> 'a list option" where
  "strip_prefix p t = (if take (length p) t = p then Some (drop (length p) t) else None)"

definition strip_suffix :: "'a list \<Rightarrow> 'a list \<Rightarrow> 'a list option" where
  "strip_suffix s t =
     (if length s \<le> length t \<and> drop (length t - length s) t = s then Some (take (length t - length s) t) else None)"

definition ends_with :: "'a \<Rightarrow> 'a list \<Rightarrow> bool" where
  "ends_with c t \<longleftrightarrow> t \<noteq> [] \<and> last t = c"

definition starts_with :: "'a \<Rightarrow> 'a list \<Rightarrow> bool" where
  "starts_with c t \<longleftrightarrow> t \<noteq> [] \<and> hd t = c"

section \<open>Permissions\<close>

definition MAX_PERMISSIONS_PER_DESTINATION :: nat where
  "MAX_PERMISSIONS_PER_DESTINATION = 64"

definition MAX_DOMAIN_INPUT_BYTES :: nat where
  "MAX_DOMAIN_INPUT_BYTES = 1024"

definition MAX_DOMAIN_NAME_BYTES :: nat where
  "MAX_DOMAIN_NAME_BYTES = 253"

datatype policy_error =
    Po_Oversized string nat
  | Po_TooManyItems string nat
  | Po_ResourceLimit string
  | Po_Decode
  | Po_NonCanonicalProtobuf
  | Po_NonCanonicalSemantic string
  | Po_UnsupportedSchemaVersion nat
  | Po_UnsupportedProtocolVersion nat nat
  | Po_InvalidField string
  | Po_InvalidDomain
  | Po_RawIpAsDomain
  | Po_InvalidWildcard
  | Po_InvalidPort nat
  | Po_DuplicateItem string
  | Po_InvalidTimeWindow
  | Po_NotYetValid
  | Po_Expired
  | Po_ManifestHashMismatch
  | Po_MaintainerCount nat nat
  | Po_TrustRootMismatch
  | Po_DevelopmentKeyRejected
  | Po_UntrustedSigner
  | Po_InvalidSignature
  | Po_InsufficientSignatures nat nat
  | Po_Denied

datatype transport_protocol = Tcp | Udp

definition wire_value :: "transport_protocol \<Rightarrow> int" where
  "wire_value p = (case p of Tcp \<Rightarrow> 1 | Udp \<Rightarrow> 2)"

definition protocol_from_wire :: "int \<Rightarrow> policy_error + transport_protocol" where
  "protocol_from_wire n =
     (if n = 1 then Inr Tcp else if n = 2 then Inr Udp else Inl (Po_InvalidField ''transport protocol''))"

datatype protocol_port = ProtocolPort (pp_protocol: transport_protocol) (pp_port: nat)

definition protocol_port_new :: "transport_protocol \<Rightarrow> nat \<Rightarrow> policy_error + protocol_port" where
  "protocol_port_new p port = (if port = 0 then Inl (Po_InvalidPort port) else Inr (ProtocolPort p port))"

definition protocol_port_from_wire :: "int \<Rightarrow> nat \<Rightarrow> policy_error + protocol_port" where
  "protocol_port_from_wire p port =
     rbind (protocol_from_wire p) (\<lambda>p.
     if port > 65535 then Inl (Po_InvalidPort port) else protocol_port_new p port)"

instantiation transport_protocol :: linorder
begin

definition less_eq_transport_protocol :: "transport_protocol \<Rightarrow> transport_protocol \<Rightarrow> bool" where
  "less_eq_transport_protocol a b \<longleftrightarrow> wire_value a \<le> wire_value b"

definition less_transport_protocol :: "transport_protocol \<Rightarrow> transport_protocol \<Rightarrow> bool" where
  "less_transport_protocol a b \<longleftrightarrow> wire_value a < wire_value b"

instance
  by standard (auto simp: less_eq_transport_protocol_def less_transport_protocol_def wire_value_def
      split: transport_protocol.splits)

end

instantiation protocol_port :: linorder
begin

definition less_eq_protocol_port :: "protocol_port \<Rightarrow> protocol_port \<Rightarrow> bool" where
  "less_eq_protocol_port a b \<longleftrightarrow> (pp_protocol a, pp_port a) \<le> (pp_protocol b, pp_port b)"

definition less_protocol_port :: "protocol_port \<Rightarrow> protocol_port \<Rightarrow> bool" where
  "less_protocol_port a b \<longleftrightarrow> (pp_protocol a, pp_port a) < (pp_protocol b, pp_port b)"

instance
  by standard (auto simp: less_eq_protocol_port_def less_protocol_port_def protocol_port.expand)

end

section \<open>Destinations\<close>

datatype destination =
    ExactDomain utext
  | WildcardDomain utext
  | ExactIp ip_addr

text \<open>The derived order: selectors by kind, names as strings, addresses by family and octets.\<close>

definition destination_key :: "destination \<Rightarrow> nat \<times> nat list" where
  "destination_key d =
     (case d of
        ExactDomain name \<Rightarrow> (0, name)
      | WildcardDomain suffix \<Rightarrow> (1, suffix)
      | ExactIp (V4 a b c e) \<Rightarrow> (2, 4 # map unat [a, b, c, e])
      | ExactIp (V6 os) \<Rightarrow> (2, 6 # map unat os))"

lemma destination_key_inject: "destination_key a = destination_key b \<longleftrightarrow> a = b"
proof -
  have u: "map unat xs = map unat ys \<longleftrightarrow> xs = ys" for xs ys :: bytes
    by (simp add: inj_map_eq_map inj_def word_unat_eq_iff)
  have "unat x = unat y \<longleftrightarrow> x = y" for x y :: byte by (simp add: word_unat_eq_iff)
  with u show ?thesis
    by (simp add: destination_key_def split: destination.split ip_addr.split)
qed

instantiation destination :: linorder
begin

definition less_eq_destination :: "destination \<Rightarrow> destination \<Rightarrow> bool" where
  "less_eq_destination a b \<longleftrightarrow> destination_key a \<le> destination_key b"

definition less_destination :: "destination \<Rightarrow> destination \<Rightarrow> bool" where
  "less_destination a b \<longleftrightarrow> destination_key a < destination_key b"

instance
proof
  fix a b c :: destination
  show "a < b \<longleftrightarrow> a \<le> b \<and> \<not> b \<le> a"
    by (simp add: less_destination_def less_eq_destination_def less_le_not_le)
  show "a \<le> a" by (simp add: less_eq_destination_def)
  show "a \<le> b \<Longrightarrow> b \<le> c \<Longrightarrow> a \<le> c" unfolding less_eq_destination_def by (rule order_trans)
  show "a \<le> b \<Longrightarrow> b \<le> a \<Longrightarrow> a = b"
    unfolding less_eq_destination_def by (simp add: antisym flip: destination_key_inject)
  show "a \<le> b \<or> b \<le> a" unfolding less_eq_destination_def by (rule linear)
qed

end

record destination_rule =
  dr_destination :: destination
  dr_permissions :: "protocol_port list"

section \<open>Names\<close>

datatype host = Host_Domain utext | Host_Ipv4 | Host_Ipv6

type_synonym host_parser = "utext \<Rightarrow> host option"

definition forbidden_char :: "nat \<Rightarrow> bool" where
  "forbidden_char c \<longleftrightarrow> is_whitespace c \<or> is_control c \<or> c \<in> set (lit ''*%/'') \<or> c = 92 \<or> c \<in> set (lit ''@:#?[]'')"

definition label_ok :: "utext \<Rightarrow> bool" where
  "label_ok label \<longleftrightarrow> \<not> (label = [] \<or> utf8_len label > 63 \<or> starts_with 45 label \<or> ends_with 45 label
     \<or> \<not> list_all (\<lambda>c. (97 \<le> c \<and> c \<le> 122) \<or> (48 \<le> c \<and> c \<le> 57) \<or> c = 45) label)"

definition normalize_domain :: "host_parser \<Rightarrow> utext \<Rightarrow> policy_error + utext" where
  "normalize_domain host_parse input =
     (if input = [] \<or> utf8_len input > MAX_DOMAIN_INPUT_BYTES then Inl Po_InvalidDomain
      else if list_ex forbidden_char input then Inl Po_InvalidDomain
      else case host_parse input of
        None \<Rightarrow> Inl Po_InvalidDomain
      | Some Host_Ipv4 \<Rightarrow> Inl Po_RawIpAsDomain
      | Some Host_Ipv6 \<Rightarrow> Inl Po_RawIpAsDomain
      | Some (Host_Domain parsed) \<Rightarrow>
          let lower = map ascii_lower parsed;
              domain = (if ends_with dot lower then butlast lower else lower) in
          if domain = [] \<or> utf8_len domain > MAX_DOMAIN_NAME_BYTES \<or> starts_with dot domain \<or> ends_with dot domain
          then Inl Po_InvalidDomain
          else if list_all label_ok (split_on dot domain) then Inr domain
          else Inl Po_InvalidDomain)"

definition wildcard_suffix :: "host_parser \<Rightarrow> utext \<Rightarrow> policy_error + utext" where
  "wildcard_suffix host_parse pattern =
     rbind (ok_or (strip_prefix (lit ''*.'') pattern) Po_InvalidWildcard) (\<lambda>suffix.
     if 42 \<in> set suffix then Inl Po_InvalidWildcard else
     rbind (map_err (\<lambda>_. Po_InvalidWildcard) (normalize_domain host_parse suffix)) (\<lambda>suffix.
     if dot \<notin> set suffix then Inl Po_InvalidWildcard else Inr suffix))"

definition normalize_permissions :: "protocol_port list \<Rightarrow> policy_error + protocol_port list" where
  "normalize_permissions permissions =
     (if length permissions > MAX_PERMISSIONS_PER_DESTINATION
      then Inl (Po_TooManyItems ''protocol/port permissions per destination'' MAX_PERMISSIONS_PER_DESTINATION)
      else if permissions = [] then Inl (Po_InvalidField ''empty permission set'')
      else let normalized = sort permissions in
        if list_ex (\<lambda>(a, b). a = b) (windows2 normalized)
        then Inl (Po_DuplicateItem ''protocol/port permission'') else Inr normalized)"

definition wildcard_matches :: "utext \<Rightarrow> utext \<Rightarrow> bool" where
  "wildcard_matches domain suffix =
     (case strip_suffix suffix domain of
        None \<Rightarrow> False | Some prefix \<Rightarrow> ends_with dot prefix \<and> utf8_len prefix > 1)"

definition exact_domain :: "host_parser \<Rightarrow> utext \<Rightarrow> protocol_port list \<Rightarrow> policy_error + destination_rule" where
  "exact_domain host_parse domain permissions =
     rbind (normalize_domain host_parse domain) (\<lambda>name.
     rbind (normalize_permissions permissions) (\<lambda>ps.
     Inr \<lparr>dr_destination = ExactDomain name, dr_permissions = ps\<rparr>))"

definition wildcard_domain :: "host_parser \<Rightarrow> utext \<Rightarrow> protocol_port list \<Rightarrow> policy_error + destination_rule" where
  "wildcard_domain host_parse pattern permissions =
     rbind (wildcard_suffix host_parse pattern) (\<lambda>suffix.
     rbind (normalize_permissions permissions) (\<lambda>ps.
     Inr \<lparr>dr_destination = WildcardDomain suffix, dr_permissions = ps\<rparr>))"

definition exact_ip :: "ip_addr \<Rightarrow> protocol_port list \<Rightarrow> policy_error + destination_rule" where
  "exact_ip address permissions =
     rbind (normalize_permissions permissions) (\<lambda>ps.
     Inr \<lparr>dr_destination = ExactIp address, dr_permissions = ps\<rparr>)"

definition from_wire_exact_domain ::
  "host_parser \<Rightarrow> utext \<Rightarrow> protocol_port list \<Rightarrow> policy_error + destination_rule" where
  "from_wire_exact_domain host_parse domain permissions =
     rbind (normalize_domain host_parse domain) (\<lambda>normalized.
     if normalized \<noteq> domain then Inl (Po_NonCanonicalSemantic ''exact domain'')
     else exact_domain host_parse domain permissions)"

definition from_wire_wildcard_domain ::
  "host_parser \<Rightarrow> utext \<Rightarrow> protocol_port list \<Rightarrow> policy_error + destination_rule" where
  "from_wire_wildcard_domain host_parse pattern permissions =
     rbind (wildcard_suffix host_parse pattern) (\<lambda>suffix.
     if pattern \<noteq> lit ''*.'' @ suffix then Inl (Po_NonCanonicalSemantic ''wildcard domain'')
     else wildcard_domain host_parse pattern permissions)"

definition matches_dns_name :: "destination_rule \<Rightarrow> utext \<Rightarrow> bool" where
  "matches_dns_name rule normalized =
     (case dr_destination rule of
        ExactDomain domain \<Rightarrow> domain = normalized
      | WildcardDomain suffix \<Rightarrow> wildcard_matches normalized suffix
      | ExactIp _ \<Rightarrow> False)"

section \<open>Requests\<close>

text \<open>The search of \<^verbatim>\<open>slice::binary_search\<close>: the window halves until one candidate is left.\<close>

function bs_base :: "'a::linorder list \<Rightarrow> 'a \<Rightarrow> nat \<Rightarrow> nat \<Rightarrow> nat" where
  "bs_base xs x base len =
     (if len \<le> 1 then base
      else let half = len div 2; mid = base + half in
        bs_base xs x (if xs ! mid > x then base else mid) (len - half))"
  by pat_completeness auto
termination
  by (relation "measure (\<lambda>(xs, x, base, len). len)") auto

declare bs_base.simps [simp del]

definition binary_search :: "'a::linorder list \<Rightarrow> 'a \<Rightarrow> nat option" where
  "binary_search xs x =
     (if xs = [] then None
      else let base = bs_base xs x 0 (length xs) in if xs ! base = x then Some base else None)"

datatype request_destination = Rd_Domain utext | Rd_Ip ip_addr

record normalized_request =
  nr_destination :: request_destination
  nr_permission :: protocol_port

definition request_domain ::
  "host_parser \<Rightarrow> utext \<Rightarrow> transport_protocol \<Rightarrow> nat \<Rightarrow> policy_error + normalized_request" where
  "request_domain host_parse domain protocol port =
     rbind (normalize_domain host_parse domain) (\<lambda>name.
     rbind (protocol_port_new protocol port) (\<lambda>permission.
     Inr \<lparr>nr_destination = Rd_Domain name, nr_permission = permission\<rparr>))"

definition request_ip :: "ip_addr \<Rightarrow> transport_protocol \<Rightarrow> nat \<Rightarrow> policy_error + normalized_request" where
  "request_ip address protocol port =
     rbind (protocol_port_new protocol port) (\<lambda>permission.
     Inr \<lparr>nr_destination = Rd_Ip address, nr_permission = permission\<rparr>)"

definition is_allowed :: "destination_rule \<Rightarrow> normalized_request \<Rightarrow> bool" where
  "is_allowed rule request \<longleftrightarrow>
     (if binary_search (dr_permissions rule) (nr_permission request) = None then False
      else case (dr_destination rule, nr_destination request) of
        (ExactDomain name, Rd_Domain requested) \<Rightarrow> name = requested
      | (WildcardDomain suffix, Rd_Domain requested) \<Rightarrow> wildcard_matches requested suffix
      | (ExactIp address, Rd_Ip requested) \<Rightarrow> address = requested
      | _ \<Rightarrow> False)"

section \<open>Binary search decides membership\<close>

lemma bs_base_window:
  assumes "sorted_wrt (<) xs" "i < length xs" "xs ! i = x"
  shows "base \<le> i \<Longrightarrow> i < base + len \<Longrightarrow> base + len \<le> length xs \<Longrightarrow> bs_base xs x base len = i"
proof (induction len arbitrary: base rule: less_induct)
  case (less len)
  show ?case
  proof (cases "len \<le> 1")
    case True
    with less.prems show ?thesis by (simp add: bs_base.simps [of _ _ base len])
  next
    case False
    define half where "half = len div 2"
    have h: "half < len" "0 < half" "half \<le> len - half" using False by (auto simp: half_def)
    have step: "bs_base xs x base len = bs_base xs x (if xs ! (base + half) > x then base else base + half) (len - half)"
      using False by (simp add: bs_base.simps [of _ _ base len] half_def Let_def)
    have mid: "base + half < length xs" using less.prems h by simp
    have lt: "j < k \<Longrightarrow> k < length xs \<Longrightarrow> xs ! j < xs ! k" for j k
      using assms(1) by (simp add: sorted_wrt_iff_nth_less)
    show ?thesis
    proof (cases "xs ! (base + half) > x")
      case True
      have "i < base + half" using lt [of "base + half" i] True assms(2,3) by (metis linorder_neqE_nat order.asym)
      then show ?thesis unfolding step using True less h by simp
    next
      case False
      have "base + half \<le> i" using lt [of i "base + half"] mid False assms(3) by (metis leI)
      then show ?thesis unfolding step using False less h by simp
    qed
  qed
qed

lemma bs_base_bound: "0 < len \<Longrightarrow> bs_base xs x base len < base + len"
proof (induction len arbitrary: base rule: less_induct)
  case (less len)
  show ?case
  proof (cases "len \<le> 1")
    case True
    with less.prems show ?thesis by (simp add: bs_base.simps [of _ _ base len])
  next
    case False
    then have "len - len div 2 < len" "0 < len - len div 2" by auto
    from less.IH [OF this, of base] less.IH [OF this, of "base + len div 2"] False show ?thesis
      by (auto simp: bs_base.simps [of _ _ base len] Let_def)
  qed
qed

lemma binary_search_member:
  assumes "sorted_wrt (<) xs"
  shows "binary_search xs x = None \<longleftrightarrow> x \<notin> set xs"
proof (cases "x \<in> set xs")
  case True
  then obtain i where "i < length xs" "xs ! i = x" by (auto simp: in_set_conv_nth)
  moreover from this have "bs_base xs x 0 (length xs) = i" by (intro bs_base_window [OF assms]) auto
  ultimately show ?thesis using True by (auto simp: binary_search_def Let_def)
next
  case False
  have "xs ! bs_base xs x 0 (length xs) \<noteq> x" if "xs \<noteq> []"
    using bs_base_bound [of "length xs" xs x 0] that False by (auto simp: in_set_conv_nth)
  with False show ?thesis by (simp add: binary_search_def Let_def)
qed

lemma binary_search_Some: "binary_search xs x = Some i \<Longrightarrow> i < length xs \<and> xs ! i = x"
  using bs_base_bound [of "length xs" xs x 0] by (auto simp: binary_search_def Let_def split: if_splits)

section \<open>Labels\<close>

lemma split_on_nonempty [simp]: "split_on s t \<noteq> []"
  by (induction t) (auto split: list.split)

lemma split_on_append: "split_on s (a @ s # b) = split_on s a @ split_on s b"
  by (induction a) (auto split: list.split simp: neq_Nil_conv)

fun join_with :: "'a \<Rightarrow> 'a list list \<Rightarrow> 'a list" where
  "join_with s [] = []"
| "join_with s [l] = l"
| "join_with s (l # m # ls) = l @ s # join_with s (m # ls)"

lemma join_split: "join_with s (split_on s t) = t"
proof (induction t)
  case (Cons c t)
  obtain l ls where "split_on s t = l # ls" by (meson neq_Nil_conv split_on_nonempty)
  with Cons show ?case by (cases ls) auto
qed simp

lemma join_append: "ls \<noteq> [] \<Longrightarrow> ms \<noteq> [] \<Longrightarrow> join_with s (ls @ ms) = join_with s ls @ s # join_with s ms"
proof (induction ls rule: join_with.induct [where ?a0.0 = s])
  case (2 s l)
  then show ?case by (cases ms) auto
qed simp_all

lemma strip_suffix_Some: "strip_suffix s t = Some p \<longleftrightarrow> t = p @ s"
  by (auto simp: strip_suffix_def) (metis append_take_drop_id)

lemma utf8_len_pos: "t \<noteq> [] \<Longrightarrow> 0 < utf8_len t"
  by (cases t) (auto simp: utf8_len_def)

lemma utf8_len_append: "utf8_len (a @ b) = utf8_len a + utf8_len b"
  by (simp add: utf8_len_def)

text \<open>
  A wildcard matches exactly the names with one or more further labels in front of its suffix. The
  name must not start with a dot, which normalized names do not.
\<close>

lemma wildcard_matches_labels:
  assumes "\<not> starts_with dot n"
  shows "wildcard_matches n s \<longleftrightarrow> (\<exists>ls. ls \<noteq> [] \<and> split_on dot n = ls @ split_on dot s)"
proof
  assume "wildcard_matches n s"
  then obtain p where p: "n = p @ s" "p \<noteq> []" "last p = dot" "utf8_len p > 1"
    by (auto simp: wildcard_matches_def ends_with_def strip_suffix_Some split: option.splits)
  then have n: "n = butlast p @ dot # s" by (metis append_butlast_last_id append_assoc append_Cons append_Nil)
  then show "\<exists>ls. ls \<noteq> [] \<and> split_on dot n = ls @ split_on dot s"
    by (intro exI [of _ "split_on dot (butlast p)"]) (simp add: split_on_append)
next
  assume "\<exists>ls. ls \<noteq> [] \<and> split_on dot n = ls @ split_on dot s"
  then obtain ls where ls: "ls \<noteq> []" "split_on dot n = ls @ split_on dot s" by blast
  then have n: "n = join_with dot ls @ dot # s"
    by (metis join_append join_split split_on_nonempty)
  with assms have "join_with dot ls \<noteq> []" by (auto simp: starts_with_def)
  then have "strip_suffix s n = Some (join_with dot ls @ [dot])" "utf8_len (join_with dot ls @ [dot]) > 1"
    using n utf8_len_pos [of "join_with dot ls"] by (simp_all add: strip_suffix_Some utf8_len_append) (simp add: utf8_len_def)
  then show "wildcard_matches n s" by (simp add: wildcard_matches_def ends_with_def)
qed

lemma normalize_domain_name:
  assumes "normalize_domain host_parse d = Inr n"
  shows "n \<noteq> []" "\<not> starts_with dot n" "utf8_len n \<le> MAX_DOMAIN_NAME_BYTES" "list_all label_ok (split_on dot n)"
  using assms
  by (auto simp: normalize_domain_def Let_def split: if_splits option.splits host.splits)

lemma normalize_permissions_Inr:
  assumes "normalize_permissions ps = Inr qs"
  shows "sorted_wrt (<) qs" "set qs = set ps" "qs \<noteq> []" "length qs \<le> MAX_PERMISSIONS_PER_DESTINATION"
proof -
  from assms have qs: "qs = sort ps" and nd: "\<not> list_ex (\<lambda>(a, b). a = b) (windows2 qs)" and "ps \<noteq> []"
    and "length ps \<le> MAX_PERMISSIONS_PER_DESTINATION"
    by (auto simp: normalize_permissions_def Let_def split: if_splits)
  have "sorted xs \<Longrightarrow> \<not> list_ex (\<lambda>(a, b). a = b) (windows2 xs) \<Longrightarrow> strictly_sorted xs" for xs :: "protocol_port list"
    by (induction xs rule: induct_list012) auto
  with nd qs show "sorted_wrt (<) qs" by (simp add: strictly_sorted_iff)
  show "set qs = set ps" "qs \<noteq> []" "length qs \<le> MAX_PERMISSIONS_PER_DESTINATION"
    using qs \<open>ps \<noteq> []\<close> \<open>length ps \<le> _\<close> by (auto simp: set_empty [symmetric] simp del: set_empty)
qed

lemma is_allowed_domain:
  assumes "sorted_wrt (<) (dr_permissions rule)" "\<not> starts_with dot n"
  shows "is_allowed rule \<lparr>nr_destination = Rd_Domain n, nr_permission = pp\<rparr> \<longleftrightarrow>
    pp \<in> set (dr_permissions rule) \<and>
    (dr_destination rule = ExactDomain n \<or>
     (\<exists>s ls. dr_destination rule = WildcardDomain s \<and> ls \<noteq> [] \<and> split_on dot n = ls @ split_on dot s))"
  using binary_search_member [OF assms(1), of pp] wildcard_matches_labels [OF assms(2)]
  by (auto simp: is_allowed_def split: destination.split)

lemma is_allowed_ip:
  assumes "sorted_wrt (<) (dr_permissions rule)"
  shows "is_allowed rule \<lparr>nr_destination = Rd_Ip a, nr_permission = pp\<rparr> \<longleftrightarrow>
    pp \<in> set (dr_permissions rule) \<and> dr_destination rule = ExactIp a"
  using binary_search_member [OF assms, of pp] by (auto simp: is_allowed_def split: destination.split)

end
