(* ===== verification/Protocol_Messages.thy ===== *)
theory Protocol_Messages
  imports Protocol_Envelope Policy_Domain
begin

text \<open>
  The reservation and flow messages of the control protocol and their validation
  (\<^verbatim>\<open>crates/volparossa-protocol/src/messages.rs\<close>): the exit's reservation, the exit's authorization of one
  relay path, the relay's acceptance that carries it, and the client's request to open one TCP or UDP flow.

  The relay acceptance repeats the fields of the authorization, so its record extends the authorization's.
  The protobuf codecs of the messages are parameters.
\<close>

section \<open>Field validation\<close>

definition ID_LENGTH :: nat where
  "ID_LENGTH = 16"

definition HASH_LENGTH :: nat where
  "HASH_LENGTH = 32"

definition MAX_RATE_MBPS :: nat where
  "MAX_RATE_MBPS = 1000000"

definition MAX_RESERVATION_LIFETIME_MS :: nat where
  "MAX_RESERVATION_LIFETIME_MS = 15 * 60 * 1000"

definition MAX_TRANSPORTS :: nat where
  "MAX_TRANSPORTS = 3"

definition MAX_MASQUE_CONTEXT_ID :: nat where
  "MAX_MASQUE_CONTEXT_ID = 2 ^ 62 - 1"

datatype wire_transport = Wt_Unspecified | Wt_TcpMptcp | Wt_UdpSinglePath | Wt_MultipathQuic

definition transport_number :: "wire_transport \<Rightarrow> int" where
  "transport_number t =
     (case t of Wt_Unspecified \<Rightarrow> 0 | Wt_TcpMptcp \<Rightarrow> 1 | Wt_UdpSinglePath \<Rightarrow> 2 | Wt_MultipathQuic \<Rightarrow> 3)"

definition transport_of :: "int \<Rightarrow> wire_transport option" where
  "transport_of n =
     (if n = 0 then Some Wt_Unspecified else if n = 1 then Some Wt_TcpMptcp else if n = 2 then Some Wt_UdpSinglePath
      else if n = 3 then Some Wt_MultipathQuic else None)"

datatype underlay_scope = Us_PublicInternet | Us_DirectLocalLan

definition underlay_scope_of :: "int \<Rightarrow> underlay_scope option" where
  "underlay_scope_of n = (if n = 0 then Some Us_PublicInternet else if n = 1 then Some Us_DirectLocalLan else None)"

definition require_nonzero_length :: "nat \<Rightarrow> bytes \<Rightarrow> string \<Rightarrow> protocol_error + bytes" where
  "require_nonzero_length n bs field =
     rbind (fixed_array n bs field) (\<lambda>v. if all_zero v then Inl (Pe_InvalidField field) else Inr v)"

definition validate_peer_id :: "bytes \<Rightarrow> string \<Rightarrow> protocol_error + unit" where
  "validate_peer_id peer_id field =
     (if peer_id = [] \<or> length peer_id > 64 then Inl (Pe_InvalidField field) else Inr ())"

definition validate_signed_fields ::
  "bytes \<Rightarrow> nat \<Rightarrow> nat \<Rightarrow> bytes \<Rightarrow> signed_envelope \<Rightarrow> string \<Rightarrow> protocol_error + unit" where
  "validate_signed_fields expected_sender_id timestamp_ms expires_at_ms nonce e field =
     (if expected_sender_id \<noteq> se_sender_id e \<or> timestamp_ms \<noteq> se_timestamp_ms e
         \<or> expires_at_ms \<noteq> se_expires_at_ms e \<or> nonce \<noteq> se_nonce e
      then Inl (Pe_InvalidField field) else Inr ())"

fun check_transports :: "int option \<Rightarrow> int list \<Rightarrow> protocol_error + unit" where
  "check_transports previous [] = Inr ()"
| "check_transports previous (v # vs) =
     rbind (ok_or (transport_of v) (Pe_InvalidField ''exit_reservation.allowed_transports'')) (\<lambda>t.
     if t = Wt_Unspecified \<or> (case previous of None \<Rightarrow> False | Some old \<Rightarrow> old \<ge> v)
     then Inl (Pe_InvalidField ''exit_reservation.allowed_transports'')
     else check_transports (Some v) vs)"

definition validate_transports :: "int list \<Rightarrow> protocol_error + unit" where
  "validate_transports vs =
     (if vs = [] \<or> length vs > MAX_TRANSPORTS
      then Inl (Pe_InvalidField ''exit_reservation.allowed_transports'') else check_transports None vs)"

definition validate_rate :: "nat \<Rightarrow> string \<Rightarrow> protocol_error + unit" where
  "validate_rate rate field = (if rate = 0 \<or> rate > MAX_RATE_MBPS then Inl (Pe_InvalidField field) else Inr ())"

definition validate_port :: "nat \<Rightarrow> string \<Rightarrow> protocol_error + unit" where
  "validate_port port field = (if \<not> (1 \<le> port \<and> port \<le> 65535) then Inl (Pe_InvalidField field) else Inr ())"

definition validate_lifetime :: "nat \<Rightarrow> nat \<Rightarrow> nat \<Rightarrow> string \<Rightarrow> protocol_error + unit" where
  "validate_lifetime created_at_ms expires_at_ms maximum field =
     rbind (ok_or (checked_sub expires_at_ms created_at_ms) (Pe_InvalidField field)) (\<lambda>lifetime.
     if lifetime = 0 \<or> lifetime > maximum then Inl (Pe_InvalidField field) else Inr ())"

definition parse_ip_bytes :: "bytes \<Rightarrow> ip_addr option" where
  "parse_ip_bytes bs =
     (case bs of [a, b, c, d] \<Rightarrow> Some (V4 a b c d) | _ \<Rightarrow> if length bs = 16 then Some (V6 bs) else None)"

text \<open>
  The canonical host name test. \<open>ipv4_octet\<close> and \<open>parses_ipv4\<close> are the standard library's IPv4 parser. A
  text that parses as an IPv6 address contains a colon, which the label test refuses with the same error.
\<close>

definition digit :: "nat \<Rightarrow> bool" where
  "digit c \<longleftrightarrow> 48 \<le> c \<and> c \<le> 57"

definition ascii_alphanumeric :: "nat \<Rightarrow> bool" where
  "ascii_alphanumeric c \<longleftrightarrow> digit c \<or> (65 \<le> c \<and> c \<le> 90) \<or> (97 \<le> c \<and> c \<le> 122)"

definition ipv4_octet :: "utext \<Rightarrow> bool" where
  "ipv4_octet l \<longleftrightarrow> l \<noteq> [] \<and> length l \<le> 3 \<and> list_all digit l \<and> (hd l = 48 \<longrightarrow> length l = 1)
     \<and> foldl (\<lambda>v c. 10 * v + (c - 48)) 0 l \<le> 255"

definition parses_ipv4 :: "utext \<Rightarrow> bool" where
  "parses_ipv4 t \<longleftrightarrow> length (split_on dot t) = 4 \<and> list_all ipv4_octet (split_on dot t)"

definition dns_label_ok :: "utext \<Rightarrow> bool" where
  "dns_label_ok l \<longleftrightarrow> l \<noteq> [] \<and> utf8_len l \<le> 63 \<and> \<not> starts_with 45 l \<and> \<not> ends_with 45 l
     \<and> list_all (\<lambda>c. ascii_alphanumeric c \<or> c = 45) l"

definition validate_canonical_dns_name :: "utext \<Rightarrow> string \<Rightarrow> protocol_error + unit" where
  "validate_canonical_dns_name hostname field =
     (if hostname = [] \<or> utf8_len hostname > 253 \<or> ends_with dot hostname
         \<or> list_ex (\<lambda>c. 65 \<le> c \<and> c \<le> 90) hostname \<or> parses_ipv4 hostname
      then Inl (Pe_InvalidField field)
      else if \<not> list_all dns_label_ok (split_on dot hostname) \<or> dot \<notin> set hostname
      then Inl (Pe_InvalidField field) else Inr ())"

definition validate_canonical_hostname :: "utext \<Rightarrow> protocol_error + unit" where
  "validate_canonical_hostname hostname = validate_canonical_dns_name hostname ''hostname''"

section \<open>Endpoints and route identities\<close>

record wireguard_endpoint =
  we_public_key :: bytes
  we_underlay_ip :: bytes
  we_listen_port :: nat
  we_underlay_scope :: int

definition endpoint_validate :: "wireguard_endpoint \<Rightarrow> string \<Rightarrow> protocol_error + unit" where
  "endpoint_validate w field =
     rbind (require_nonzero_length KEY_LENGTH (we_public_key w) field) (\<lambda>_.
     rbind (ok_or (parse_ip_bytes (we_underlay_ip w)) (Pe_InvalidField field)) (\<lambda>address.
     let allowed = (case underlay_scope_of (we_underlay_scope w) of
         Some Us_PublicInternet \<Rightarrow> is_public_routable_ip address
       | Some Us_DirectLocalLan \<Rightarrow> is_local_lan_ip address
       | None \<Rightarrow> False) in
     if \<not> allowed then Inl (Pe_InvalidField field) else validate_port (we_listen_port w) field))"

record native_route_identity =
  ni_auth_commitment :: bytes
  ni_certificate_sha256 :: bytes
  ni_spki_sha256 :: bytes
  ni_tls_server_name :: utext
  ni_masque_context_id :: nat
  ni_client_native_instance_id :: bytes
  ni_exit_native_instance_id :: bytes
  ni_credential_hpke_public_key :: bytes

definition native_identity_validate :: "native_route_identity \<Rightarrow> protocol_error + unit" where
  "native_identity_validate i =
     rbind (require_nonzero_length HASH_LENGTH (ni_auth_commitment i) ''native_route_identity.auth_commitment'') (\<lambda>_.
     rbind (require_nonzero_length HASH_LENGTH (ni_certificate_sha256 i) ''native_route_identity.certificate_sha256'') (\<lambda>_.
     rbind (require_nonzero_length HASH_LENGTH (ni_spki_sha256 i) ''native_route_identity.spki_sha256'') (\<lambda>_.
     rbind (validate_canonical_dns_name (ni_tls_server_name i) ''native_route_identity.tls_server_name'') (\<lambda>_.
     if ni_masque_context_id i = 0 \<or> ni_masque_context_id i > MAX_MASQUE_CONTEXT_ID
     then Inl (Pe_InvalidField ''native_route_identity.masque_context_id'') else
     rbind (require_nonzero_length KEY_LENGTH (ni_client_native_instance_id i) ''native_route_identity.client_native_instance_id'') (\<lambda>_.
     rbind (require_nonzero_length KEY_LENGTH (ni_exit_native_instance_id i) ''native_route_identity.exit_native_instance_id'') (\<lambda>_.
     rbind (require_nonzero_length KEY_LENGTH (ni_credential_hpke_public_key i) ''native_route_identity.credential_hpke_public_key'') (\<lambda>_.
     Inr ())))))))"

section \<open>Shared bindings\<close>

definition validate_reservation_ids :: "bytes \<Rightarrow> bytes \<Rightarrow> bytes \<Rightarrow> protocol_error + unit" where
  "validate_reservation_ids reservation_id route_context_id client_session_id =
     rbind (require_nonzero_length ID_LENGTH reservation_id ''reservation_id'') (\<lambda>_.
     rbind (require_nonzero_length ID_LENGTH route_context_id ''route_context_id'') (\<lambda>_.
     rbind (require_nonzero_length HASH_LENGTH client_session_id ''client_session_id'') (\<lambda>_. Inr ())))"

definition validate_session_binding :: "control_env \<Rightarrow> bytes \<Rightarrow> bytes \<Rightarrow> protocol_error + unit" where
  "validate_session_binding env client_session_id client_session_public_key =
     rbind (require_nonzero_length KEY_LENGTH client_session_public_key ''client_session_public_key'') (\<lambda>_.
     rbind (fixed_array KEY_LENGTH client_session_public_key ''client_session_public_key'') (\<lambda>key.
     if client_session_id \<noteq> node_id_from_public_key env key
     then Inl (Pe_InvalidField ''client session key binding'') else Inr ()))"

definition validate_reservation_binding ::
  "bytes \<Rightarrow> bytes \<Rightarrow> bytes \<Rightarrow> bytes \<Rightarrow> bytes \<Rightarrow> bytes \<Rightarrow> protocol_error + unit" where
  "validate_reservation_binding capability_id exit_boot_id hold_id finalize_id control_relay_node_id control_relay_peer_id =
     rbind (require_nonzero_length ID_LENGTH capability_id ''capability_id'') (\<lambda>_.
     rbind (require_nonzero_length ID_LENGTH exit_boot_id ''exit_boot_id'') (\<lambda>_.
     rbind (require_nonzero_length ID_LENGTH hold_id ''hold_id'') (\<lambda>_.
     rbind (require_nonzero_length ID_LENGTH finalize_id ''finalize_id'') (\<lambda>_.
     rbind (require_nonzero_length HASH_LENGTH control_relay_node_id ''control_relay_node_id'') (\<lambda>_.
     validate_peer_id control_relay_peer_id ''control_relay_peer_id'')))))"

fun validate_distinct_wireguard_keys :: "bytes list \<Rightarrow> protocol_error + unit" where
  "validate_distinct_wireguard_keys [] = Inr ()"
| "validate_distinct_wireguard_keys (key # keys) =
     (if List.member keys key then Inl (Pe_InvalidField ''distinct WireGuard public keys'')
      else validate_distinct_wireguard_keys keys)"

section \<open>The exit's reservation\<close>

record exit_reservation =
  er_reservation_id :: bytes
  er_route_context_id :: bytes
  er_exit_node_id :: bytes
  er_client_session_id :: bytes
  er_allowed_transports :: "int list"
  er_reserved_up_mbps :: nat
  er_reserved_down_mbps :: nat
  er_maximum_paths :: nat
  er_policy_hash :: bytes
  er_created_at_ms :: nat
  er_expires_at_ms :: nat
  er_nonce :: bytes
  er_capability_id :: bytes
  er_client_session_public_key :: bytes
  er_exit_boot_id :: bytes
  er_hold_id :: bytes
  er_finalize_id :: bytes
  er_control_relay_node_id :: bytes
  er_control_relay_peer_id :: bytes
  er_exit_peer_id :: bytes
  er_native_route_identity :: "native_route_identity option"

definition exit_reservation_validate :: "control_env \<Rightarrow> exit_reservation \<Rightarrow> protocol_error + unit" where
  "exit_reservation_validate env r =
     rbind (validate_reservation_ids (er_reservation_id r) (er_route_context_id r) (er_client_session_id r)) (\<lambda>_.
     rbind (require_nonzero_length HASH_LENGTH (er_exit_node_id r) ''exit_reservation.exit_node_id'') (\<lambda>_.
     rbind (validate_peer_id (er_exit_peer_id r) ''exit_reservation.exit_peer_id'') (\<lambda>_.
     rbind (validate_session_binding env (er_client_session_id r) (er_client_session_public_key r)) (\<lambda>_.
     rbind (validate_reservation_binding (er_capability_id r) (er_exit_boot_id r) (er_hold_id r) (er_finalize_id r)
              (er_control_relay_node_id r) (er_control_relay_peer_id r)) (\<lambda>_.
     rbind (ok_or (er_native_route_identity r) (Pe_InvalidField ''exit_reservation.native_route_identity'')) (\<lambda>identity.
     rbind (native_identity_validate identity) (\<lambda>_.
     rbind (validate_transports (er_allowed_transports r)) (\<lambda>_.
     rbind (validate_rate (er_reserved_up_mbps r) ''exit_reservation.reserved_up_mbps'') (\<lambda>_.
     rbind (validate_rate (er_reserved_down_mbps r) ''exit_reservation.reserved_down_mbps'') (\<lambda>_.
     if \<not> (1 \<le> er_maximum_paths r \<and> er_maximum_paths r \<le> 8)
     then Inl (Pe_InvalidField ''exit_reservation.maximum_paths'') else
     rbind (require_nonzero_length HASH_LENGTH (er_policy_hash r) ''exit_reservation.policy_hash'') (\<lambda>_.
     rbind (require_nonzero_length NONCE_LENGTH (er_nonce r) ''exit_reservation.nonce'') (\<lambda>_.
     validate_lifetime (er_created_at_ms r) (er_expires_at_ms r) MAX_RESERVATION_LIFETIME_MS
       ''exit_reservation lifetime''))))))))))))"

definition exit_reservation_validate_envelope :: "exit_reservation \<Rightarrow> signed_envelope \<Rightarrow> protocol_error + unit" where
  "exit_reservation_validate_envelope r e =
     validate_signed_fields (er_exit_node_id r) (er_created_at_ms r) (er_expires_at_ms r) (er_nonce r) e
       ''exit_reservation envelope binding''"

definition exit_reservation_payload :: "control_env \<Rightarrow> exit_reservation codec \<Rightarrow> exit_reservation control_payload" where
  "exit_reservation_payload env codec =
     \<lparr>cp_codec = codec, cp_type = Mt_ExitReservation, cp_validate = exit_reservation_validate env,
      cp_validate_envelope = exit_reservation_validate_envelope\<rparr>"

section \<open>Relay paths\<close>

record relay_authorization =
  ra_reservation_id :: bytes
  ra_route_context_id :: bytes
  ra_path_id :: nat
  ra_relay_node_id :: bytes
  ra_exit_node_id :: bytes
  ra_client_session_id :: bytes
  ra_allowed_transports :: "int list"
  ra_maximum_up_mbps :: nat
  ra_maximum_down_mbps :: nat
  ra_client_wireguard_public_key :: bytes
  ra_exit_wireguard_endpoint :: "wireguard_endpoint option"
  ra_policy_hash :: bytes
  ra_created_at_ms :: nat
  ra_expires_at_ms :: nat
  ra_nonce :: bytes
  ra_relay_peer_id :: bytes
  ra_capability_id :: bytes
  ra_client_session_public_key :: bytes
  ra_exit_boot_id :: bytes
  ra_hold_id :: bytes
  ra_finalize_id :: bytes
  ra_control_relay_node_id :: bytes
  ra_control_relay_peer_id :: bytes
  ra_exit_peer_id :: bytes

record relay_reservation = relay_authorization +
  rr_relay_client_wireguard_endpoint :: "wireguard_endpoint option"
  rr_relay_exit_wireguard_endpoint :: "wireguard_endpoint option"
  rr_exit_authorization :: bytes
  rr_signed_client_relay_request_sha256 :: bytes
  rr_receive_budget_required :: bool

definition validate_relay_fields :: "control_env \<Rightarrow> ('a) relay_authorization_scheme \<Rightarrow> protocol_error + unit" where
  "validate_relay_fields env r =
     rbind (validate_reservation_ids (ra_reservation_id r) (ra_route_context_id r) (ra_client_session_id r)) (\<lambda>_.
     if \<not> (1 \<le> ra_path_id r \<and> ra_path_id r \<le> 8) then Inl (Pe_InvalidField ''relay path_id'') else
     rbind (require_nonzero_length HASH_LENGTH (ra_relay_node_id r) ''relay_node_id'') (\<lambda>_.
     rbind (require_nonzero_length HASH_LENGTH (ra_exit_node_id r) ''exit_node_id'') (\<lambda>_.
     if ra_relay_node_id r = ra_exit_node_id r then Inl (Pe_InvalidField ''relay equals exit'') else
     rbind (validate_peer_id (ra_relay_peer_id r) ''relay relay_peer_id'') (\<lambda>_.
     rbind (validate_peer_id (ra_exit_peer_id r) ''relay exit_peer_id'') (\<lambda>_.
     rbind (validate_session_binding env (ra_client_session_id r) (ra_client_session_public_key r)) (\<lambda>_.
     rbind (validate_reservation_binding (ra_capability_id r) (ra_exit_boot_id r) (ra_hold_id r) (ra_finalize_id r)
              (ra_control_relay_node_id r) (ra_control_relay_peer_id r)) (\<lambda>_.
     rbind (validate_transports (ra_allowed_transports r)) (\<lambda>_.
     rbind (validate_rate (ra_maximum_up_mbps r) ''relay maximum_up_mbps'') (\<lambda>_.
     rbind (validate_rate (ra_maximum_down_mbps r) ''relay maximum_down_mbps'') (\<lambda>_.
     rbind (require_nonzero_length KEY_LENGTH (ra_client_wireguard_public_key r) ''client_wireguard_public_key'') (\<lambda>_.
     rbind (ok_or (ra_exit_wireguard_endpoint r) (Pe_InvalidField ''exit_wireguard_endpoint'')) (\<lambda>exit_endpoint.
     rbind (endpoint_validate exit_endpoint ''exit_wireguard_endpoint'') (\<lambda>_.
     rbind (validate_distinct_wireguard_keys [ra_client_wireguard_public_key r, we_public_key exit_endpoint]) (\<lambda>_.
     rbind (require_nonzero_length HASH_LENGTH (ra_policy_hash r) ''relay policy_hash'') (\<lambda>_.
     rbind (require_nonzero_length NONCE_LENGTH (ra_nonce r) ''relay nonce'') (\<lambda>_.
     validate_lifetime (ra_created_at_ms r) (ra_expires_at_ms r) MAX_RESERVATION_LIFETIME_MS
       ''relay lifetime''))))))))))))))))"

definition relay_authorization_validate_envelope ::
  "relay_authorization \<Rightarrow> signed_envelope \<Rightarrow> protocol_error + unit" where
  "relay_authorization_validate_envelope r e =
     validate_signed_fields (ra_exit_node_id r) (ra_created_at_ms r) (ra_expires_at_ms r) (ra_nonce r) e
       ''relay_authorization envelope binding''"

definition relay_authorization_payload ::
  "control_env \<Rightarrow> relay_authorization codec \<Rightarrow> relay_authorization control_payload" where
  "relay_authorization_payload env codec =
     \<lparr>cp_codec = codec, cp_type = Mt_RelayAuthorization, cp_validate = validate_relay_fields env,
      cp_validate_envelope = relay_authorization_validate_envelope\<rparr>"

definition relay_reservation_validate :: "control_env \<Rightarrow> relay_reservation \<Rightarrow> protocol_error + unit" where
  "relay_reservation_validate env r =
     rbind (validate_relay_fields env r) (\<lambda>_.
     rbind (ok_or (rr_relay_client_wireguard_endpoint r) (Pe_InvalidField ''relay_client_wireguard_endpoint'')) (\<lambda>relay_client.
     rbind (endpoint_validate relay_client ''relay_client_wireguard_endpoint'') (\<lambda>_.
     rbind (ok_or (rr_relay_exit_wireguard_endpoint r) (Pe_InvalidField ''relay_exit_wireguard_endpoint'')) (\<lambda>relay_exit.
     rbind (endpoint_validate relay_exit ''relay_exit_wireguard_endpoint'') (\<lambda>_.
     rbind (ok_or (ra_exit_wireguard_endpoint r) (Pe_InvalidField ''exit_wireguard_endpoint'')) (\<lambda>exit_endpoint.
     rbind (validate_distinct_wireguard_keys
              [ra_client_wireguard_public_key r, we_public_key relay_client, we_public_key relay_exit,
               we_public_key exit_endpoint]) (\<lambda>_.
     if we_listen_port relay_client = we_listen_port relay_exit
     then Inl (Pe_InvalidField ''relay unique listen ports'') else
     rbind (require_nonzero_length HASH_LENGTH (rr_signed_client_relay_request_sha256 r)
              ''relay signed client request SHA-256'') (\<lambda>_.
     rbind (decode_canonical (ce_envelope env) (rr_exit_authorization r) MAX_CONTROL_MESSAGE_SIZE) (\<lambda>nested.
     if se_message_type nested \<noteq> message_number Mt_RelayAuthorization
     then Inl (Pe_InvalidField ''relay_reservation.exit_authorization type'') else Inr ())))))))))"

definition relay_reservation_validate_envelope :: "relay_reservation \<Rightarrow> signed_envelope \<Rightarrow> protocol_error + unit" where
  "relay_reservation_validate_envelope r e =
     validate_signed_fields (ra_relay_node_id r) (ra_created_at_ms r) (ra_expires_at_ms r) (ra_nonce r) e
       ''relay_reservation envelope binding''"

definition relay_reservation_payload ::
  "control_env \<Rightarrow> relay_reservation codec \<Rightarrow> relay_reservation control_payload" where
  "relay_reservation_payload env codec =
     \<lparr>cp_codec = codec, cp_type = Mt_RelayReservation, cp_validate = relay_reservation_validate env,
      cp_validate_envelope = relay_reservation_validate_envelope\<rparr>"

definition same_relay_grant :: "relay_reservation \<Rightarrow> relay_authorization \<Rightarrow> bool" where
  "same_relay_grant relay exit \<longleftrightarrow>
     ra_reservation_id relay = ra_reservation_id exit
     \<and> ra_route_context_id relay = ra_route_context_id exit
     \<and> ra_path_id relay = ra_path_id exit
     \<and> ra_relay_node_id relay = ra_relay_node_id exit
     \<and> ra_exit_node_id relay = ra_exit_node_id exit
     \<and> ra_client_session_id relay = ra_client_session_id exit
     \<and> ra_relay_peer_id relay = ra_relay_peer_id exit
     \<and> ra_allowed_transports relay = ra_allowed_transports exit
     \<and> ra_maximum_up_mbps relay = ra_maximum_up_mbps exit
     \<and> ra_maximum_down_mbps relay = ra_maximum_down_mbps exit
     \<and> ra_client_wireguard_public_key relay = ra_client_wireguard_public_key exit
     \<and> ra_exit_wireguard_endpoint relay = ra_exit_wireguard_endpoint exit
     \<and> ra_policy_hash relay = ra_policy_hash exit
     \<and> ra_created_at_ms relay = ra_created_at_ms exit
     \<and> ra_expires_at_ms relay = ra_expires_at_ms exit
     \<and> ra_capability_id relay = ra_capability_id exit
     \<and> ra_client_session_public_key relay = ra_client_session_public_key exit
     \<and> ra_exit_boot_id relay = ra_exit_boot_id exit
     \<and> ra_hold_id relay = ra_hold_id exit
     \<and> ra_finalize_id relay = ra_finalize_id exit
     \<and> ra_control_relay_node_id relay = ra_control_relay_node_id exit
     \<and> ra_control_relay_peer_id relay = ra_control_relay_peer_id exit
     \<and> ra_exit_peer_id relay = ra_exit_peer_id exit"

text \<open>
  Both signatures of a relay path. The nested authorization is verified with the same cache, and an entry
  that was recorded is rolled back when a later check fails.
\<close>

definition verify_relay_reservation ::
  "control_env \<Rightarrow> relay_reservation codec \<Rightarrow> relay_authorization codec \<Rightarrow> bytes \<Rightarrow> nat \<Rightarrow> time_policy \<Rightarrow> replay_cache
     \<Rightarrow> (protocol_error + relay_reservation verified_control_message \<times> relay_authorization verified_control_message)
        \<times> replay_cache" where
  "verify_relay_reservation env relay_codec authorization_codec encoded now_ms policy cache =
     (case verify_control_message env (relay_reservation_payload env relay_codec) encoded now_ms policy cache of
        (Inl err, cache1) \<Rightarrow> (Inl err, cache1)
      | (Inr relay, cache1) \<Rightarrow>
          (case verify_control_message env (relay_authorization_payload env authorization_codec)
                  (rr_exit_authorization (vm_message relay)) now_ms policy cache1 of
             (Inl err, cache2) \<Rightarrow> (Inl err, snd (rollback (vm_sender_id relay) (vm_nonce relay) cache2))
           | (Inr exit, cache2) \<Rightarrow>
               if \<not> same_relay_grant (vm_message relay) (vm_message exit)
               then (Inl (Pe_InvalidField ''relay reservation differs from exit authorization''),
                     snd (rollback (vm_sender_id exit) (vm_nonce exit)
                       (snd (rollback (vm_sender_id relay) (vm_nonce relay) cache2))))
               else (Inr (relay, exit), cache2)))"

section \<open>The finalized bundle\<close>

definition FINALIZED_BUNDLE_DOMAIN :: bytes where
  "FINALIZED_BUNDLE_DOMAIN = ascii ''volparossa/finalized-reservation-bundle/v4'' @ [0]"

definition same_finalized_scope :: "exit_reservation \<Rightarrow> relay_authorization \<Rightarrow> bool" where
  "same_finalized_scope exit path \<longleftrightarrow>
     ra_reservation_id path = er_reservation_id exit
     \<and> ra_route_context_id path = er_route_context_id exit
     \<and> ra_exit_node_id path = er_exit_node_id exit
     \<and> ra_client_session_id path = er_client_session_id exit
     \<and> ra_allowed_transports path = er_allowed_transports exit
     \<and> ra_maximum_up_mbps path = er_reserved_up_mbps exit
     \<and> ra_maximum_down_mbps path = er_reserved_down_mbps exit
     \<and> ra_policy_hash path = er_policy_hash exit
     \<and> ra_created_at_ms path = er_created_at_ms exit
     \<and> ra_expires_at_ms path = er_expires_at_ms exit
     \<and> ra_capability_id path = er_capability_id exit
     \<and> ra_client_session_public_key path = er_client_session_public_key exit
     \<and> ra_exit_boot_id path = er_exit_boot_id exit
     \<and> ra_hold_id path = er_hold_id exit
     \<and> ra_finalize_id path = er_finalize_id exit
     \<and> ra_control_relay_node_id path = er_control_relay_node_id exit
     \<and> ra_control_relay_peer_id path = er_control_relay_peer_id exit
     \<and> ra_exit_peer_id path = er_exit_peer_id exit"

definition hash_bundle_member :: "bytes \<Rightarrow> bytes \<Rightarrow> protocol_error + bytes" where
  "hash_bundle_member hashed encoded =
     (if length encoded > u32_max then Inl (Pe_InvalidField ''finalized bundle member length'')
      else Inr (hashed @ be_bytes 4 (length encoded) @ encoded))"

fun hash_authorizations ::
  "control_env \<Rightarrow> relay_authorization codec \<Rightarrow> exit_reservation \<Rightarrow> nat \<Rightarrow> bytes \<Rightarrow> bytes list \<Rightarrow> protocol_error + bytes" where
  "hash_authorizations env codec exit previous_path_id hashed [] = Inr hashed"
| "hash_authorizations env codec exit previous_path_id hashed (encoded # rest) =
     rbind (decode_canonical (ce_envelope env) encoded MAX_CONTROL_MESSAGE_SIZE) (\<lambda>envelope.
     if se_protocol_version envelope \<noteq> PROTOCOL_VERSION
        \<or> se_message_type envelope \<noteq> message_number Mt_RelayAuthorization
     then Inl (Pe_InvalidField ''finalized bundle relay authorization'') else
     rbind (decode_canonical codec (se_payload envelope) MAX_CONTROL_PAYLOAD_SIZE) (\<lambda>authorization.
     rbind (validate_relay_fields env authorization) (\<lambda>_.
     rbind (relay_authorization_validate_envelope authorization envelope) (\<lambda>_.
     if ra_path_id authorization \<le> previous_path_id \<or> \<not> same_finalized_scope exit authorization
     then Inl (Pe_InvalidField ''finalized bundle authorization scope'') else
     rbind (hash_bundle_member hashed encoded) (\<lambda>hashed'.
     hash_authorizations env codec exit (ra_path_id authorization) hashed' rest)))))"

definition finalized_reservation_bundle_hash ::
  "control_env \<Rightarrow> exit_reservation codec \<Rightarrow> relay_authorization codec \<Rightarrow> bytes \<Rightarrow> bytes list \<Rightarrow> protocol_error + bytes" where
  "finalized_reservation_bundle_hash env exit_codec authorization_codec signed_exit_reservation relay_authorizations =
     rbind (decode_canonical (ce_envelope env) signed_exit_reservation MAX_CONTROL_MESSAGE_SIZE) (\<lambda>exit_envelope.
     if se_protocol_version exit_envelope \<noteq> PROTOCOL_VERSION
        \<or> se_message_type exit_envelope \<noteq> message_number Mt_ExitReservation
     then Inl (Pe_InvalidField ''finalized bundle exit grant'') else
     rbind (decode_canonical exit_codec (se_payload exit_envelope) MAX_CONTROL_PAYLOAD_SIZE) (\<lambda>exit.
     rbind (exit_reservation_validate env exit) (\<lambda>_.
     rbind (exit_reservation_validate_envelope exit exit_envelope) (\<lambda>_.
     if length relay_authorizations \<noteq> er_maximum_paths exit \<or> \<not> (1 \<le> er_maximum_paths exit \<and> er_maximum_paths exit \<le> 8)
     then Inl (Pe_InvalidField ''finalized bundle path count'') else
     rbind (hash_bundle_member FINALIZED_BUNDLE_DOMAIN signed_exit_reservation) (\<lambda>hashed.
     rbind (hash_authorizations env authorization_codec exit 0 hashed relay_authorizations) (\<lambda>hashed'.
     Inr (ce_sha256 env hashed')))))))"

section \<open>Flows\<close>

record open_tcp =
  ot_route_context_id :: bytes
  ot_flow_id :: bytes
  ot_client_ephemeral_id :: bytes
  ot_hostname :: utext
  ot_port :: nat
  ot_policy_hash :: bytes
  ot_timestamp_ms :: nat
  ot_expires_at_ms :: nat
  ot_nonce :: bytes
  ot_destination_ip :: bytes

definition open_tcp_validate :: "open_tcp \<Rightarrow> protocol_error + unit" where
  "open_tcp_validate m =
     rbind (require_nonzero_length ID_LENGTH (ot_route_context_id m) ''open_tcp.route_context_id'') (\<lambda>_.
     rbind (require_nonzero_length ID_LENGTH (ot_flow_id m) ''open_tcp.flow_id'') (\<lambda>_.
     rbind (require_nonzero_length HASH_LENGTH (ot_client_ephemeral_id m) ''open_tcp.client_ephemeral_id'') (\<lambda>_.
     if ot_hostname m = [] \<and> ot_destination_ip m = [] then Inl (Pe_InvalidField ''open_tcp destination'') else
     rbind (if ot_hostname m \<noteq> [] then validate_canonical_hostname (ot_hostname m) else Inr ()) (\<lambda>_.
     rbind (if ot_destination_ip m \<noteq> []
            then rbind (ok_or (parse_ip_bytes (ot_destination_ip m)) (Pe_InvalidField ''open_tcp.destination_ip'')) (\<lambda>_. Inr ())
            else Inr ()) (\<lambda>_.
     rbind (validate_port (ot_port m) ''open_tcp.port'') (\<lambda>_.
     rbind (require_nonzero_length HASH_LENGTH (ot_policy_hash m) ''open_tcp.policy_hash'') (\<lambda>_.
     rbind (require_nonzero_length NONCE_LENGTH (ot_nonce m) ''open_tcp.nonce'') (\<lambda>_.
     validate_lifetime (ot_timestamp_ms m) (ot_expires_at_ms m) MAX_RESERVATION_LIFETIME_MS ''open_tcp lifetime''))))))))"

definition open_tcp_validate_envelope :: "open_tcp \<Rightarrow> signed_envelope \<Rightarrow> protocol_error + unit" where
  "open_tcp_validate_envelope m e =
     validate_signed_fields (ot_client_ephemeral_id m) (ot_timestamp_ms m) (ot_expires_at_ms m) (ot_nonce m) e
       ''open_tcp envelope binding''"

definition open_tcp_payload :: "open_tcp codec \<Rightarrow> open_tcp control_payload" where
  "open_tcp_payload codec =
     \<lparr>cp_codec = codec, cp_type = Mt_OpenTcp, cp_validate = open_tcp_validate,
      cp_validate_envelope = open_tcp_validate_envelope\<rparr>"

record udp_flow_authorization =
  uf_route_context_id :: bytes
  uf_flow_id :: bytes
  uf_client_ephemeral_id :: bytes
  uf_hostname :: utext
  uf_destination_ip :: bytes
  uf_port :: nat
  uf_policy_hash :: bytes
  uf_idle_timeout_ms :: nat
  uf_timestamp_ms :: nat
  uf_expires_at_ms :: nat
  uf_nonce :: bytes

definition udp_flow_validate :: "udp_flow_authorization \<Rightarrow> protocol_error + unit" where
  "udp_flow_validate m =
     rbind (require_nonzero_length ID_LENGTH (uf_route_context_id m) ''udp_authorization.route_context_id'') (\<lambda>_.
     rbind (require_nonzero_length ID_LENGTH (uf_flow_id m) ''udp_authorization.flow_id'') (\<lambda>_.
     rbind (require_nonzero_length HASH_LENGTH (uf_client_ephemeral_id m) ''udp_authorization.client_ephemeral_id'') (\<lambda>_.
     if uf_hostname m = [] \<and> uf_destination_ip m = [] then Inl (Pe_InvalidField ''udp_authorization destination'') else
     rbind (if uf_hostname m \<noteq> [] then validate_canonical_hostname (uf_hostname m) else Inr ()) (\<lambda>_.
     rbind (if uf_destination_ip m \<noteq> []
            then rbind (ok_or (parse_ip_bytes (uf_destination_ip m)) (Pe_InvalidField ''udp_authorization.destination_ip'')) (\<lambda>_. Inr ())
            else Inr ()) (\<lambda>_.
     rbind (validate_port (uf_port m) ''udp_authorization.port'') (\<lambda>_.
     rbind (require_nonzero_length HASH_LENGTH (uf_policy_hash m) ''udp_authorization.policy_hash'') (\<lambda>_.
     if \<not> (1000 \<le> uf_idle_timeout_ms m \<and> uf_idle_timeout_ms m \<le> 300000)
     then Inl (Pe_InvalidField ''udp_authorization.idle_timeout_ms'') else
     rbind (require_nonzero_length NONCE_LENGTH (uf_nonce m) ''udp_authorization.nonce'') (\<lambda>_.
     validate_lifetime (uf_timestamp_ms m) (uf_expires_at_ms m) MAX_RESERVATION_LIFETIME_MS
       ''udp_authorization lifetime''))))))))"

definition udp_flow_validate_envelope :: "udp_flow_authorization \<Rightarrow> signed_envelope \<Rightarrow> protocol_error + unit" where
  "udp_flow_validate_envelope m e =
     validate_signed_fields (uf_client_ephemeral_id m) (uf_timestamp_ms m) (uf_expires_at_ms m) (uf_nonce m) e
       ''udp_authorization envelope binding''"

definition udp_flow_payload :: "udp_flow_authorization codec \<Rightarrow> udp_flow_authorization control_payload" where
  "udp_flow_payload codec =
     \<lparr>cp_codec = codec, cp_type = Mt_UdpFlowAuthorization, cp_validate = udp_flow_validate,
      cp_validate_envelope = udp_flow_validate_envelope\<rparr>"

end
