(* ===== verification/Replay_Transaction.thy ===== *)
theory Replay_Transaction
  imports Protocol_Messages
begin

text \<open>
  Verification against the shared replay cache, all or nothing.

  Routes and flows are accepted by checks that verify several signed messages in turn, each of which records its
  nonce in the replay cache. The type \<^verbatim>\<open>ReplayTransaction\<close> (\<^verbatim>\<open>crates/volparossa-tcp-proxy/src/route.rs\<close>, and
  the same text in \<^verbatim>\<open>crates/volparossa-udp/src/path.rs\<close>) keeps the recorded nonces and rolls them back when it is
  dropped without a commit. The locale \<open>replay_atomic\<close> is the contract: a refusal leaves the live entries as they
  were, an acceptance adds new entries that have not expired. Every verifier that uses the cache is an instance.
\<close>

section \<open>Fallible steps on a state\<close>

definition tbind ::
  "('s \<Rightarrow> ('e + 'a) \<times> 's) \<Rightarrow> ('a \<Rightarrow> 's \<Rightarrow> ('e + 'b) \<times> 's) \<Rightarrow> 's \<Rightarrow> ('e + 'b) \<times> 's" where
  "tbind m f s = (case m s of (Inl e, s') \<Rightarrow> (Inl e, s') | (Inr a, s') \<Rightarrow> f a s')"

definition tlift :: "('e + 'a) \<Rightarrow> 's \<Rightarrow> ('e + 'a) \<times> 's" where
  "tlift r s = (r, s)"

lemma tbind_Inr: "tbind m f s = (Inr b, s') \<longleftrightarrow> (\<exists>a s1. m s = (Inr a, s1) \<and> f a s1 = (Inr b, s'))"
  by (auto simp: tbind_def split: prod.splits sum.splits)

lemma tbind_Inl:
  "tbind m f s = (Inl e, s') \<longleftrightarrow> m s = (Inl e, s') \<or> (\<exists>a s1. m s = (Inr a, s1) \<and> f a s1 = (Inl e, s'))"
  by (auto simp: tbind_def split: prod.splits sum.splits)

lemma tlift_Inr: "tlift r s = (Inr b, s') \<longleftrightarrow> r = Inr b \<and> s' = s"
  by (auto simp: tlift_def)

section \<open>The transaction\<close>

record replay_transaction =
  rt_cache :: replay_cache
  rt_accepted :: "replay_key list"
  rt_committed :: bool

definition transaction_new :: "replay_cache \<Rightarrow> replay_transaction" where
  "transaction_new cache = \<lparr>rt_cache = cache, rt_accepted = [], rt_committed = False\<rparr>"

definition transaction_record :: "'m verified_control_message \<Rightarrow> replay_transaction \<Rightarrow> replay_transaction" where
  "transaction_record v t = t\<lparr>rt_accepted := rt_accepted t @ [(vm_sender_id v, vm_nonce v)]\<rparr>"

definition transaction_commit :: "replay_transaction \<Rightarrow> replay_transaction" where
  "transaction_commit t = t\<lparr>rt_committed := True\<rparr>"

definition transaction_drop :: "replay_transaction \<Rightarrow> replay_transaction" where
  "transaction_drop t =
     (if rt_committed t then t
      else t\<lparr>rt_cache := foldl (\<lambda>c (sender_id, nonce). snd (rollback sender_id nonce c)) (rt_cache t) (rt_accepted t)\<rparr>)"

text \<open>
  A verification on the transaction's cache whose message is recorded, and the scope of a transaction: the
  body runs on a fresh transaction, a result commits it, and it is dropped at the end.
\<close>

definition verify_recorded ::
  "control_env \<Rightarrow> 'm control_payload \<Rightarrow> bytes \<Rightarrow> nat \<Rightarrow> time_policy \<Rightarrow> (protocol_error \<Rightarrow> 'e) \<Rightarrow> replay_transaction
     \<Rightarrow> ('e + 'm verified_control_message) \<times> replay_transaction" where
  "verify_recorded env p encoded now_ms policy from_protocol t =
     (case verify_control_message env p encoded now_ms policy (rt_cache t) of
        (Inl err, cache) \<Rightarrow> (Inl (from_protocol err), t\<lparr>rt_cache := cache\<rparr>)
      | (Inr v, cache) \<Rightarrow> (Inr v, transaction_record v (t\<lparr>rt_cache := cache\<rparr>)))"

definition verify_relay_recorded ::
  "control_env \<Rightarrow> relay_reservation codec \<Rightarrow> relay_authorization codec \<Rightarrow> bytes \<Rightarrow> nat \<Rightarrow> time_policy
     \<Rightarrow> (protocol_error \<Rightarrow> 'e) \<Rightarrow> replay_transaction
     \<Rightarrow> ('e + relay_reservation verified_control_message \<times> relay_authorization verified_control_message)
        \<times> replay_transaction" where
  "verify_relay_recorded env relay_codec authorization_codec encoded now_ms policy from_protocol t =
     (case verify_relay_reservation env relay_codec authorization_codec encoded now_ms policy (rt_cache t) of
        (Inl err, cache) \<Rightarrow> (Inl (from_protocol err), t\<lparr>rt_cache := cache\<rparr>)
      | (Inr (relay, exit), cache) \<Rightarrow>
          (Inr (relay, exit), transaction_record exit (transaction_record relay (t\<lparr>rt_cache := cache\<rparr>))))"

definition run_transaction ::
  "(replay_transaction \<Rightarrow> ('e + 'a) \<times> replay_transaction) \<Rightarrow> replay_cache \<Rightarrow> ('e + 'a) \<times> replay_cache" where
  "run_transaction body cache =
     (case body (transaction_new cache) of
        (Inl err, t) \<Rightarrow> (Inl err, rt_cache (transaction_drop t))
      | (Inr a, t) \<Rightarrow> (Inr a, rt_cache (transaction_drop (transaction_commit t))))"

section \<open>The contract of a verifier\<close>

definition fresh_entries :: "nat \<Rightarrow> replay_cache \<Rightarrow> (replay_key \<times> nat) list \<Rightarrow> bool" where
  "fresh_entries now c es \<longleftrightarrow>
     distinct (map fst es) \<and> fst ` set es \<inter> fst ` set (live_entries now c) = {}
     \<and> (\<forall>(k, x) \<in> set es. now < x) \<and> length (live_entries now c) + length es \<le> rc_maximum_entries c"

definition with_entries :: "nat \<Rightarrow> replay_cache \<Rightarrow> (replay_key \<times> nat) list \<Rightarrow> replay_cache" where
  "with_entries now c es = c\<lparr>rc_entries := live_entries now c @ es\<rparr>"

locale replay_atomic =
  fixes verify :: "'i \<Rightarrow> nat \<Rightarrow> replay_cache \<Rightarrow> ('e + 'a) \<times> replay_cache"
  assumes refused: "verify i now c = (Inl e, c') \<Longrightarrow> c' = c \<or> c' = with_entries now c []"
    and accepted: "verify i now c = (Inr a, c') \<Longrightarrow> \<exists>es. fresh_entries now c es \<and> es \<noteq> [] \<and> c' = with_entries now c es"
begin

lemma verify_cases:
  obtains (same) "snd (verify i now c) = c" "\<not> is_ok (fst (verify i now c))"
  | (purged) "snd (verify i now c) = with_entries now c []" "\<not> is_ok (fst (verify i now c))"
  | (added) es where "snd (verify i now c) = with_entries now c es" "fresh_entries now c es" "es \<noteq> []"
      "is_ok (fst (verify i now c))"
proof (cases "verify i now c")
  case (Pair r c')
  show ?thesis
  proof (cases r)
    case (Inl e)
    with Pair refused have "c' = c \<or> c' = with_entries now c []" by blast
    with Pair Inl same purged show ?thesis by (auto simp: is_ok_conv)
  next
    case (Inr a)
    with Pair accepted obtain es where "fresh_entries now c es" "es \<noteq> []" "c' = with_entries now c es" by blast
    with Pair Inr added show ?thesis by (auto simp: is_ok_conv)
  qed
qed

lemma verify_inv:
  assumes "cache_inv c"
  shows "cache_inv (snd (verify i now c))"
  using assms live_entries_inv [OF assms, of now]
  by (cases rule: verify_cases [of i now c]) (auto simp: with_entries_def fresh_entries_def cache_inv_def)

lemma verify_keeps_entry:
  assumes "entry \<in> set (rc_entries c)" "now < snd entry"
  shows "entry \<in> set (rc_entries (snd (verify i now c)))"
proof -
  have "entry \<in> set (live_entries now c)" using assms by (auto simp: live_entries_def)
  with assms(1) show ?thesis by (cases rule: verify_cases [of i now c]) (auto simp: with_entries_def)
qed

lemma refused_keeps_live:
  assumes "\<not> is_ok (fst (verify i now c))" "now \<le> later"
  shows "live_entries later (snd (verify i now c)) = live_entries later c"
proof -
  have "live_entries later (with_entries now c []) = live_entries later c"
    using assms(2) by (auto simp: with_entries_def live_entries_def intro!: filter_cong)
  with assms(1) show ?thesis by (cases rule: verify_cases [of i now c]) auto
qed

lemma run_keeps_entry:
  assumes "entry \<in> set (rc_entries c)" "\<forall>(i, now) \<in> set calls. now < snd entry"
  shows "entry \<in> set (rc_entries (run_ops (\<lambda>(i, now). verify i now) calls c))"
  using assms by (induction calls arbitrary: c) (auto intro: verify_keeps_entry)

end

sublocale replay_atomic \<subseteq> invariant_component "\<lambda>(i, now). verify i now" cache_inv
  by unfold_locales (auto intro: verify_inv)

section \<open>Single messages and relay paths\<close>

lemma live_entries_with:
  assumes "\<forall>(k, x) \<in> set es. now < x"
  shows "live_entries now (with_entries now c es) = live_entries now c @ es"
  using assms by (auto simp: with_entries_def live_entries_def filter_id_conv)

lemma rc_maximum_with [simp]: "rc_maximum_entries (with_entries now c es) = rc_maximum_entries c"
  by (simp add: with_entries_def)

lemma with_entries_with:
  assumes "\<forall>(k, x) \<in> set es. now < x"
  shows "with_entries now (with_entries now c es) es' = with_entries now c (es @ es')"
  using live_entries_with [OF assms] by (simp add: with_entries_def)

lemma fresh_entries_with:
  assumes "\<forall>(k, x) \<in> set es. now < x" "distinct (map fst es)" "fst ` set es \<inter> fst ` set (live_entries now c) = {}"
    and "fresh_entries now (with_entries now c es) es'"
  shows "fresh_entries now c (es @ es')"
  using assms live_entries_with [OF assms(1)] by (auto simp: fresh_entries_def)

lemma fresh_entries_live:
  assumes "es = [] \<or> fresh_entries now c es"
  shows "\<forall>(k, x) \<in> set es. now < x" "distinct (map fst es)" "fst ` set es \<inter> fst ` set (live_entries now c) = {}"
  using assms by (auto simp: fresh_entries_def)

abbreviation replay_entry :: "'m verified_control_message \<Rightarrow> replay_key \<times> nat" where
  "replay_entry v \<equiv> ((vm_sender_id v, vm_nonce v), vm_expires_at_ms v)"

lemma verify_message_effect:
  assumes "verify_control_message env p encoded now policy c = (r, c')"
  shows "case r of Inl e \<Rightarrow> c' = c \<or> c' = with_entries now c []
    | Inr v \<Rightarrow> c' = with_entries now c [replay_entry v] \<and> fresh_entries now c [replay_entry v]
        \<and> verify_payload env p encoded now policy = Inr v"
proof (cases "verify_payload env p encoded now policy")
  case (Inl e)
  with assms have "r = Inl e" "c' = c" by (simp_all add: verify_control_message_def)
  then show ?thesis by simp
next
  case (Inr v)
  then obtain e m where "control_authentic env encoded now policy e (cp_type p)" "v = verified_of e m"
    unfolding verify_payload_Inr by blast
  then have "now < vm_expires_at_ms v" by (simp add: control_authentic_def)
  with assms show ?thesis
    unfolding verify_control_message_def Inr check_and_insert_eq
    by (auto simp: with_entries_def fresh_entries_def split: if_splits)
qed

text \<open>The same after other entries were added at that time.\<close>

lemma verify_message_after:
  assumes "es = [] \<or> fresh_entries now c es"
    "verify_control_message env p encoded now policy (with_entries now c es) = (r, c')"
  shows "case r of Inl e \<Rightarrow> c' = with_entries now c es
    | Inr v \<Rightarrow> c' = with_entries now c (es @ [replay_entry v]) \<and> fresh_entries now c (es @ [replay_entry v])
        \<and> verify_payload env p encoded now policy = Inr v"
proof -
  note live = fresh_entries_live [OF assms(1)]
  show ?thesis
    using verify_message_effect [OF assms(2)] fresh_entries_with [OF live]
    unfolding with_entries_with [OF live(1)] by (auto split: sum.splits)
qed

interpretation control: replay_atomic
  "\<lambda>(env, p, encoded, policy) now c. verify_control_message env p encoded now policy c"
proof
  fix i :: "control_env \<times> 'm control_payload \<times> bytes \<times> time_policy" and now c e c'
  assume "(case i of (env, p, encoded, policy) \<Rightarrow> \<lambda>now c. verify_control_message env p encoded now policy c) now c = (Inl e, c')"
  then show "c' = c \<or> c' = with_entries now c []"
    by (cases i) (auto dest!: verify_message_effect)
next
  fix i :: "control_env \<times> 'm control_payload \<times> bytes \<times> time_policy" and now c v c'
  assume "(case i of (env, p, encoded, policy) \<Rightarrow> \<lambda>now c. verify_control_message env p encoded now policy c) now c = (Inr v, c')"
  then show "\<exists>es. fresh_entries now c es \<and> es \<noteq> [] \<and> c' = with_entries now c es"
    by (cases i) (auto dest!: verify_message_effect intro!: exI)
qed

lemma fresh_entries_tl: "fresh_entries now c (e # es) \<Longrightarrow> fresh_entries now c es"
  by (auto simp: fresh_entries_def)

lemma rollback_with:
  assumes "fresh_entries now c (((s, n), x) # es)"
  shows "snd (rollback s n (with_entries now c (((s, n), x) # es))) = with_entries now c es"
proof -
  have "(s, n) \<notin> fst ` set (live_entries now c)" "(s, n) \<notin> fst ` set es"
    using assms by (auto simp: fresh_entries_def)
  then have "filter (\<lambda>(key, _). key \<noteq> (s, n)) (live_entries now c) = live_entries now c"
    "filter (\<lambda>(key, _). key \<noteq> (s, n)) es = es"
    by (force simp: filter_id_conv)+
  then show ?thesis by (simp add: rollback_def with_entries_def)
qed

lemma verify_relay_effect:
  assumes "verify_relay_reservation env rc ac encoded now policy c = (r, c')"
  shows "case r of Inl e \<Rightarrow> c' = c \<or> c' = with_entries now c []
    | Inr (relay, exit) \<Rightarrow>
        c' = with_entries now c [replay_entry relay, replay_entry exit]
        \<and> fresh_entries now c [replay_entry relay, replay_entry exit]
        \<and> verify_payload env (relay_reservation_payload env rc) encoded now policy = Inr relay
        \<and> verify_payload env (relay_authorization_payload env ac) (rr_exit_authorization (vm_message relay)) now policy = Inr exit
        \<and> same_relay_grant (vm_message relay) (vm_message exit)"
proof -
  obtain r1 c1 where v1: "verify_control_message env (relay_reservation_payload env rc) encoded now policy c = (r1, c1)"
    by (rule prod.exhaust)
  show ?thesis
  proof (cases r1)
    case (Inl e)
    have "r = Inl e" "c' = c1"
      using assms unfolding verify_relay_reservation_def v1 Inl by simp_all
    then show ?thesis using verify_message_effect [OF v1] unfolding Inl by simp
  next
    case (Inr relay)
    note r1 = this
    have e1: "c1 = with_entries now c [replay_entry relay]" "fresh_entries now c [replay_entry relay]"
      "verify_payload env (relay_reservation_payload env rc) encoded now policy = Inr relay"
      using verify_message_effect [OF v1] unfolding r1 by simp_all
    obtain r2 c2 where v2: "verify_control_message env (relay_authorization_payload env ac)
        (rr_exit_authorization (vm_message relay)) now policy c1 = (r2, c2)" by (rule prod.exhaust)
    note eff = verify_message_after [OF disjI2 [OF e1(2)] v2 [unfolded e1(1)]]
    note unfolded = assms [unfolded verify_relay_reservation_def v1 r1 prod.case sum.case v2]
    show ?thesis
    proof (cases r2)
      case (Inl e)
      with unfolded have "r = Inl e" "c' = snd (rollback (vm_sender_id relay) (vm_nonce relay) c2)" by simp_all
      with eff Inl show ?thesis using rollback_with [OF e1(2)] by simp
    next
      case (Inr exit)
      with eff have e2: "c2 = with_entries now c [replay_entry relay, replay_entry exit]"
        "fresh_entries now c [replay_entry relay, replay_entry exit]"
        "verify_payload env (relay_authorization_payload env ac) (rr_exit_authorization (vm_message relay)) now policy = Inr exit"
        by simp_all
      note undo = rollback_with [OF e2(2)] rollback_with [OF fresh_entries_tl [OF e2(2)]]
      show ?thesis
        using unfolded unfolding Inr
        by (cases "same_relay_grant (vm_message relay) (vm_message exit)") (auto simp: e1(3) e2 undo)
    qed
  qed
qed

lemma verify_relay_after:
  assumes "es = [] \<or> fresh_entries now c es"
    "verify_relay_reservation env rc ac encoded now policy (with_entries now c es) = (r, c')"
  shows "case r of Inl e \<Rightarrow> c' = with_entries now c es
    | Inr (relay, exit) \<Rightarrow>
        c' = with_entries now c (es @ [replay_entry relay, replay_entry exit])
        \<and> fresh_entries now c (es @ [replay_entry relay, replay_entry exit])
        \<and> verify_payload env (relay_reservation_payload env rc) encoded now policy = Inr relay
        \<and> verify_payload env (relay_authorization_payload env ac) (rr_exit_authorization (vm_message relay)) now policy = Inr exit
        \<and> same_relay_grant (vm_message relay) (vm_message exit)"
proof -
  note live = fresh_entries_live [OF assms(1)]
  show ?thesis
    using verify_relay_effect [OF assms(2)] fresh_entries_with [OF live]
    unfolding with_entries_with [OF live(1)] by (auto split: sum.splits prod.splits)
qed

interpretation relay_path: replay_atomic
  "\<lambda>(env, rc, ac, encoded, policy) now c. verify_relay_reservation env rc ac encoded now policy c"
proof
  fix i :: "control_env \<times> relay_reservation codec \<times> relay_authorization codec \<times> bytes \<times> time_policy" and now c e c'
  assume "(case i of (env, rc, ac, encoded, policy) \<Rightarrow>
      \<lambda>now c. verify_relay_reservation env rc ac encoded now policy c) now c = (Inl e, c')"
  then show "c' = c \<or> c' = with_entries now c []"
    by (cases i) (auto dest!: verify_relay_effect)
next
  fix i :: "control_env \<times> relay_reservation codec \<times> relay_authorization codec \<times> bytes \<times> time_policy" and now c v c'
  assume "(case i of (env, rc, ac, encoded, policy) \<Rightarrow>
      \<lambda>now c. verify_relay_reservation env rc ac encoded now policy c) now c = (Inr v, c')"
  then show "\<exists>es. fresh_entries now c es \<and> es \<noteq> [] \<and> c' = with_entries now c es"
    by (cases i; cases v) (auto dest!: verify_relay_effect intro!: exI)
qed

section \<open>Transactions are atomic\<close>

text \<open>
  Inside a transaction the cache holds the live entries it started with, and the recorded ones. \<open>tx_ok\<close> says
  so; it is kept by every step the verifiers compose.
\<close>

definition tx_ok :: "nat \<Rightarrow> replay_cache \<Rightarrow> replay_transaction \<Rightarrow> bool" where
  "tx_ok now c t \<longleftrightarrow> \<not> rt_committed t \<and>
     (\<exists>es. rt_accepted t = map fst es
       \<and> (if es = [] then rt_cache t = c \<or> rt_cache t = with_entries now c []
          else fresh_entries now c es \<and> rt_cache t = with_entries now c es))"

definition step_ok :: "nat \<Rightarrow> replay_cache \<Rightarrow> (replay_transaction \<Rightarrow> 'r \<times> replay_transaction) \<Rightarrow> bool" where
  "step_ok now c m \<longleftrightarrow> (\<forall>t. tx_ok now c t \<longrightarrow> tx_ok now c (snd (m t)))"

lemma step_ok_tlift [intro, simp]: "step_ok now c (tlift r)"
  by (simp add: step_ok_def tlift_def)

lemma step_ok_tbind [intro]:
  assumes "step_ok now c m" "\<And>a. step_ok now c (f a)"
  shows "step_ok now c (tbind m f)"
  using assms by (auto simp: step_ok_def tbind_def split: prod.splits sum.splits)

lemma tx_ok_new: "tx_ok now c (transaction_new c)"
  by (simp add: tx_ok_def transaction_new_def)

lemma tx_ok_cases:
  assumes "tx_ok now c t"
  obtains (start) "rt_cache t = c" "rt_accepted t = []"
  | (entries) es where "es = [] \<or> fresh_entries now c es" "rt_cache t = with_entries now c es" "rt_accepted t = map fst es"
  using assms unfolding tx_ok_def by (metis list.simps(8))

lemma tx_okI:
  assumes "\<not> rt_committed t" "rt_accepted t = map fst es" "rt_cache t = with_entries now c es" "es = [] \<or> fresh_entries now c es"
  shows "tx_ok now c t"
  using assms unfolding tx_ok_def by auto

lemma step_ok_recorded:
  assumes refused: "\<And>c0 e c1. V c0 = (Inl e, c1) \<Longrightarrow> c1 = c0 \<or> c1 = with_entries now c0 []"
    and accepted: "\<And>c0 a c1. V c0 = (Inr a, c1) \<Longrightarrow> fresh_entries now c0 (entries a) \<and> c1 = with_entries now c0 (entries a)"
    and step: "\<And>t. m t = (case V (rt_cache t) of (Inl e, c1) \<Rightarrow> (Inl (f e), t\<lparr>rt_cache := c1\<rparr>)
        | (Inr a, c1) \<Rightarrow> (Inr a, t\<lparr>rt_cache := c1, rt_accepted := rt_accepted t @ map fst (entries a)\<rparr>))"
  shows "step_ok now c m"
  unfolding step_ok_def
proof (intro allI impI)
  fix t
  assume t: "tx_ok now c t"
  then have n: "\<not> rt_committed t" by (simp add: tx_ok_def)
  obtain r c1 where v: "V (rt_cache t) = (r, c1)" by (rule prod.exhaust)
  show "tx_ok now c (snd (m t))"
  proof (cases r)
    case (Inl e)
    with refused v have c1: "c1 = rt_cache t \<or> c1 = with_entries now (rt_cache t) []" by blast
    have m: "snd (m t) = t\<lparr>rt_cache := c1\<rparr>" by (simp add: step v Inl)
    from t show ?thesis
    proof (cases rule: tx_ok_cases)
      case start
      with c1 n show ?thesis unfolding m tx_ok_def by (intro conjI exI [of _ "[]"]) simp_all
    next
      case (entries es)
      then have "c1 = with_entries now c es"
        using c1 with_entries_with [OF fresh_entries_live(1) [OF entries(1)], where es' = "[]"] by simp
      with entries n show ?thesis unfolding m by (intro tx_okI [of _ es]) simp_all
    qed
  next
    case (Inr a)
    with accepted v have a: "fresh_entries now (rt_cache t) (entries a)" "c1 = with_entries now (rt_cache t) (entries a)"
      by blast+
    have m: "snd (m t) = t\<lparr>rt_cache := c1, rt_accepted := rt_accepted t @ map fst (entries a)\<rparr>" by (simp add: step v Inr)
    from t show ?thesis
    proof (cases rule: tx_ok_cases)
      case start
      with a n m show ?thesis by (intro tx_okI [of _ "entries a"]) simp_all
    next
      case (entries es)
      note live = fresh_entries_live [OF entries(1)]
      show ?thesis
        using a n m entries fresh_entries_with [OF live] with_entries_with [OF live(1)]
        by (intro tx_okI [of _ "es @ entries a"]) simp_all
    qed
  qed
qed

lemma step_ok_verify_recorded [intro]: "step_ok now c (verify_recorded env p encoded now policy f)"
proof (rule step_ok_recorded [of "verify_control_message env p encoded now policy" _ "\<lambda>v. [replay_entry v]" _ f])
  show "verify_recorded env p encoded now policy f t =
      (case verify_control_message env p encoded now policy (rt_cache t) of
         (Inl e, c1) \<Rightarrow> (Inl (f e), t\<lparr>rt_cache := c1\<rparr>)
       | (Inr v, c1) \<Rightarrow> (Inr v, t\<lparr>rt_cache := c1, rt_accepted := rt_accepted t @ map fst [replay_entry v]\<rparr>))" for t
    by (simp add: verify_recorded_def transaction_record_def split: prod.split sum.split)
qed (use verify_message_effect in fastforce)+

lemma step_ok_verify_relay_recorded [intro]: "step_ok now c (verify_relay_recorded env rc ac encoded now policy f)"
proof (rule step_ok_recorded [of "verify_relay_reservation env rc ac encoded now policy" _
    "\<lambda>(relay, exit). [replay_entry relay, replay_entry exit]" _ f])
  show "verify_relay_recorded env rc ac encoded now policy f t =
      (case verify_relay_reservation env rc ac encoded now policy (rt_cache t) of
         (Inl e, c1) \<Rightarrow> (Inl (f e), t\<lparr>rt_cache := c1\<rparr>)
       | (Inr v, c1) \<Rightarrow> (Inr v, t\<lparr>rt_cache := c1, rt_accepted := rt_accepted t
            @ map fst ((\<lambda>(relay, exit). [replay_entry relay, replay_entry exit]) v)\<rparr>))" for t
    by (simp add: verify_relay_recorded_def transaction_record_def split: prod.split sum.split)
qed (use verify_relay_effect in fastforce)+

lemma drop_entries:
  assumes "es = [] \<or> fresh_entries now c es"
  shows "foldl (\<lambda>c (s, n). snd (rollback s n c)) (with_entries now c es) (map fst es) = with_entries now c []"
  using assms
proof (induction es)
  case Nil
  then show ?case by simp
next
  case (Cons e es)
  then have f: "fresh_entries now c (e # es)" by simp
  then have "snd (rollback (fst (fst e)) (snd (fst e)) (with_entries now c (e # es))) = with_entries now c es"
    using rollback_with [of now c "fst (fst e)" "snd (fst e)" "snd e" es] by simp
  with Cons.IH fresh_entries_tl [OF f] show ?case by (simp add: case_prod_beta)
qed

text \<open>
  The scope of a transaction: a refusal leaves the live entries, a result keeps exactly the recorded ones.
\<close>

lemma run_transaction_atomic:
  assumes "step_ok now c body" "run_transaction body c = (r, c')"
  shows "case r of Inl e \<Rightarrow> c' = c \<or> c' = with_entries now c []
    | Inr a \<Rightarrow> \<exists>t es. body (transaction_new c) = (Inr a, t) \<and> rt_accepted t = map fst es \<and> rt_cache t = c'
        \<and> (if es = [] then c' = c \<or> c' = with_entries now c [] else fresh_entries now c es \<and> c' = with_entries now c es)"
proof -
  obtain r' t where b: "body (transaction_new c) = (r', t)" by (rule prod.exhaust)
  have t: "tx_ok now c t"
    using assms(1) [unfolded step_ok_def, rule_format, OF tx_ok_new] by (simp add: b)
  show ?thesis
  proof (cases r')
    case (Inl e)
    then have r: "r = Inl e" "c' = rt_cache (transaction_drop t)"
      using assms(2) b by (simp_all add: run_transaction_def)
    have n: "\<not> rt_committed t" using t by (simp add: tx_ok_def)
    from t have "rt_cache (transaction_drop t) = c \<or> rt_cache (transaction_drop t) = with_entries now c []"
    proof (cases rule: tx_ok_cases)
      case start
      with n show ?thesis by (simp add: transaction_drop_def)
    next
      case (entries es)
      with n drop_entries [OF entries(1)] show ?thesis by (simp add: transaction_drop_def)
    qed
    with r show ?thesis by simp
  next
    case (Inr a)
    then have r: "r = Inr a" "c' = rt_cache t"
      using assms(2) b by (simp_all add: run_transaction_def transaction_commit_def transaction_drop_def)
    from t obtain es where "rt_accepted t = map fst es"
      "if es = [] then rt_cache t = c \<or> rt_cache t = with_entries now c []
       else fresh_entries now c es \<and> rt_cache t = with_entries now c es"
      unfolding tx_ok_def by blast
    with b Inr r show ?thesis by (simp only: sum.case) blast
  qed
qed

text \<open>
  Steps only add to the recorded nonces and keep every entry that has not expired, so a body that starts with a
  verification ends with its entry.
\<close>

definition grows :: "nat \<Rightarrow> (replay_transaction \<Rightarrow> 'r \<times> replay_transaction) \<Rightarrow> bool" where
  "grows now m \<longleftrightarrow>
     (\<forall>t. (\<exists>ks. rt_accepted (snd (m t)) = rt_accepted t @ ks)
        \<and> {entry \<in> set (rc_entries (rt_cache t)). now < snd entry} \<subseteq> set (rc_entries (rt_cache (snd (m t)))))"

lemma growsD:
  assumes "grows now m" "m t = (r, t')"
  obtains ks where "rt_accepted t' = rt_accepted t @ ks"
    "{entry \<in> set (rc_entries (rt_cache t)). now < snd entry} \<subseteq> set (rc_entries (rt_cache t'))"
proof -
  have "t' = snd (m t)" using assms(2) by simp
  with assms(1) that show thesis unfolding grows_def by blast
qed

lemma grows_tlift [intro, simp]: "grows now (tlift r)"
  by (auto simp: grows_def tlift_def)

lemma grows_tbind [intro]:
  assumes "grows now m" "\<And>a. grows now (f a)"
  shows "grows now (tbind m f)"
  unfolding grows_def
proof
  fix t
  obtain r t1 where m: "m t = (r, t1)" by (rule prod.exhaust)
  note g1 = growsD [OF assms(1) m]
  show "(\<exists>ks. rt_accepted (snd (tbind m f t)) = rt_accepted t @ ks)
      \<and> {entry \<in> set (rc_entries (rt_cache t)). now < snd entry} \<subseteq> set (rc_entries (rt_cache (snd (tbind m f t))))"
  proof (cases r)
    case (Inl e)
    then have "snd (tbind m f t) = t1" using m by (simp add: tbind_def)
    then show ?thesis using g1 by metis
  next
    case (Inr a)
    obtain r2 t2 where f: "f a t1 = (r2, t2)" by (rule prod.exhaust)
    have "snd (tbind m f t) = t2" using m Inr f by (simp add: tbind_def)
    moreover obtain ks where "rt_accepted t1 = rt_accepted t @ ks"
      "{entry \<in> set (rc_entries (rt_cache t)). now < snd entry} \<subseteq> set (rc_entries (rt_cache t1))" by (rule g1)
    moreover obtain ks' where "rt_accepted t2 = rt_accepted t1 @ ks'"
      "{entry \<in> set (rc_entries (rt_cache t1)). now < snd entry} \<subseteq> set (rc_entries (rt_cache t2))"
      by (rule growsD [OF assms(2) f])
    ultimately show ?thesis by auto
  qed
qed

lemma growsI:
  assumes "\<And>t. \<exists>ks. rt_accepted (snd (m t)) = rt_accepted t @ ks" "\<And>t. rt_cache (snd (m t)) = snd (V (rt_cache t))"
    and "\<And>entry c. entry \<in> set (rc_entries c) \<Longrightarrow> now < snd entry \<Longrightarrow> entry \<in> set (rc_entries (snd (V c)))"
  shows "grows now m"
  using assms by (auto simp: grows_def)

lemma grows_verify_recorded [intro, simp]: "grows now (verify_recorded env p encoded now policy f)"
  by (rule growsI [of _ "verify_control_message env p encoded now policy"])
    (use control.verify_keeps_entry [where now = now and i = "(env, p, encoded, policy)"] in
      \<open>auto simp: verify_recorded_def transaction_record_def split: prod.split sum.split\<close>)

lemma grows_verify_relay_recorded [intro, simp]: "grows now (verify_relay_recorded env rc ac encoded now policy f)"
  by (rule growsI [of _ "verify_relay_reservation env rc ac encoded now policy"])
    (use relay_path.verify_keeps_entry [where now = now and i = "(env, rc, ac, encoded, policy)"] in
      \<open>auto simp: verify_relay_recorded_def transaction_record_def split: prod.split sum.split\<close>)

lemma verify_recorded_Inr:
  assumes "verify_recorded env p encoded now policy f t = (Inr v, t')"
  shows "verify_payload env p encoded now policy = Inr v" "rt_accepted t' = rt_accepted t @ [(vm_sender_id v, vm_nonce v)]"
    "replay_entry v \<in> set (rc_entries (rt_cache t'))" "now < vm_expires_at_ms v"
proof -
  obtain c' where "verify_control_message env p encoded now policy (rt_cache t) = (Inr v, c')"
    and t': "t' = transaction_record v (t\<lparr>rt_cache := c'\<rparr>)"
    using assms by (auto simp: verify_recorded_def split: prod.splits sum.splits)
  from verify_message_effect [OF this(1)] t'
  show "verify_payload env p encoded now policy = Inr v" "rt_accepted t' = rt_accepted t @ [(vm_sender_id v, vm_nonce v)]"
    "replay_entry v \<in> set (rc_entries (rt_cache t'))" "now < vm_expires_at_ms v"
    by (simp_all add: transaction_record_def with_entries_def fresh_entries_def)
qed

lemma verify_relay_recorded_Inr:
  assumes "verify_relay_recorded env rc ac encoded now policy f t = (Inr (relay, exit), t')"
  shows "verify_payload env (relay_reservation_payload env rc) encoded now policy = Inr relay"
    "verify_payload env (relay_authorization_payload env ac) (rr_exit_authorization (vm_message relay)) now policy = Inr exit"
    "same_relay_grant (vm_message relay) (vm_message exit)"
proof -
  obtain c' where "verify_relay_reservation env rc ac encoded now policy (rt_cache t) = (Inr (relay, exit), c')"
    using assms by (auto simp: verify_relay_recorded_def split: prod.splits sum.splits)
  from verify_relay_effect [OF this]
  show "verify_payload env (relay_reservation_payload env rc) encoded now policy = Inr relay"
    "verify_payload env (relay_authorization_payload env ac) (rr_exit_authorization (vm_message relay)) now policy = Inr exit"
    "same_relay_grant (vm_message relay) (vm_message exit)"
    by simp_all
qed

lemma run_transaction_records:
  assumes "step_ok now c (tbind (verify_recorded env p encoded now policy f) g)" "\<And>v. grows now (g v)"
    and "run_transaction (tbind (verify_recorded env p encoded now policy f) g) c = (Inr a, c')"
  shows "\<exists>es v. fresh_entries now c es \<and> c' = with_entries now c es
    \<and> verify_payload env p encoded now policy = Inr v \<and> replay_entry v \<in> set es"
proof -
  from run_transaction_atomic [OF assms(1,3)] obtain t es where
    b: "tbind (verify_recorded env p encoded now policy f) g (transaction_new c) = (Inr a, t)"
    and es: "rt_accepted t = map fst es" "rt_cache t = c'"
      "if es = [] then c' = c \<or> c' = with_entries now c [] else fresh_entries now c es \<and> c' = with_entries now c es"
    by auto
  from b obtain v t1 where v: "verify_recorded env p encoded now policy f (transaction_new c) = (Inr v, t1)" "g v t1 = (Inr a, t)"
    unfolding tbind_Inr by blast
  note v1 = verify_recorded_Inr [OF v(1)]
  from growsD [OF assms(2) v(2)] obtain ks where ks: "rt_accepted t = rt_accepted t1 @ ks"
    and keep: "{entry \<in> set (rc_entries (rt_cache t1)). now < snd entry} \<subseteq> set (rc_entries (rt_cache t))" .
  from ks v1(2) es(1) have key: "es \<noteq> []" "(vm_sender_id v, vm_nonce v) \<in> fst ` set es"
    by (auto simp: transaction_new_def simp flip: set_map)
  with es(3) have f: "fresh_entries now c es" "c' = with_entries now c es" by simp_all
  have "replay_entry v \<in> set (live_entries now c @ es)"
    using keep v1(3,4) es(2) f(2) by (auto simp: with_entries_def)
  moreover have "replay_entry v \<notin> set (live_entries now c)"
    using key(2) f(1) by (force simp: fresh_entries_def)
  ultimately show ?thesis using f v1(1) by auto
qed

end
