(* ===== verification/Protocol_Extension.thy ===== *)
theory Protocol_Extension
  imports Replay_Transaction
begin

text \<open>
  The exit's session capability (\<^verbatim>\<open>crates/volparossa-protocol/src/reservation_requests.rs\<close>) and the exit's
  signed one-path extension of a finalized route (\<^verbatim>\<open>crates/volparossa-protocol/src/route_extension.rs\<close>).
\<close>

section \<open>The session capability\<close>

definition MAX_PATHS :: nat where
  "MAX_PATHS = 8"

definition require_nonzero :: "nat \<Rightarrow> bytes \<Rightarrow> string \<Rightarrow> protocol_error + unit" where
  "require_nonzero n v field = (if length v \<noteq> n \<or> all_zero v then Inl (Pe_InvalidField field) else Inr ())"

definition validate_base_ids :: "bytes \<Rightarrow> bytes \<Rightarrow> bytes \<Rightarrow> protocol_error + unit" where
  "validate_base_ids reservation_id route_context_id client_session_id =
     rbind (require_nonzero ID_LENGTH reservation_id ''reservation_id'') (\<lambda>_.
     rbind (require_nonzero ID_LENGTH route_context_id ''route_context_id'') (\<lambda>_.
     if reservation_id = route_context_id then Inl (Pe_InvalidField ''distinct reservation ids'')
     else require_nonzero KEY_LENGTH client_session_id ''client_session_id''))"

definition validate_session_key :: "control_env \<Rightarrow> bytes \<Rightarrow> bytes \<Rightarrow> protocol_error + unit" where
  "validate_session_key env session_id public_key =
     rbind (require_nonzero KEY_LENGTH public_key ''client_session_public_key'') (\<lambda>_.
     rbind (fixed_array KEY_LENGTH public_key ''client_session_public_key'') (\<lambda>key.
     if session_id \<noteq> node_id_from_public_key env key
     then Inl (Pe_InvalidField ''client session key binding'') else Inr ()))"

definition validate_control_relay :: "bytes \<Rightarrow> bytes \<Rightarrow> protocol_error + unit" where
  "validate_control_relay node_id peer_id =
     rbind (require_nonzero KEY_LENGTH node_id ''control_relay_node_id'') (\<lambda>_.
     validate_peer_id peer_id ''control_relay_peer_id'')"

definition validate_transport :: "int \<Rightarrow> string \<Rightarrow> protocol_error + unit" where
  "validate_transport v field =
     rbind (ok_or (transport_of v) (Pe_InvalidField field)) (\<lambda>t.
     if t = Wt_Unspecified then Inl (Pe_InvalidField field) else Inr ())"

fun check_scope_transports :: "int option \<Rightarrow> int list \<Rightarrow> protocol_error + unit" where
  "check_scope_transports previous [] = Inr ()"
| "check_scope_transports previous (v # vs) =
     rbind (validate_transport v ''allowed_transports'') (\<lambda>_.
     if (case previous of None \<Rightarrow> False | Some old \<Rightarrow> old \<ge> v) then Inl (Pe_InvalidField ''allowed_transports'')
     else check_scope_transports (Some v) vs)"

definition validate_scope_transports :: "int list \<Rightarrow> protocol_error + unit" where
  "validate_scope_transports vs =
     (if vs = [] \<or> length vs > MAX_TRANSPORTS then Inl (Pe_InvalidField ''allowed_transports'')
      else check_scope_transports None vs)"

definition validate_scope :: "int list \<Rightarrow> nat \<Rightarrow> nat \<Rightarrow> nat \<Rightarrow> nat \<Rightarrow> bytes \<Rightarrow> protocol_error + unit" where
  "validate_scope transports up down maximum_paths probe_permit_limit policy_hash =
     rbind (validate_scope_transports transports) (\<lambda>_.
     rbind (validate_rate up ''reservation_scope.up_mbps'') (\<lambda>_.
     rbind (validate_rate down ''reservation_scope.down_mbps'') (\<lambda>_.
     if \<not> (1 \<le> maximum_paths \<and> maximum_paths \<le> MAX_PATHS)
     then Inl (Pe_InvalidField ''reservation_scope.maximum_paths'')
     else if \<not> (maximum_paths \<le> probe_permit_limit \<and> probe_permit_limit \<le> MAX_PATHS)
     then Inl (Pe_InvalidField ''reservation_scope.probe_permit_limit'')
     else require_nonzero KEY_LENGTH policy_hash ''reservation_scope.policy_hash'')))"

definition validate_request_lifetime :: "nat \<Rightarrow> nat \<Rightarrow> nat \<Rightarrow> protocol_error + unit" where
  "validate_request_lifetime created_at_ms expires_at_ms maximum_ms =
     rbind (ok_or (checked_sub expires_at_ms created_at_ms) Pe_InvalidLifetime) (\<lambda>lifetime.
     if lifetime = 0 \<or> lifetime > maximum_ms then Inl Pe_InvalidLifetime else Inr ())"

record client_session_capability =
  sc_capability_id :: bytes
  sc_reservation_id :: bytes
  sc_route_context_id :: bytes
  sc_client_session_id :: bytes
  sc_client_session_public_key :: bytes
  sc_exit_node_id :: bytes
  sc_exit_boot_id :: bytes
  sc_control_relay_node_id :: bytes
  sc_control_relay_peer_id :: bytes
  sc_policy_hash :: bytes
  sc_allowed_transports :: "int list"
  sc_reserved_up_mbps :: nat
  sc_reserved_down_mbps :: nat
  sc_maximum_paths :: nat
  sc_created_at_ms :: nat
  sc_expires_at_ms :: nat
  sc_nonce :: bytes
  sc_exit_peer_id :: bytes
  sc_probe_permit_limit :: nat

definition capability_validate :: "control_env \<Rightarrow> client_session_capability \<Rightarrow> protocol_error + unit" where
  "capability_validate env m =
     rbind (require_nonzero ID_LENGTH (sc_capability_id m) ''session_capability.capability_id'') (\<lambda>_.
     rbind (validate_base_ids (sc_reservation_id m) (sc_route_context_id m) (sc_client_session_id m)) (\<lambda>_.
     rbind (validate_session_key env (sc_client_session_id m) (sc_client_session_public_key m)) (\<lambda>_.
     rbind (require_nonzero KEY_LENGTH (sc_exit_node_id m) ''session_capability.exit_node_id'') (\<lambda>_.
     rbind (validate_peer_id (sc_exit_peer_id m) ''session_capability.exit_peer_id'') (\<lambda>_.
     rbind (require_nonzero ID_LENGTH (sc_exit_boot_id m) ''session_capability.exit_boot_id'') (\<lambda>_.
     rbind (validate_control_relay (sc_control_relay_node_id m) (sc_control_relay_peer_id m)) (\<lambda>_.
     rbind (validate_scope (sc_allowed_transports m) (sc_reserved_up_mbps m) (sc_reserved_down_mbps m)
              (sc_maximum_paths m) (sc_probe_permit_limit m) (sc_policy_hash m)) (\<lambda>_.
     rbind (require_nonzero NONCE_LENGTH (sc_nonce m) ''session_capability.nonce'') (\<lambda>_.
     validate_request_lifetime (sc_created_at_ms m) (sc_expires_at_ms m) MAX_RESERVATION_LIFETIME_MS)))))))))"

definition capability_validate_envelope :: "client_session_capability \<Rightarrow> signed_envelope \<Rightarrow> protocol_error + unit" where
  "capability_validate_envelope m e =
     validate_signed_fields (sc_exit_node_id m) (sc_created_at_ms m) (sc_expires_at_ms m) (sc_nonce m) e
       ''session_capability envelope binding''"

definition capability_payload ::
  "control_env \<Rightarrow> client_session_capability codec \<Rightarrow> client_session_capability control_payload" where
  "capability_payload env codec =
     \<lparr>cp_codec = codec, cp_type = Mt_ClientSessionCapability, cp_validate = capability_validate env,
      cp_validate_envelope = capability_validate_envelope\<rparr>"

section \<open>Route extensions\<close>

definition MAX_ROUTE_EXTENSION_BYTES :: nat where
  "MAX_ROUTE_EXTENSION_BYTES = 64 * 1024"

datatype route_extension_phase = Xp_Probe | Xp_Authorize | Xp_Commit | Xp_Abort

definition phase_of :: "int \<Rightarrow> route_extension_phase option" where
  "phase_of n = (if n = 1 then Some Xp_Probe else if n = 2 then Some Xp_Authorize
     else if n = 3 then Some Xp_Commit else if n = 4 then Some Xp_Abort else None)"

datatype probe_address_family = Pf_Unspecified | Pf_Ipv4 | Pf_Ipv6

definition family_of :: "int \<Rightarrow> probe_address_family option" where
  "family_of n = (if n = 0 then Some Pf_Unspecified else if n = 1 then Some Pf_Ipv4
     else if n = 2 then Some Pf_Ipv6 else None)"

record route_extension_scope =
  xs_extension_id :: bytes
  xs_signed_exit_reservation :: bytes
  xs_finalized_bundle_hash :: bytes
  xs_path_id :: nat
  xs_relay_node_id :: bytes
  xs_relay_peer_id :: bytes
  xs_probe_id :: bytes
  xs_address_family :: int

record route_extension =
  rx_scope :: "route_extension_scope option"
  rx_phase :: int
  rx_signed_probe_permit :: bytes
  rx_signed_relay_authorization :: bytes
  rx_signed_confirmation_receipt :: bytes
  rx_selected_path_ids :: "nat list"
  rx_hard_expires_at_ms :: nat

definition nonzero :: "bytes \<Rightarrow> nat \<Rightarrow> protocol_error + unit" where
  "nonzero bs n = (if length bs \<noteq> n \<or> all_zero bs then Inl (Pe_InvalidField ''extension identifier'') else Inr ())"

definition scope_parent :: "control_env \<Rightarrow> exit_reservation codec \<Rightarrow> route_extension_scope \<Rightarrow> protocol_error + exit_reservation" where
  "scope_parent env codec s =
     rbind (nonzero (xs_extension_id s) 16) (\<lambda>_.
     rbind (nonzero (xs_finalized_bundle_hash s) 32) (\<lambda>_.
     rbind (nonzero (xs_relay_node_id s) 32) (\<lambda>_.
     rbind (nonzero (xs_probe_id s) 16) (\<lambda>_.
     if \<not> (1 \<le> xs_path_id s \<and> xs_path_id s \<le> 8) \<or> xs_relay_peer_id s = [] \<or> length (xs_relay_peer_id s) > 64
        \<or> \<not> (family_of (xs_address_family s) = Some Pf_Ipv4 \<or> family_of (xs_address_family s) = Some Pf_Ipv6)
     then Inl (Pe_InvalidField ''extension path'') else
     rbind (decode_canonical (ce_envelope env) (xs_signed_exit_reservation s) 8192) (\<lambda>e.
     if se_message_type e \<noteq> message_number Mt_ExitReservation \<or> se_protocol_version e \<noteq> PROTOCOL_VERSION
     then Inl (Pe_InvalidField ''extension parent type'') else
     rbind (decode_canonical codec (se_payload e) 8192) (\<lambda>parent.
     rbind (exit_reservation_validate env parent) (\<lambda>_.
     rbind (exit_reservation_validate_envelope parent e) (\<lambda>_.
     if er_allowed_transports parent \<noteq> [transport_number Wt_TcpMptcp]
        \<or> xs_relay_node_id s = er_exit_node_id parent
        \<or> xs_relay_node_id s = er_control_relay_node_id parent
        \<or> xs_relay_peer_id s = er_exit_peer_id parent
        \<or> xs_relay_peer_id s = er_control_relay_peer_id parent
     then Inl (Pe_InvalidField ''extension original route scope'') else Inr parent))))))))"

definition phase_valid :: "route_extension \<Rightarrow> route_extension_scope \<Rightarrow> bool" where
  "phase_valid x s =
     (case phase_of (rx_phase x) of
        Some Xp_Probe \<Rightarrow>
          rx_signed_probe_permit x \<noteq> [] \<and> rx_signed_relay_authorization x = [] \<and> rx_signed_confirmation_receipt x = []
      | Some Xp_Authorize \<Rightarrow>
          rx_signed_probe_permit x \<noteq> [] \<and> rx_signed_relay_authorization x \<noteq> [] \<and> rx_signed_confirmation_receipt x = []
      | Some Xp_Commit \<Rightarrow>
          rx_signed_probe_permit x \<noteq> [] \<and> rx_signed_relay_authorization x \<noteq> [] \<and> rx_signed_confirmation_receipt x \<noteq> []
          \<and> xs_path_id s \<in> set (rx_selected_path_ids x)
      | Some Xp_Abort \<Rightarrow>
          rx_signed_probe_permit x = [] \<and> rx_signed_relay_authorization x = [] \<and> rx_signed_confirmation_receipt x = []
          \<and> xs_path_id s \<notin> set (rx_selected_path_ids x)
      | None \<Rightarrow> False)"

definition extension_validate ::
  "control_env \<Rightarrow> exit_reservation codec \<Rightarrow> route_extension codec \<Rightarrow> route_extension \<Rightarrow> protocol_error + unit" where
  "extension_validate env exit_codec codec x =
     rbind (ok_or (rx_scope x) (Pe_InvalidField ''extension scope'')) (\<lambda>s.
     rbind (scope_parent env exit_codec s) (\<lambda>parent.
     if length (cd_encode codec x) > MAX_ROUTE_EXTENSION_BYTES
        \<or> rx_hard_expires_at_ms x \<noteq> er_expires_at_ms parent
        \<or> rx_selected_path_ids x = [] \<or> length (rx_selected_path_ids x) > 8
        \<or> list_ex (\<lambda>p. \<not> (1 \<le> p \<and> p \<le> 8)) (rx_selected_path_ids x)
        \<or> list_ex (\<lambda>(p, q). p \<ge> q) (windows2 (rx_selected_path_ids x))
     then Inl (Pe_InvalidField ''extension effective scope'')
     else if \<not> phase_valid x s then Inl (Pe_InvalidField ''extension response phase'') else Inr ()))"

definition extension_validate_envelope ::
  "control_env \<Rightarrow> exit_reservation codec \<Rightarrow> route_extension \<Rightarrow> signed_envelope \<Rightarrow> protocol_error + unit" where
  "extension_validate_envelope env exit_codec x e =
     rbind (ok_or (rx_scope x) (Pe_InvalidField ''extension scope'')) (\<lambda>s.
     rbind (scope_parent env exit_codec s) (\<lambda>parent.
     if se_sender_id e \<noteq> er_exit_node_id parent \<or> se_expires_at_ms e > er_expires_at_ms parent
        \<or> se_timestamp_ms e < er_created_at_ms parent
     then Inl (Pe_InvalidField ''extension response authority'') else Inr ()))"

definition extension_payload ::
  "control_env \<Rightarrow> exit_reservation codec \<Rightarrow> route_extension codec \<Rightarrow> route_extension control_payload" where
  "extension_payload env exit_codec codec =
     \<lparr>cp_codec = codec, cp_type = Mt_RouteExtension, cp_validate = extension_validate env exit_codec codec,
      cp_validate_envelope = extension_validate_envelope env exit_codec\<rparr>"

end
