(* ===== verification/Route_Verify.thy ===== *)
theory Route_Verify
  imports Protocol_Extension "HOL-Library.Multiset"
begin

text \<open>
  Verification of a route against the shared replay cache: the multipath TCP route of
  \<^verbatim>\<open>crates/volparossa-tcp-proxy/src/route.rs\<close>, with its signed extensions, and the single UDP relay path of
  \<^verbatim>\<open>crates/volparossa-udp/src/path.rs\<close>. Both verify the exit's reservation and one doubly signed grant per relay,
  compare every grant with the reservation, and undo what they recorded when a check fails.

  The protobuf codecs of the messages are the record \<open>route_env\<close>. The constant-time comparison of byte strings
  is equality.
\<close>

record route_env =
  re_control :: control_env
  re_exit :: "exit_reservation codec"
  re_authorization :: "relay_authorization codec"
  re_relay :: "relay_reservation codec"
  re_capability :: "client_session_capability codec"
  re_extension :: "route_extension codec"

datatype tcp_proxy_error =
    Tp_Protocol protocol_error
  | Tp_Policy policy_error
  | Tp_Io
  | Tp_TlsConfiguration
  | Tp_InvalidBinding string
  | Tp_Expired
  | Tp_IdleTimeout
  | Tp_ByteLimit

datatype udp_error =
    Ud_Protocol protocol_error
  | Ud_Policy policy_error
  | Ud_Io
  | Ud_QuicConnection
  | Ud_QuicDatagram
  | Ud_QuicConnect
  | Ud_DatagramUnsupported
  | Ud_InvalidBinding string
  | Ud_Expired
  | Ud_IdleTimeout
  | Ud_ResourceLimit
  | Ud_ResolutionFailed
  | Ud_RuntimeUnavailable

section \<open>Binding a grant to the reservation\<close>

definition same :: "(string \<Rightarrow> 'e) \<Rightarrow> bytes \<Rightarrow> bytes \<Rightarrow> string \<Rightarrow> 'e + unit" where
  "same binding left right field = (if left \<noteq> right then Inl (binding field) else Inr ())"

definition array :: "(string \<Rightarrow> 'e) \<Rightarrow> nat \<Rightarrow> bytes \<Rightarrow> string \<Rightarrow> 'e + bytes" where
  "array binding n v field = (if length v = n then Inr v else Inl (binding field))"

definition verify_finalized_scope ::
  "(string \<Rightarrow> 'e) \<Rightarrow> relay_reservation \<Rightarrow> exit_reservation \<Rightarrow> 'e + unit" where
  "verify_finalized_scope binding relay exit =
     rbind (same binding (ra_reservation_id relay) (er_reservation_id exit) ''reservation id'') (\<lambda>_.
     rbind (same binding (ra_route_context_id relay) (er_route_context_id exit) ''route context'') (\<lambda>_.
     rbind (same binding (ra_exit_node_id relay) (er_exit_node_id exit) ''exit identity'') (\<lambda>_.
     rbind (same binding (ra_client_session_id relay) (er_client_session_id exit) ''client session identity'') (\<lambda>_.
     rbind (same binding (ra_policy_hash relay) (er_policy_hash exit) ''policy hash'') (\<lambda>_.
     if ra_allowed_transports relay \<noteq> er_allowed_transports exit then Inl (binding ''allowed transports'')
     else if ra_maximum_up_mbps relay \<noteq> er_reserved_up_mbps exit then Inl (binding ''reserved upload capacity'')
     else if ra_maximum_down_mbps relay \<noteq> er_reserved_down_mbps exit then Inl (binding ''reserved download capacity'')
     else if ra_created_at_ms relay \<noteq> er_created_at_ms exit then Inl (binding ''grant creation time'')
     else if ra_expires_at_ms relay \<noteq> er_expires_at_ms exit then Inl (binding ''grant expiry'') else
     rbind (same binding (ra_capability_id relay) (er_capability_id exit) ''capability id'') (\<lambda>_.
     rbind (same binding (ra_client_session_public_key relay) (er_client_session_public_key exit) ''client session public key'') (\<lambda>_.
     rbind (same binding (ra_exit_boot_id relay) (er_exit_boot_id exit) ''exit boot id'') (\<lambda>_.
     rbind (same binding (ra_hold_id relay) (er_hold_id exit) ''hold id'') (\<lambda>_.
     rbind (same binding (ra_finalize_id relay) (er_finalize_id exit) ''finalize id'') (\<lambda>_.
     rbind (same binding (ra_control_relay_node_id relay) (er_control_relay_node_id exit) ''control relay identity'') (\<lambda>_.
     rbind (same binding (ra_control_relay_peer_id relay) (er_control_relay_peer_id exit) ''control relay peer identity'') (\<lambda>_.
     same binding (ra_exit_peer_id relay) (er_exit_peer_id exit) ''exit peer identity''))))))))))))"

section \<open>The multipath TCP route\<close>

definition MINIMUM_MPTCP_PATHS :: nat where
  "MINIMUM_MPTCP_PATHS = 2"

record verified_mptcp_route =
  vr_reservation_id :: bytes
  vr_route_context_id :: bytes
  vr_exit_node_id :: bytes
  vr_client_ephemeral_id :: bytes
  vr_relay_node_ids :: "bytes list"
  vr_expires_at_ms :: nat

record path_acc =
  pa_relay_ids :: "bytes set"
  pa_relay_peer_ids :: "bytes set"
  pa_path_ids :: "nat set"
  pa_relay_node_ids :: "bytes list"
  pa_expires_at_ms :: nat
  pa_grants :: "relay_reservation list"

definition add_path ::
  "exit_reservation \<Rightarrow> relay_reservation verified_control_message \<Rightarrow> path_acc \<Rightarrow> tcp_proxy_error + path_acc" where
  "add_path exit relay acc =
     (let message = vm_message relay in
      rbind (verify_finalized_scope Tp_InvalidBinding message exit) (\<lambda>_.
      rbind (array Tp_InvalidBinding 32 (ra_relay_node_id message) ''relay identity'') (\<lambda>relay_id.
      if relay_id \<in> pa_relay_ids acc then Inl (Tp_InvalidBinding ''duplicate relay identity'')
      else if ra_relay_peer_id message \<in> pa_relay_peer_ids acc then Inl (Tp_InvalidBinding ''duplicate relay peer identity'')
      else if ra_path_id message \<in> pa_path_ids acc then Inl (Tp_InvalidBinding ''duplicate relay path id'')
      else Inr \<lparr>pa_relay_ids = insert relay_id (pa_relay_ids acc),
                pa_relay_peer_ids = insert (ra_relay_peer_id message) (pa_relay_peer_ids acc),
                pa_path_ids = insert (ra_path_id message) (pa_path_ids acc),
                pa_relay_node_ids = pa_relay_node_ids acc @ [relay_id],
                pa_expires_at_ms = min (pa_expires_at_ms acc) (vm_expires_at_ms relay),
                pa_grants = pa_grants acc @ [message]\<rparr>)))"

fun verify_paths ::
  "route_env \<Rightarrow> exit_reservation \<Rightarrow> nat \<Rightarrow> time_policy \<Rightarrow> bytes list \<Rightarrow> path_acc \<Rightarrow> replay_transaction
     \<Rightarrow> (tcp_proxy_error + path_acc) \<times> replay_transaction" where
  "verify_paths env exit now_ms policy [] acc = tlift (Inr acc)"
| "verify_paths env exit now_ms policy (encoded # rest) acc =
     tbind (verify_relay_recorded (re_control env) (re_relay env) (re_authorization env) encoded now_ms policy Tp_Protocol)
       (\<lambda>(relay, exit_authorization).
     tbind (tlift (add_path exit relay acc)) (\<lambda>acc'. verify_paths env exit now_ms policy rest acc'))"

text \<open>Route extensions: one capability of the exit, and a sequence of committed one-path additions.\<close>

definition capability_matches :: "client_session_capability verified_control_message \<Rightarrow> exit_reservation \<Rightarrow> nat \<Rightarrow> bool" where
  "capability_matches capability parent grant_count \<longleftrightarrow>
     (let c = vm_message capability in
      sc_reservation_id c = er_reservation_id parent
      \<and> sc_route_context_id c = er_route_context_id parent
      \<and> sc_client_session_id c = er_client_session_id parent
      \<and> sc_client_session_public_key c = er_client_session_public_key parent
      \<and> sc_exit_node_id c = er_exit_node_id parent
      \<and> sc_exit_peer_id c = er_exit_peer_id parent
      \<and> sc_exit_boot_id c = er_exit_boot_id parent
      \<and> sc_capability_id c = er_capability_id parent
      \<and> sc_control_relay_node_id c = er_control_relay_node_id parent
      \<and> sc_control_relay_peer_id c = er_control_relay_peer_id parent
      \<and> sc_policy_hash c = er_policy_hash parent
      \<and> sc_allowed_transports c = er_allowed_transports parent
      \<and> sc_reserved_up_mbps c = er_reserved_up_mbps parent
      \<and> sc_reserved_down_mbps c = er_reserved_down_mbps parent
      \<and> sc_created_at_ms c = er_created_at_ms parent
      \<and> sc_expires_at_ms c = er_expires_at_ms parent
      \<and> vm_sender_id capability = er_exit_node_id parent
      \<and> grant_count \<le> sc_maximum_paths c)"

record extension_acc =
  xa_added :: "nat set"
  xa_extension_ids :: "bytes set"
  xa_extensions :: "route_extension list"

definition add_extension ::
  "bytes \<Rightarrow> exit_reservation \<Rightarrow> relay_reservation list \<Rightarrow> client_session_capability
     \<Rightarrow> route_extension verified_control_message \<Rightarrow> extension_acc \<Rightarrow> tcp_proxy_error + extension_acc" where
  "add_extension signed_parent parent grants c verified acc =
     (let message = vm_message verified in
      rbind (ok_or (rx_scope message) (Tp_InvalidBinding ''extension scope'')) (\<lambda>scope.
      if phase_of (rx_phase message) \<noteq> Some Xp_Commit
         \<or> xs_signed_exit_reservation scope \<noteq> signed_parent
         \<or> vm_sender_id verified \<noteq> er_exit_node_id parent
         \<or> rx_hard_expires_at_ms message \<noteq> er_expires_at_ms parent
         \<or> xs_path_id scope > sc_probe_permit_limit c
         \<or> xs_path_id scope \<in> xa_added acc
         \<or> xs_extension_id scope \<in> xa_extension_ids acc
      then Inl (Tp_InvalidBinding ''extension committed scope'') else
      rbind (ok_or (find (\<lambda>g. ra_path_id g = xs_path_id scope) grants)
               (Tp_InvalidBinding ''extension missing Relay grant'')) (\<lambda>grant.
      if rr_exit_authorization grant \<noteq> rx_signed_relay_authorization message
         \<or> ra_relay_node_id grant \<noteq> xs_relay_node_id scope
         \<or> ra_relay_peer_id grant \<noteq> xs_relay_peer_id scope
      then Inl (Tp_InvalidBinding ''extension Relay binding'')
      else Inr \<lparr>xa_added = insert (xs_path_id scope) (xa_added acc),
                xa_extension_ids = insert (xs_extension_id scope) (xa_extension_ids acc),
                xa_extensions = xa_extensions acc @ [message]\<rparr>)))"

fun verify_extension_proofs ::
  "route_env \<Rightarrow> bytes \<Rightarrow> exit_reservation \<Rightarrow> relay_reservation list \<Rightarrow> client_session_capability \<Rightarrow> nat \<Rightarrow> time_policy
     \<Rightarrow> bytes list \<Rightarrow> extension_acc \<Rightarrow> replay_transaction \<Rightarrow> (tcp_proxy_error + extension_acc) \<times> replay_transaction" where
  "verify_extension_proofs env signed_parent parent grants c now_ms policy [] acc = tlift (Inr acc)"
| "verify_extension_proofs env signed_parent parent grants c now_ms policy (encoded # rest) acc =
     tbind (verify_recorded (re_control env) (extension_payload (re_control env) (re_exit env) (re_extension env))
              encoded now_ms policy Tp_Protocol) (\<lambda>verified.
     tbind (tlift (add_extension signed_parent parent grants c verified acc)) (\<lambda>acc'.
     verify_extension_proofs env signed_parent parent grants c now_ms policy rest acc'))"

fun check_contiguous :: "bytes \<Rightarrow> nat list \<Rightarrow> route_extension list \<Rightarrow> tcp_proxy_error + unit" where
  "check_contiguous original_hash selected [] = Inr ()"
| "check_contiguous original_hash selected (extension # rest) =
     rbind (ok_or (rx_scope extension) (Tp_InvalidBinding ''extension scope'')) (\<lambda>scope.
     if xs_finalized_bundle_hash scope \<noteq> original_hash then Inl (Tp_InvalidBinding ''extension parent bundle'') else
     let selected' = sort (selected @ [xs_path_id scope]) in
     if rx_selected_path_ids extension \<noteq> selected' then Inl (Tp_InvalidBinding ''extension contiguous path set'')
     else check_contiguous original_hash selected' rest)"

definition check_originals ::
  "route_env \<Rightarrow> bytes \<Rightarrow> exit_reservation \<Rightarrow> relay_reservation list \<Rightarrow> extension_acc \<Rightarrow> tcp_proxy_error + unit" where
  "check_originals env signed_parent parent grants acc =
     (let originals = sort_key ra_path_id (filter (\<lambda>g. ra_path_id g \<notin> xa_added acc) grants) in
      if length originals \<noteq> er_maximum_paths parent then Inl (Tp_InvalidBinding ''extension original path count'') else
      rbind (map_err Tp_Protocol (finalized_reservation_bundle_hash (re_control env) (re_exit env) (re_authorization env)
               signed_parent (map rr_exit_authorization originals))) (\<lambda>original_hash.
      check_contiguous original_hash (map ra_path_id originals) (xa_extensions acc)))"

definition verify_extensions ::
  "route_env \<Rightarrow> bytes \<Rightarrow> exit_reservation \<Rightarrow> relay_reservation list \<Rightarrow> bytes list \<Rightarrow> bytes \<Rightarrow> nat \<Rightarrow> time_policy
     \<Rightarrow> replay_transaction \<Rightarrow> (tcp_proxy_error + unit) \<times> replay_transaction" where
  "verify_extensions env signed_parent parent grants signed_extensions signed_capability now_ms policy =
     tbind (verify_recorded (re_control env) (capability_payload (re_control env) (re_capability env))
              signed_capability now_ms policy Tp_Protocol) (\<lambda>capability.
     if \<not> capability_matches capability parent (length grants)
     then tlift (Inl (Tp_InvalidBinding ''extension original capability'')) else
     tbind (verify_extension_proofs env signed_parent parent grants (vm_message capability) now_ms policy
              signed_extensions \<lparr>xa_added = {}, xa_extension_ids = {}, xa_extensions = []\<rparr>) (\<lambda>acc.
     tlift (check_originals env signed_parent parent grants acc)))"

definition route_of :: "exit_reservation \<Rightarrow> path_acc \<Rightarrow> tcp_proxy_error + verified_mptcp_route" where
  "route_of exit acc =
     rbind (array Tp_InvalidBinding 16 (er_reservation_id exit) ''reservation id'') (\<lambda>reservation_id.
     rbind (array Tp_InvalidBinding 16 (er_route_context_id exit) ''route context'') (\<lambda>route_context_id.
     rbind (array Tp_InvalidBinding 32 (er_exit_node_id exit) ''exit identity'') (\<lambda>exit_node_id.
     rbind (array Tp_InvalidBinding 32 (er_client_session_id exit) ''client session identity'') (\<lambda>client_ephemeral_id.
     Inr \<lparr>vr_reservation_id = reservation_id, vr_route_context_id = route_context_id, vr_exit_node_id = exit_node_id,
          vr_client_ephemeral_id = client_ephemeral_id, vr_relay_node_ids = sort (pa_relay_node_ids acc),
          vr_expires_at_ms = pa_expires_at_ms acc\<rparr>))))"

definition route_checks ::
  "route_env \<Rightarrow> bytes \<Rightarrow> bytes list \<Rightarrow> (bytes list \<times> bytes) option \<Rightarrow> nat \<Rightarrow> time_policy
     \<Rightarrow> exit_reservation verified_control_message \<Rightarrow> replay_transaction
     \<Rightarrow> (tcp_proxy_error + verified_mptcp_route) \<times> replay_transaction" where
  "route_checks env exit_reservation relay_reservations extension_proofs now_ms policy exit =
     (let exit_message = vm_message exit;
          extension_count = (case extension_proofs of None \<Rightarrow> 0 | Some (proofs, _) \<Rightarrow> length proofs) in
      if transport_number Wt_TcpMptcp \<notin> set (er_allowed_transports exit_message)
      then tlift (Inl (Tp_InvalidBinding ''TCP-MPTCP transport grant''))
      else if extension_count > 8
        \<or> length relay_reservations \<noteq> saturating_add_u64 (er_maximum_paths exit_message) extension_count
      then tlift (Inl (Tp_InvalidBinding ''exit exact path count''))
      else
        tbind (verify_paths env exit_message now_ms policy relay_reservations
                 \<lparr>pa_relay_ids = {}, pa_relay_peer_ids = {}, pa_path_ids = {}, pa_relay_node_ids = [],
                  pa_expires_at_ms = vm_expires_at_ms exit, pa_grants = []\<rparr>) (\<lambda>acc.
        tbind (case extension_proofs of
                 None \<Rightarrow> tlift (Inr ())
               | Some (proofs, capability) \<Rightarrow>
                   verify_extensions env exit_reservation exit_message (pa_grants acc) proofs capability now_ms policy) (\<lambda>_.
        tlift (route_of exit_message acc))))"

definition verify_inner ::
  "route_env \<Rightarrow> bytes \<Rightarrow> bytes list \<Rightarrow> (bytes list \<times> bytes) option \<Rightarrow> nat \<Rightarrow> time_policy \<Rightarrow> replay_cache
     \<Rightarrow> (tcp_proxy_error + verified_mptcp_route) \<times> replay_cache" where
  "verify_inner env exit_reservation relay_reservations extension_proofs now_ms policy cache =
     (if \<not> (MINIMUM_MPTCP_PATHS \<le> length relay_reservations \<and> length relay_reservations \<le> MAX_PATHS)
      then (Inl (Tp_InvalidBinding ''MPTCP relay path count''), cache)
      else run_transaction
        (tbind (verify_recorded (re_control env) (exit_reservation_payload (re_control env) (re_exit env))
                  exit_reservation now_ms policy Tp_Protocol)
           (route_checks env exit_reservation relay_reservations extension_proofs now_ms policy)) cache)"

definition verify_route ::
  "route_env \<Rightarrow> bytes \<Rightarrow> bytes list \<Rightarrow> nat \<Rightarrow> time_policy \<Rightarrow> replay_cache
     \<Rightarrow> (tcp_proxy_error + verified_mptcp_route) \<times> replay_cache" where
  "verify_route env exit_reservation relay_reservations now_ms policy cache =
     verify_inner env exit_reservation relay_reservations None now_ms policy cache"

definition verify_with_extensions ::
  "route_env \<Rightarrow> bytes \<Rightarrow> bytes list \<Rightarrow> bytes list \<Rightarrow> bytes \<Rightarrow> nat \<Rightarrow> time_policy \<Rightarrow> replay_cache
     \<Rightarrow> (tcp_proxy_error + verified_mptcp_route) \<times> replay_cache" where
  "verify_with_extensions env exit_reservation relay_reservations signed_extensions signed_capability now_ms policy cache =
     verify_inner env exit_reservation relay_reservations (Some (signed_extensions, signed_capability)) now_ms policy cache"

definition route_ensure_active_at :: "verified_mptcp_route \<Rightarrow> nat \<Rightarrow> tcp_proxy_error + unit" where
  "route_ensure_active_at route now_ms = (if now_ms \<ge> vr_expires_at_ms route then Inl Tp_Expired else Inr ())"

section \<open>The single UDP relay path\<close>

record verified_single_relay_path =
  vs_reservation_id :: bytes
  vs_route_context_id :: bytes
  vs_path_id :: nat
  vs_relay_node_id :: bytes
  vs_exit_node_id :: bytes
  vs_client_ephemeral_id :: bytes
  vs_expires_at_ms :: nat

definition path_of ::
  "exit_reservation verified_control_message \<Rightarrow> relay_reservation verified_control_message
     \<Rightarrow> udp_error + verified_single_relay_path" where
  "path_of exit relay =
     (let e = vm_message exit; r = vm_message relay in
      rbind (verify_finalized_scope Ud_InvalidBinding r e) (\<lambda>_.
      rbind (array Ud_InvalidBinding 16 (er_reservation_id e) ''reservation id'') (\<lambda>reservation_id.
      rbind (array Ud_InvalidBinding 16 (er_route_context_id e) ''route context'') (\<lambda>route_context_id.
      rbind (array Ud_InvalidBinding 32 (ra_relay_node_id r) ''relay identity'') (\<lambda>relay_node_id.
      rbind (array Ud_InvalidBinding 32 (er_exit_node_id e) ''exit identity'') (\<lambda>exit_node_id.
      rbind (array Ud_InvalidBinding 32 (er_client_session_id e) ''client session identity'') (\<lambda>client_ephemeral_id.
      Inr \<lparr>vs_reservation_id = reservation_id, vs_route_context_id = route_context_id, vs_path_id = ra_path_id r,
           vs_relay_node_id = relay_node_id, vs_exit_node_id = exit_node_id, vs_client_ephemeral_id = client_ephemeral_id,
           vs_expires_at_ms = min (vm_expires_at_ms exit) (vm_expires_at_ms relay)\<rparr>))))))) "

definition path_checks ::
  "route_env \<Rightarrow> bytes \<Rightarrow> nat \<Rightarrow> time_policy \<Rightarrow> exit_reservation verified_control_message \<Rightarrow> replay_transaction
     \<Rightarrow> (udp_error + verified_single_relay_path) \<times> replay_transaction" where
  "path_checks env relay_reservation now_ms policy exit =
     (if transport_number Wt_UdpSinglePath \<notin> set (er_allowed_transports (vm_message exit))
      then tlift (Inl (Ud_InvalidBinding ''single-path UDP transport grant''))
      else if er_maximum_paths (vm_message exit) \<noteq> 1 then tlift (Inl (Ud_InvalidBinding ''exit exact path count''))
      else
        tbind (verify_relay_recorded (re_control env) (re_relay env) (re_authorization env) relay_reservation now_ms policy
                 Ud_Protocol) (\<lambda>(relay, exit_authorization).
        tlift (path_of exit relay)))"

definition verify_path ::
  "route_env \<Rightarrow> bytes \<Rightarrow> bytes \<Rightarrow> nat \<Rightarrow> time_policy \<Rightarrow> replay_cache
     \<Rightarrow> (udp_error + verified_single_relay_path) \<times> replay_cache" where
  "verify_path env exit_reservation relay_reservation now_ms policy cache =
     run_transaction
       (tbind (verify_recorded (re_control env) (exit_reservation_payload (re_control env) (re_exit env))
                 exit_reservation now_ms policy Ud_Protocol)
          (path_checks env relay_reservation now_ms policy)) cache"

definition path_ensure_active_at :: "verified_single_relay_path \<Rightarrow> nat \<Rightarrow> udp_error + unit" where
  "path_ensure_active_at path now_ms = (if now_ms \<ge> vs_expires_at_ms path then Inl Ud_Expired else Inr ())"

section \<open>Both are atomic on the cache\<close>

lemma step_ok_cases:
  "(\<And>a b. step_ok now c (f a b)) \<Longrightarrow> step_ok now c (case p of (a, b) \<Rightarrow> f a b)"
  "step_ok now c m \<Longrightarrow> step_ok now c m' \<Longrightarrow> step_ok now c (if b then m else m')"
  "step_ok now c m \<Longrightarrow> (\<And>y. step_ok now c (g y)) \<Longrightarrow> step_ok now c (case x of None \<Rightarrow> m | Some y \<Rightarrow> g y)"
  by (auto split: prod.split option.split)

lemma grows_cases:
  "(\<And>a b. grows now (f a b)) \<Longrightarrow> grows now (case p of (a, b) \<Rightarrow> f a b)"
  "grows now m \<Longrightarrow> grows now m' \<Longrightarrow> grows now (if b then m else m')"
  "grows now m \<Longrightarrow> (\<And>y. grows now (g y)) \<Longrightarrow> grows now (case x of None \<Rightarrow> m | Some y \<Rightarrow> g y)"
  by (auto split: prod.split option.split)

lemmas step_ok_rules = step_ok_tbind step_ok_tlift step_ok_verify_recorded step_ok_verify_relay_recorded step_ok_cases

lemmas grows_rules = grows_tbind grows_tlift grows_verify_recorded grows_verify_relay_recorded grows_cases

lemma step_ok_verify_paths: "step_ok now c (verify_paths env exit now policy rs acc)"
  by (induction rs arbitrary: acc) (simp_all, intro step_ok_rules, assumption)

lemma step_ok_extension_proofs: "step_ok now c (verify_extension_proofs env sp parent grants cap now policy xs acc)"
  by (induction xs arbitrary: acc) (simp_all, intro step_ok_rules, assumption)

lemma step_ok_verify_extensions: "step_ok now c (verify_extensions env sp parent grants xs cap now policy)"
  unfolding verify_extensions_def by (intro step_ok_rules step_ok_extension_proofs)

lemma step_ok_route_checks: "step_ok now c (route_checks env er rs ext now policy exit)"
  unfolding route_checks_def Let_def by (intro step_ok_rules step_ok_verify_paths step_ok_verify_extensions)

lemma step_ok_path_checks: "step_ok now c (path_checks env rr now policy exit)"
  unfolding path_checks_def by (intro step_ok_rules)

lemma grows_verify_paths: "grows now (verify_paths env exit now policy rs acc)"
  by (induction rs arbitrary: acc) (simp_all, intro grows_rules, assumption)

lemma grows_extension_proofs: "grows now (verify_extension_proofs env sp parent grants cap now policy xs acc)"
  by (induction xs arbitrary: acc) (simp_all, intro grows_rules, assumption)

lemma grows_verify_extensions: "grows now (verify_extensions env sp parent grants xs cap now policy)"
  unfolding verify_extensions_def by (intro grows_rules grows_extension_proofs)

lemma grows_route_checks: "grows now (route_checks env er rs ext now policy exit)"
  unfolding route_checks_def Let_def by (intro grows_rules grows_verify_paths grows_verify_extensions)

lemma grows_path_checks: "grows now (path_checks env rr now policy exit)"
  unfolding path_checks_def by (intro grows_rules)

interpretation tcp_route: replay_atomic
  "\<lambda>(env, er, rs, ext, policy) now c. verify_inner env er rs ext now policy c"
proof
  fix i :: "route_env \<times> bytes \<times> bytes list \<times> (bytes list \<times> bytes) option \<times> time_policy" and now c e c'
  assume "(case i of (env, er, rs, ext, policy) \<Rightarrow> \<lambda>now c. verify_inner env er rs ext now policy c) now c = (Inl e, c')"
  then show "c' = c \<or> c' = with_entries now c []"
    by (cases i) (auto simp: verify_inner_def split: if_splits
        dest!: run_transaction_atomic [OF step_ok_tbind [OF step_ok_verify_recorded step_ok_route_checks]])
next
  fix i :: "route_env \<times> bytes \<times> bytes list \<times> (bytes list \<times> bytes) option \<times> time_policy" and now c r c'
  assume "(case i of (env, er, rs, ext, policy) \<Rightarrow> \<lambda>now c. verify_inner env er rs ext now policy c) now c = (Inr r, c')"
  then show "\<exists>es. fresh_entries now c es \<and> es \<noteq> [] \<and> c' = with_entries now c es"
    by (cases i) (auto simp: verify_inner_def split: if_splits
        dest!: run_transaction_records [OF step_ok_tbind [OF step_ok_verify_recorded step_ok_route_checks] grows_route_checks])
qed

interpretation udp_path: replay_atomic
  "\<lambda>(env, er, rr, policy) now c. verify_path env er rr now policy c"
proof
  fix i :: "route_env \<times> bytes \<times> bytes \<times> time_policy" and now c e c'
  assume "(case i of (env, er, rr, policy) \<Rightarrow> \<lambda>now c. verify_path env er rr now policy c) now c = (Inl e, c')"
  then show "c' = c \<or> c' = with_entries now c []"
    by (cases i) (auto simp: verify_path_def
        dest!: run_transaction_atomic [OF step_ok_tbind [OF step_ok_verify_recorded step_ok_path_checks]])
next
  fix i :: "route_env \<times> bytes \<times> bytes \<times> time_policy" and now c r c'
  assume "(case i of (env, er, rr, policy) \<Rightarrow> \<lambda>now c. verify_path env er rr now policy c) now c = (Inr r, c')"
  then show "\<exists>es. fresh_entries now c es \<and> es \<noteq> [] \<and> c' = with_entries now c es"
    by (cases i) (auto simp: verify_path_def
        dest!: run_transaction_records [OF step_ok_tbind [OF step_ok_verify_recorded step_ok_path_checks] grows_path_checks])
qed

section \<open>What a verified route stands for\<close>

definition message_authentic ::
  "control_env \<Rightarrow> 'm control_payload \<Rightarrow> bytes \<Rightarrow> nat \<Rightarrow> time_policy \<Rightarrow> signed_envelope \<Rightarrow> 'm \<Rightarrow> bool" where
  "message_authentic env p encoded now policy e m \<longleftrightarrow>
     control_authentic env encoded now policy e (cp_type p) \<and> payload_accepted p e m"

lemma verify_payload_authentic:
  "verify_payload env p encoded now policy = Inr v \<longleftrightarrow> (\<exists>e m. message_authentic env p encoded now policy e m \<and> v = verified_of e m)"
  unfolding verify_payload_Inr message_authentic_def by blast

lemma validate_signed_fields_Inr [result_simps]:
  "validate_signed_fields s t x n e f = Inr u \<longleftrightarrow> s = se_sender_id e \<and> t = se_timestamp_ms e \<and> x = se_expires_at_ms e \<and> n = se_nonce e"
  by (auto simp: validate_signed_fields_def)

lemma exit_reservation_signed:
  assumes "message_authentic env (exit_reservation_payload env codec) encoded now policy e m"
  shows "se_sender_id e = er_exit_node_id m" "se_expires_at_ms e = er_expires_at_ms m" "now < er_expires_at_ms m"
    "er_exit_node_id m = node_id_from_public_key env (se_sender_public_key e)"
  using assms by (auto simp: message_authentic_def payload_accepted_def exit_reservation_payload_def
      exit_reservation_validate_envelope_def control_authentic_def result_simps)

lemma relay_reservation_signed:
  assumes "message_authentic env (relay_reservation_payload env codec) encoded now policy e m"
  shows "se_sender_id e = ra_relay_node_id m" "se_expires_at_ms e = ra_expires_at_ms m"
    "ra_relay_node_id m = node_id_from_public_key env (se_sender_public_key e)"
  using assms by (auto simp: message_authentic_def payload_accepted_def relay_reservation_payload_def
      relay_reservation_validate_envelope_def control_authentic_def result_simps)

lemma relay_authorization_signed:
  assumes "message_authentic env (relay_authorization_payload env codec) encoded now policy e m"
  shows "se_sender_id e = ra_exit_node_id m" "ra_relay_node_id m \<noteq> ra_exit_node_id m"
    "ra_exit_node_id m = node_id_from_public_key env (se_sender_public_key e)"
  using assms by (auto simp: message_authentic_def payload_accepted_def relay_authorization_payload_def
      relay_authorization_validate_envelope_def validate_relay_fields_def control_authentic_def result_simps)

lemma verify_finalized_scope_Inr [result_simps]:
  "verify_finalized_scope b relay exit = Inr u \<longleftrightarrow> same_finalized_scope exit (relay_authorization.truncate relay)"
  by (auto simp: verify_finalized_scope_def same_finalized_scope_def same_def relay_authorization.truncate_def result_simps)

lemma array_Inr [result_simps]: "array b n v f = Inr a \<longleftrightarrow> length v = n \<and> a = v"
  by (auto simp: array_def)

text \<open>
  A grant signed twice: by the relay whose identity it names, and, inside it, by the exit, with the same fields.
\<close>

definition doubly_signed :: "route_env \<Rightarrow> nat \<Rightarrow> time_policy \<Rightarrow> bytes \<Rightarrow> relay_reservation \<Rightarrow> bool" where
  "doubly_signed env now policy encoded g \<longleftrightarrow>
     (\<exists>e a e'. message_authentic (re_control env) (relay_reservation_payload (re_control env) (re_relay env)) encoded now policy e g
       \<and> se_sender_id e = ra_relay_node_id g
       \<and> message_authentic (re_control env) (relay_authorization_payload (re_control env) (re_authorization env))
           (rr_exit_authorization g) now policy e' a
       \<and> se_sender_id e' = ra_exit_node_id g \<and> same_relay_grant g a)"

lemma doubly_signedI:
  assumes "verify_payload (re_control env) (relay_reservation_payload (re_control env) (re_relay env)) encoded now policy = Inr r"
    and "verify_payload (re_control env) (relay_authorization_payload (re_control env) (re_authorization env))
           (rr_exit_authorization (vm_message r)) now policy = Inr a"
    and "same_relay_grant (vm_message r) (vm_message a)"
  shows "doubly_signed env now policy encoded (vm_message r)" "vm_expires_at_ms r = ra_expires_at_ms (vm_message r)"
    "ra_relay_node_id (vm_message r) \<noteq> ra_exit_node_id (vm_message r)"
proof -
  from assms(1,2) obtain e m e' m' where
    r: "message_authentic (re_control env) (relay_reservation_payload (re_control env) (re_relay env)) encoded now policy e m" "r = verified_of e m"
    and a: "message_authentic (re_control env) (relay_authorization_payload (re_control env) (re_authorization env))
        (rr_exit_authorization (vm_message r)) now policy e' m'" "a = verified_of e' m'"
    unfolding verify_payload_authentic by blast
  note s = relay_reservation_signed [OF r(1)] relay_authorization_signed [OF a(1)]
  have g: "ra_exit_node_id m = ra_exit_node_id m'" "ra_relay_node_id m = ra_relay_node_id m'"
    using assms(3) r(2) a(2) by (simp_all add: same_relay_grant_def)
  show "doubly_signed env now policy encoded (vm_message r)"
    unfolding doubly_signed_def using r a s g assms(3) by auto
  show "vm_expires_at_ms r = ra_expires_at_ms (vm_message r)" "ra_relay_node_id (vm_message r) \<noteq> ra_exit_node_id (vm_message r)"
    using r(2) s g by simp_all
qed

lemma add_path_Inr:
  "add_path exit relay acc = Inr acc' \<longleftrightarrow>
     (let m = vm_message relay in
      same_finalized_scope exit (relay_authorization.truncate m) \<and> length (ra_relay_node_id m) = 32
      \<and> ra_relay_node_id m \<notin> pa_relay_ids acc \<and> ra_relay_peer_id m \<notin> pa_relay_peer_ids acc \<and> ra_path_id m \<notin> pa_path_ids acc
      \<and> acc' = \<lparr>pa_relay_ids = insert (ra_relay_node_id m) (pa_relay_ids acc),
                pa_relay_peer_ids = insert (ra_relay_peer_id m) (pa_relay_peer_ids acc),
                pa_path_ids = insert (ra_path_id m) (pa_path_ids acc),
                pa_relay_node_ids = pa_relay_node_ids acc @ [ra_relay_node_id m],
                pa_expires_at_ms = min (pa_expires_at_ms acc) (vm_expires_at_ms relay),
                pa_grants = pa_grants acc @ [m]\<rparr>)"
  by (auto simp: add_path_def Let_def result_simps)

definition path_grants_ok :: "route_env \<Rightarrow> exit_reservation \<Rightarrow> nat \<Rightarrow> time_policy \<Rightarrow> bytes list \<Rightarrow> relay_reservation list \<Rightarrow> bool" where
  "path_grants_ok env exit now policy rs gs \<longleftrightarrow>
     list_all2 (doubly_signed env now policy) rs gs
     \<and> (\<forall>g \<in> set gs. same_finalized_scope exit (relay_authorization.truncate g) \<and> ra_relay_node_id g \<noteq> ra_exit_node_id g)
     \<and> distinct (map ra_relay_node_id gs) \<and> distinct (map ra_relay_peer_id gs) \<and> distinct (map ra_path_id gs)"

lemma verify_paths_Inr:
  assumes "verify_paths env exit now policy rs acc t = (Inr acc', t')" "pa_expires_at_ms acc = er_expires_at_ms exit"
  shows "\<exists>gs. path_grants_ok env exit now policy rs gs
    \<and> ra_relay_node_id ` set gs \<inter> pa_relay_ids acc = {} \<and> ra_relay_peer_id ` set gs \<inter> pa_relay_peer_ids acc = {}
    \<and> ra_path_id ` set gs \<inter> pa_path_ids acc = {}
    \<and> pa_grants acc' = pa_grants acc @ gs \<and> pa_relay_node_ids acc' = pa_relay_node_ids acc @ map ra_relay_node_id gs
    \<and> pa_expires_at_ms acc' = er_expires_at_ms exit"
  using assms
proof (induction rs arbitrary: acc t)
  case Nil
  then show ?case by (auto simp: tlift_def path_grants_ok_def)
next
  case (Cons r rs)
  from Cons.prems(1) obtain relay a acc1 t1 where
    v: "verify_relay_recorded (re_control env) (re_relay env) (re_authorization env) r now policy Tp_Protocol t = (Inr (relay, a), t1)"
    and add: "add_path exit relay acc = Inr acc1" and rest: "verify_paths env exit now policy rs acc1 t1 = (Inr acc', t')"
    by (auto simp: tbind_Inr tlift_Inr)
  note g = doubly_signedI [OF verify_relay_recorded_Inr [OF v]]
  note ad = add [unfolded add_path_Inr Let_def]
  have "same_finalized_scope exit (relay_authorization.truncate (vm_message relay))" using ad by blast
  then have "ra_expires_at_ms (vm_message relay) = er_expires_at_ms exit"
    by (simp add: same_finalized_scope_def relay_authorization.truncate_def)
  with ad g(2) Cons.prems(2) have "pa_expires_at_ms acc1 = er_expires_at_ms exit" by simp
  from Cons.IH [OF rest this] obtain gs where
    gs: "path_grants_ok env exit now policy rs gs"
    "ra_relay_node_id ` set gs \<inter> pa_relay_ids acc1 = {}" "ra_relay_peer_id ` set gs \<inter> pa_relay_peer_ids acc1 = {}"
    "ra_path_id ` set gs \<inter> pa_path_ids acc1 = {}"
    "pa_grants acc' = pa_grants acc1 @ gs" "pa_relay_node_ids acc' = pa_relay_node_ids acc1 @ map ra_relay_node_id gs"
    "pa_expires_at_ms acc' = er_expires_at_ms exit" by blast
  have "path_grants_ok env exit now policy (r # rs) (vm_message relay # gs)"
    using gs(1-4) g ad unfolding path_grants_ok_def by auto
  with gs ad show ?case by (intro exI [of _ "vm_message relay # gs"]) auto
qed

section \<open>Extensions\<close>

abbreviation ext_scope :: "route_extension \<Rightarrow> route_extension_scope" where
  "ext_scope x \<equiv> the (rx_scope x)"

text \<open>
  A committed extension: authentic and signed by the exit, about exactly these signed reservation bytes, and the
  grant of its path carries the relay authorization it names.
\<close>

definition committed_extension ::
  "route_env \<Rightarrow> nat \<Rightarrow> time_policy \<Rightarrow> bytes \<Rightarrow> exit_reservation \<Rightarrow> relay_reservation list \<Rightarrow> nat \<Rightarrow> bytes \<Rightarrow> route_extension \<Rightarrow> bool" where
  "committed_extension env now policy signed_parent parent grants limit encoded x \<longleftrightarrow>
     (\<exists>e. message_authentic (re_control env) (extension_payload (re_control env) (re_exit env) (re_extension env)) encoded now policy e x
       \<and> se_sender_id e = er_exit_node_id parent)
     \<and> rx_scope x \<noteq> None \<and> phase_of (rx_phase x) = Some Xp_Commit
     \<and> xs_signed_exit_reservation (ext_scope x) = signed_parent
     \<and> xs_path_id (ext_scope x) \<le> limit
     \<and> (\<exists>g \<in> set grants. ra_path_id g = xs_path_id (ext_scope x)
         \<and> rr_exit_authorization g = rx_signed_relay_authorization x
         \<and> ra_relay_node_id g = xs_relay_node_id (ext_scope x) \<and> ra_relay_peer_id g = xs_relay_peer_id (ext_scope x))"

lemma add_extension_Inr:
  assumes "verify_payload (re_control env) (extension_payload (re_control env) (re_exit env) (re_extension env)) encoded now policy = Inr v"
    and "add_extension signed_parent parent grants c v acc = Inr acc'"
  shows "committed_extension env now policy signed_parent parent grants (sc_probe_permit_limit c) encoded (vm_message v)"
    "xs_path_id (ext_scope (vm_message v)) \<notin> xa_added acc"
    "xa_added acc' = insert (xs_path_id (ext_scope (vm_message v))) (xa_added acc)"
    "xa_extensions acc' = xa_extensions acc @ [vm_message v]"
proof -
  from assms(1) obtain e m where
    v: "message_authentic (re_control env) (extension_payload (re_control env) (re_exit env) (re_extension env)) encoded now policy e m"
      "v = verified_of e m" unfolding verify_payload_authentic by blast
  from assms(2) v(2) obtain s g where sg: "rx_scope m = Some s" "phase_of (rx_phase m) = Some Xp_Commit"
    "xs_signed_exit_reservation s = signed_parent" "se_sender_id e = er_exit_node_id parent"
    "xs_path_id s \<le> sc_probe_permit_limit c" "xs_path_id s \<notin> xa_added acc"
    "find (\<lambda>g. ra_path_id g = xs_path_id s) grants = Some g" "rr_exit_authorization g = rx_signed_relay_authorization m"
    "ra_relay_node_id g = xs_relay_node_id s" "ra_relay_peer_id g = xs_relay_peer_id s"
    "xa_added acc' = insert (xs_path_id s) (xa_added acc)" "xa_extensions acc' = xa_extensions acc @ [m]"
    by (auto simp: add_extension_def Let_def result_simps)
  have g: "g \<in> set grants" "ra_path_id g = xs_path_id s" using sg(7) by (auto simp: find_Some_iff)
  show "committed_extension env now policy signed_parent parent grants (sc_probe_permit_limit c) encoded (vm_message v)"
    unfolding committed_extension_def using v sg g by auto
  show "xs_path_id (ext_scope (vm_message v)) \<notin> xa_added acc"
    "xa_added acc' = insert (xs_path_id (ext_scope (vm_message v))) (xa_added acc)"
    "xa_extensions acc' = xa_extensions acc @ [vm_message v]"
    using v(2) sg by simp_all
qed

lemma verify_extension_proofs_Inr:
  assumes "verify_extension_proofs env signed_parent parent grants c now policy proofs acc t = (Inr acc', t')"
  shows "\<exists>xs. list_all2 (committed_extension env now policy signed_parent parent grants (sc_probe_permit_limit c)) proofs xs
    \<and> distinct (map (\<lambda>x. xs_path_id (ext_scope x)) xs) \<and> (\<lambda>x. xs_path_id (ext_scope x)) ` set xs \<inter> xa_added acc = {}
    \<and> xa_added acc' = xa_added acc \<union> (\<lambda>x. xs_path_id (ext_scope x)) ` set xs
    \<and> xa_extensions acc' = xa_extensions acc @ xs"
  using assms
proof (induction proofs arbitrary: acc t)
  case Nil
  then show ?case by (auto simp: tlift_def)
next
  case (Cons p proofs)
  from Cons.prems obtain v acc1 t1 where
    v: "verify_recorded (re_control env) (extension_payload (re_control env) (re_exit env) (re_extension env)) p now policy Tp_Protocol t = (Inr v, t1)"
    and add: "add_extension signed_parent parent grants c v acc = Inr acc1"
    and rest: "verify_extension_proofs env signed_parent parent grants c now policy proofs acc1 t1 = (Inr acc', t')"
    by (auto simp: tbind_Inr tlift_Inr)
  note a = add_extension_Inr [OF verify_recorded_Inr(1) [OF v] add]
  from Cons.IH [OF rest] obtain xs where
    "list_all2 (committed_extension env now policy signed_parent parent grants (sc_probe_permit_limit c)) proofs xs"
    "distinct (map (\<lambda>x. xs_path_id (ext_scope x)) xs)" "(\<lambda>x. xs_path_id (ext_scope x)) ` set xs \<inter> xa_added acc1 = {}"
    "xa_added acc' = xa_added acc1 \<union> (\<lambda>x. xs_path_id (ext_scope x)) ` set xs"
    "xa_extensions acc' = xa_extensions acc1 @ xs" by blast
  with a show ?case by (intro exI [of _ "vm_message v # xs"]) auto
qed

lemma sort_sort_append: "sort (sort xs @ ys) = sort (xs @ ys)" for xs :: "nat list"
  by (metis mset_append mset_sort properties_for_sort sorted_sort)

text \<open>Each extension names the original bundle and the path set with exactly one path more.\<close>

lemma check_contiguous_Inr:
  assumes "check_contiguous h (sort selected) xs = Inr ()" "i < length xs"
  shows "xs_finalized_bundle_hash (ext_scope (xs ! i)) = h
    \<and> rx_selected_path_ids (xs ! i) = sort (selected @ map (\<lambda>x. xs_path_id (ext_scope x)) (take (Suc i) xs))"
  using assms
proof (induction xs arbitrary: selected i)
  case Nil
  then show ?case by simp
next
  case (Cons x xs)
  from Cons.prems(1) obtain s where s: "rx_scope x = Some s" "xs_finalized_bundle_hash s = h"
    "rx_selected_path_ids x = sort (selected @ [xs_path_id s])"
    "check_contiguous h (sort (selected @ [xs_path_id s])) xs = Inr ()"
    by (auto simp: result_simps Let_def sort_sort_append split: if_splits)
  show ?case
  proof (cases i)
    case 0
    with s show ?thesis by simp
  next
    case (Suc j)
    with Cons.IH [OF s(4), of j] Cons.prems(2) s(1) show ?thesis by simp
  qed
qed

definition extended_from ::
  "route_env \<Rightarrow> nat \<Rightarrow> time_policy \<Rightarrow> bytes \<Rightarrow> exit_reservation \<Rightarrow> relay_reservation list \<Rightarrow> bytes list \<Rightarrow> bytes \<Rightarrow> bool" where
  "extended_from env now policy signed_parent parent grants proofs signed_capability \<longleftrightarrow>
     (\<exists>capability e xs hash originals.
        message_authentic (re_control env) (capability_payload (re_control env) (re_capability env)) signed_capability now policy e capability
        \<and> se_sender_id e = er_exit_node_id parent \<and> sc_client_session_id capability = er_client_session_id parent
        \<and> length grants \<le> sc_maximum_paths capability
        \<and> list_all2 (committed_extension env now policy signed_parent parent grants (sc_probe_permit_limit capability)) proofs xs
        \<and> distinct (map (\<lambda>x. xs_path_id (ext_scope x)) xs)
        \<and> originals = sort_key ra_path_id (filter (\<lambda>g. ra_path_id g \<notin> (\<lambda>x. xs_path_id (ext_scope x)) ` set xs) grants)
        \<and> length originals = er_maximum_paths parent
        \<and> finalized_reservation_bundle_hash (re_control env) (re_exit env) (re_authorization env) signed_parent
            (map rr_exit_authorization originals) = Inr hash
        \<and> (\<forall>i < length xs. xs_finalized_bundle_hash (ext_scope (xs ! i)) = hash
             \<and> rx_selected_path_ids (xs ! i) =
                 sort (map ra_path_id originals @ map (\<lambda>x. xs_path_id (ext_scope x)) (take (Suc i) xs))))"

lemma verify_extensions_Inr:
  assumes "verify_extensions env signed_parent parent grants proofs cap now policy t = (Inr u, t')"
  shows "extended_from env now policy signed_parent parent grants proofs cap"
proof -
  from assms obtain v t1 acc t2 where
    v: "verify_recorded (re_control env) (capability_payload (re_control env) (re_capability env)) cap now policy Tp_Protocol t = (Inr v, t1)"
    and m: "capability_matches v parent (length grants)"
    and p: "verify_extension_proofs env signed_parent parent grants (vm_message v) now policy proofs
        \<lparr>xa_added = {}, xa_extension_ids = {}, xa_extensions = []\<rparr> t1 = (Inr acc, t2)"
    and o: "check_originals env signed_parent parent grants acc = Inr ()"
    by (auto simp: verify_extensions_def tbind_Inr tlift_Inr split: if_splits)
  from verify_recorded_Inr(1) [OF v] obtain e capability where
    c: "message_authentic (re_control env) (capability_payload (re_control env) (re_capability env)) cap now policy e capability"
      "v = verified_of e capability" unfolding verify_payload_authentic by blast
  from verify_extension_proofs_Inr [OF p] obtain xs where
    xs: "list_all2 (committed_extension env now policy signed_parent parent grants (sc_probe_permit_limit capability)) proofs xs"
      "distinct (map (\<lambda>x. xs_path_id (ext_scope x)) xs)"
      "xa_added acc = (\<lambda>x. xs_path_id (ext_scope x)) ` set xs" "xa_extensions acc = xs" using c(2) by auto
  define originals where "originals = sort_key ra_path_id (filter (\<lambda>g. ra_path_id g \<notin> (\<lambda>x. xs_path_id (ext_scope x)) ` set xs) grants)"
  from o xs(3,4) obtain hash where h: "length originals = er_maximum_paths parent"
    "finalized_reservation_bundle_hash (re_control env) (re_exit env) (re_authorization env) signed_parent
       (map rr_exit_authorization originals) = Inr hash"
    "check_contiguous hash (map ra_path_id originals) xs = Inr ()"
    unfolding originals_def by (auto simp: check_originals_def Let_def result_simps)
  have "sort (map ra_path_id originals) = map ra_path_id originals"
    by (simp add: originals_def sorted_sort_id)
  then have "\<forall>i < length xs. xs_finalized_bundle_hash (ext_scope (xs ! i)) = hash
      \<and> rx_selected_path_ids (xs ! i) = sort (map ra_path_id originals @ map (\<lambda>x. xs_path_id (ext_scope x)) (take (Suc i) xs))"
    using check_contiguous_Inr [of hash "map ra_path_id originals" xs] h(3) by metis
  with c m xs(1,2) h originals_def show ?thesis
    unfolding extended_from_def capability_matches_def Let_def by (intro exI) auto
qed

section \<open>Verified routes\<close>

definition exit_authentic :: "route_env \<Rightarrow> bytes \<Rightarrow> nat \<Rightarrow> time_policy \<Rightarrow> signed_envelope \<Rightarrow> exit_reservation \<Rightarrow> bool" where
  "exit_authentic env encoded now policy e x \<longleftrightarrow>
     message_authentic (re_control env) (exit_reservation_payload (re_control env) (re_exit env)) encoded now policy e x"

lemma route_of_Inr [result_simps]:
  "route_of x acc = Inr route \<longleftrightarrow>
     length (er_reservation_id x) = 16 \<and> length (er_route_context_id x) = 16 \<and> length (er_exit_node_id x) = 32
     \<and> length (er_client_session_id x) = 32
     \<and> route = \<lparr>vr_reservation_id = er_reservation_id x, vr_route_context_id = er_route_context_id x,
          vr_exit_node_id = er_exit_node_id x, vr_client_ephemeral_id = er_client_session_id x,
          vr_relay_node_ids = sort (pa_relay_node_ids acc), vr_expires_at_ms = pa_expires_at_ms acc\<rparr>"
  by (auto simp: route_of_def result_simps)

lemma exit_paths_bound:
  assumes "exit_authentic env encoded now policy e x"
  shows "er_maximum_paths x \<le> 8" "0 < er_maximum_paths x"
  using assms by (auto simp: exit_authentic_def message_authentic_def payload_accepted_def exit_reservation_payload_def
      exit_reservation_validate_def result_simps)

lemma verify_inner_Inr:
  assumes "verify_inner env er rs ext now policy c = (Inr route, c')"
  obtains e x gs where "exit_authentic env er now policy e x"
    "transport_number Wt_TcpMptcp \<in> set (er_allowed_transports x)" "2 \<le> length rs" "length rs \<le> 8"
    "path_grants_ok env x now policy rs gs"
    "length rs = er_maximum_paths x + (case ext of None \<Rightarrow> 0 | Some (proofs, _) \<Rightarrow> length proofs)"
    "case ext of None \<Rightarrow> True | Some (proofs, cap) \<Rightarrow> extended_from env now policy er x gs proofs cap"
    "route = \<lparr>vr_reservation_id = er_reservation_id x, vr_route_context_id = er_route_context_id x,
       vr_exit_node_id = er_exit_node_id x, vr_client_ephemeral_id = er_client_session_id x,
       vr_relay_node_ids = sort (map ra_relay_node_id gs), vr_expires_at_ms = er_expires_at_ms x\<rparr>"
proof -
  let ?body = "tbind (verify_recorded (re_control env) (exit_reservation_payload (re_control env) (re_exit env)) er now policy Tp_Protocol)
     (route_checks env er rs ext now policy)"
  have n: "2 \<le> length rs" "length rs \<le> 8" and "run_transaction ?body c = (Inr route, c')"
    using assms by (simp_all add: verify_inner_def MINIMUM_MPTCP_PATHS_def MAX_PATHS_def split: if_splits)
  then obtain t where "?body (transaction_new c) = (Inr route, t)"
    by (auto simp: run_transaction_def split: prod.splits sum.splits)
  then obtain v t1 where v: "verify_recorded (re_control env) (exit_reservation_payload (re_control env) (re_exit env)) er now policy
      Tp_Protocol (transaction_new c) = (Inr v, t1)" and r: "route_checks env er rs ext now policy v t1 = (Inr route, t)"
    unfolding tbind_Inr by blast
  from verify_recorded_Inr(1) [OF v] obtain e x where x: "exit_authentic env er now policy e x" "v = verified_of e x"
    unfolding verify_payload_authentic exit_authentic_def by blast
  let ?acc0 = "\<lparr>pa_relay_ids = {}, pa_relay_peer_ids = {}, pa_path_ids = {}, pa_relay_node_ids = [],
      pa_expires_at_ms = er_expires_at_ms x, pa_grants = []\<rparr>"
  have ex: "vm_expires_at_ms v = er_expires_at_ms x"
    using exit_reservation_signed(2) [OF x(1) [unfolded exit_authentic_def]] x(2) by simp
  let ?ext = "case ext of None \<Rightarrow> 0 | Some (proofs, _) \<Rightarrow> length proofs"
  have "er_maximum_paths x + ?ext \<le> u64_max" if "?ext \<le> 8"
    using exit_paths_bound(1) [OF x(1)] that by (simp add: u64_max_def)
  with r x(2) ex obtain acc t2 t3 u where
    a: "transport_number Wt_TcpMptcp \<in> set (er_allowed_transports x)" "length rs = er_maximum_paths x + ?ext"
    and p: "verify_paths env x now policy rs ?acc0 t1 = (Inr acc, t2)"
    and q: "(case ext of None \<Rightarrow> tlift (Inr ()) | Some (proofs, cap) \<Rightarrow>
        verify_extensions env er x (pa_grants acc) proofs cap now policy) t2 = (Inr u, t3)"
    and o: "route_of x acc = Inr route"
    by (auto simp: route_checks_def Let_def tbind_Inr tlift_Inr saturating_add_u64_def split: if_splits)
  from verify_paths_Inr [OF p] obtain gs where
    g: "path_grants_ok env x now policy rs gs" "pa_grants acc = gs" "pa_relay_node_ids acc = map ra_relay_node_id gs"
      "pa_expires_at_ms acc = er_expires_at_ms x" by auto
  have "case ext of None \<Rightarrow> True | Some (proofs, cap) \<Rightarrow> extended_from env now policy er x gs proofs cap"
    using q verify_extensions_Inr g(2) by (auto split: option.splits)
  with x(1) a n g o show thesis by (intro that [of e x gs]) (simp_all add: route_of_Inr)
qed

text \<open>The exit reservation's nonce is among the entries an accepted route or path records.\<close>

lemma verify_inner_records:
  assumes "verify_inner env er rs ext now policy c = (Inr route, c')"
  shows "\<exists>es v. fresh_entries now c es \<and> c' = with_entries now c es
    \<and> verify_payload (re_control env) (exit_reservation_payload (re_control env) (re_exit env)) er now policy = Inr v
    \<and> replay_entry v \<in> set es"
  using assms unfolding verify_inner_def
  by (intro run_transaction_records [OF step_ok_tbind [OF step_ok_verify_recorded step_ok_route_checks] grows_route_checks])
    (simp split: if_splits)

lemma verify_path_records:
  assumes "verify_path env er rr now policy c = (Inr path, c')"
  shows "\<exists>es v. fresh_entries now c es \<and> c' = with_entries now c es
    \<and> verify_payload (re_control env) (exit_reservation_payload (re_control env) (re_exit env)) er now policy = Inr v
    \<and> replay_entry v \<in> set es"
  using assms unfolding verify_path_def
  by (rule run_transaction_records [OF step_ok_tbind [OF step_ok_verify_recorded step_ok_path_checks] grows_path_checks])

end
