(* ===== verification/Policy_Manifest.thy ===== *)
theory Policy_Manifest
  imports Policy_Domain Protocol_Canonical
begin

text \<open>
  Threshold-signed egress whitelist manifests (\<^verbatim>\<open>crates/volparossa-policy/src/lib.rs\<close> and
  \<^verbatim>\<open>wire.rs\<close>): trust stores, manifest specifications, signing, verification and the
  authorization of destinations. The protobuf codecs, SHA-256, Ed25519 verification and host parsing
  are the parameter record \<open>policy_env\<close>.
\<close>

section \<open>Trust\<close>

definition MANIFEST_SCHEMA_VERSION :: nat where "MANIFEST_SCHEMA_VERSION = 1"
definition POLICY_PROTOCOL_VERSION :: nat where "POLICY_PROTOCOL_VERSION = 2"
definition DEFAULT_MINIMUM_SIGNATURES :: nat where "DEFAULT_MINIMUM_SIGNATURES = 3"
definition MAX_SIGNED_MANIFEST_BYTES :: nat where "MAX_SIGNED_MANIFEST_BYTES = 512 * 1024"
definition MAX_MANIFEST_BODY_BYTES :: nat where "MAX_MANIFEST_BODY_BYTES = 448 * 1024"
definition MAX_MAINTAINERS :: nat where "MAX_MAINTAINERS = 32"
definition MAX_SIGNATURES :: nat where "MAX_SIGNATURES = MAX_MAINTAINERS"
definition MAX_DESTINATION_RULES :: nat where "MAX_DESTINATION_RULES = 4096"
definition MAX_TOTAL_PERMISSIONS :: nat where "MAX_TOTAL_PERMISSIONS = 16384"

definition MANIFEST_SIGNATURE_DOMAIN :: bytes where
  "MANIFEST_SIGNATURE_DOMAIN = ascii ''volparossa/whitelist-manifest/signature/v1'' @ [0]"

definition MAINTAINER_ID_DOMAIN :: bytes where
  "MAINTAINER_ID_DOMAIN = ascii ''volparossa/whitelist-maintainer/id/v1'' @ [0]"

datatype policy_mode = Pm_Production | Pm_Development

datatype maintainer_environment = Me_Production | Me_Development

definition environment_wire :: "maintainer_environment \<Rightarrow> int" where
  "environment_wire e = (case e of Me_Production \<Rightarrow> 1 | Me_Development \<Rightarrow> 2)"

definition environment_from_wire :: "int \<Rightarrow> policy_error + maintainer_environment" where
  "environment_from_wire n =
     (if n = 1 then Inr Me_Production else if n = 2 then Inr Me_Development
      else Inl (Po_InvalidField ''maintainer environment''))"

section \<open>Wire messages\<close>

record maintainer_proto =
  mp_key_id :: bytes
  mp_public_key :: bytes
  mp_environment :: int

datatype wire_destination = Wd_ExactDomain utext | Wd_WildcardDomain utext | Wd_ExactIp bytes

record protocol_port_proto =
  ppp_protocol :: int
  ppp_port :: nat

record destination_rule_proto =
  drp_destination :: "wire_destination option"
  drp_permissions :: "protocol_port_proto list"

record manifest_body_proto =
  mb_schema_version :: nat
  mb_manifest_version :: nat
  mb_minimum_protocol_version :: nat
  mb_issued_at_ms :: nat
  mb_valid_from_ms :: nat
  mb_expires_at_ms :: nat
  mb_required_signatures :: nat
  mb_maintainers :: "maintainer_proto list"
  mb_rules :: "destination_rule_proto list"

record manifest_signature_proto =
  msp_key_id :: bytes
  msp_signature :: bytes

record signed_manifest_proto =
  sm_body :: "manifest_body_proto option"
  sm_body_hash :: bytes
  sm_signatures :: "manifest_signature_proto list"

record policy_env =
  pe_body :: "manifest_body_proto codec"
  pe_signed :: "signed_manifest_proto codec"
  pe_sha256 :: "bytes \<Rightarrow> bytes"
  pe_verify_strict :: "bytes \<Rightarrow> bytes \<Rightarrow> bytes \<Rightarrow> bool"
  pe_host_parse :: host_parser

definition policy_encode :: "'m codec \<Rightarrow> 'm \<Rightarrow> nat \<Rightarrow> policy_error + bytes" where
  "policy_encode c message maximum =
     (if length (cd_encode c message) > maximum then Inl (Po_Oversized ''canonical protobuf'' maximum)
      else Inr (cd_encode c message))"

definition policy_decode :: "'m codec \<Rightarrow> bytes \<Rightarrow> nat \<Rightarrow> policy_error + 'm" where
  "policy_decode c encoded maximum =
     (if encoded = [] \<or> length encoded > maximum then Inl (Po_Oversized ''signed policy manifest'' maximum) else
      rbind (ok_or (cd_decode c encoded) Po_Decode) (\<lambda>decoded.
      rbind (policy_encode c decoded maximum) (\<lambda>canonical.
      if canonical \<noteq> encoded then Inl Po_NonCanonicalProtobuf else Inr decoded)))"

definition fixed_bytes :: "nat \<Rightarrow> bytes \<Rightarrow> string \<Rightarrow> policy_error + bytes" where
  "fixed_bytes n bs field = (if length bs = n then Inr bs else Inl (Po_InvalidField field))"

definition maintainer_id :: "policy_env \<Rightarrow> bytes \<Rightarrow> bytes" where
  "maintainer_id env public_key = pe_sha256 env (MAINTAINER_ID_DOMAIN @ public_key)"

definition manifest_signature_input :: "bytes \<Rightarrow> bytes \<Rightarrow> bytes" where
  "manifest_signature_input body policy_hash = MANIFEST_SIGNATURE_DOMAIN @ policy_hash @ body"

record trusted_maintainer =
  tm_key_id :: bytes
  tm_verifying_key :: bytes
  tm_environment :: maintainer_environment

definition trusted_maintainer_new :: "policy_env \<Rightarrow> bytes \<Rightarrow> maintainer_environment \<Rightarrow> trusted_maintainer" where
  "trusted_maintainer_new env key e =
     \<lparr>tm_key_id = maintainer_id env key, tm_verifying_key = key, tm_environment = e\<rparr>"

record trust_store =
  ts_mode :: policy_mode
  ts_maintainers :: "trusted_maintainer list"

definition trust_store_new :: "policy_mode \<Rightarrow> trusted_maintainer list \<Rightarrow> policy_error + trust_store" where
  "trust_store_new mode maintainers =
     (if maintainers = [] then Inl (Po_InvalidField ''empty maintainer trust store'')
      else if length maintainers > MAX_MAINTAINERS
      then Inl (Po_TooManyItems ''trusted maintainers'' MAX_MAINTAINERS)
      else if mode = Pm_Production \<and> list_ex (\<lambda>k. tm_environment k = Me_Development) maintainers
      then Inl Po_DevelopmentKeyRejected
      else let sorted_keys = sort_key tm_key_id maintainers in
        if list_ex (\<lambda>(a, b). tm_key_id a = tm_key_id b) (windows2 sorted_keys)
        then Inl (Po_DuplicateItem ''trusted maintainer key'')
        else Inr \<lparr>ts_mode = mode, ts_maintainers = sorted_keys\<rparr>)"

definition find_key :: "trust_store \<Rightarrow> bytes \<Rightarrow> trusted_maintainer option" where
  "find_key ts key_id =
     map_option (\<lambda>i. ts_maintainers ts ! i) (binary_search (map tm_key_id (ts_maintainers ts)) key_id)"

record verification_policy =
  vp_minimum_signatures :: nat
  vp_expected_maintainers :: nat
  vp_maximum_lifetime_ms :: nat
  vp_maximum_clock_skew_ms :: nat

definition verification_policy_new :: "nat \<Rightarrow> nat \<Rightarrow> nat \<Rightarrow> nat \<Rightarrow> policy_error + verification_policy" where
  "verification_policy_new minimum_signatures expected_maintainers maximum_lifetime_ms maximum_clock_skew_ms =
     (if minimum_signatures = 0 \<or> expected_maintainers = 0 \<or> minimum_signatures > expected_maintainers
         \<or> expected_maintainers > MAX_MAINTAINERS \<or> maximum_lifetime_ms = 0
      then Inl (Po_InvalidField ''verification policy limits'')
      else Inr \<lparr>vp_minimum_signatures = minimum_signatures, vp_expected_maintainers = expected_maintainers,
                vp_maximum_lifetime_ms = maximum_lifetime_ms, vp_maximum_clock_skew_ms = maximum_clock_skew_ms\<rparr>)"

section \<open>Specifications\<close>

record manifest_spec =
  sp_manifest_version :: nat
  sp_minimum_protocol_version :: nat
  sp_issued_at_ms :: nat
  sp_valid_from_ms :: nat
  sp_expires_at_ms :: nat
  sp_required_signatures :: nat
  sp_rules :: "destination_rule list"

definition validate_time_order :: "nat \<Rightarrow> nat \<Rightarrow> nat \<Rightarrow> policy_error + nat" where
  "validate_time_order issued_at_ms valid_from_ms expires_at_ms =
     (if issued_at_ms = 0 \<or> valid_from_ms = 0 \<or> expires_at_ms = 0 then Inl Po_InvalidTimeWindow
      else if issued_at_ms > valid_from_ms then Inl Po_InvalidTimeWindow
      else ok_or (filter_option (\<lambda>lifetime. lifetime > 0) (checked_sub expires_at_ms valid_from_ms)) Po_InvalidTimeWindow)"

definition spec_new :: "nat \<Rightarrow> nat \<Rightarrow> nat \<Rightarrow> nat \<Rightarrow> nat \<Rightarrow> policy_error + manifest_spec" where
  "spec_new manifest_version minimum_protocol_version issued_at_ms valid_from_ms expires_at_ms =
     (if manifest_version = 0 \<or> minimum_protocol_version = 0
      then Inl (Po_InvalidField ''manifest or protocol version'') else
      rbind (validate_time_order issued_at_ms valid_from_ms expires_at_ms) (\<lambda>_.
      Inr \<lparr>sp_manifest_version = manifest_version, sp_minimum_protocol_version = minimum_protocol_version,
           sp_issued_at_ms = issued_at_ms, sp_valid_from_ms = valid_from_ms, sp_expires_at_ms = expires_at_ms,
           sp_required_signatures = DEFAULT_MINIMUM_SIGNATURES, sp_rules = []\<rparr>))"

definition with_required_signatures :: "manifest_spec \<Rightarrow> nat \<Rightarrow> policy_error + manifest_spec" where
  "with_required_signatures spec required =
     (if required = 0 \<or> required > MAX_MAINTAINERS then Inl (Po_InvalidField ''manifest signature threshold'')
      else Inr (spec\<lparr>sp_required_signatures := required\<rparr>))"

definition permission_count :: "destination_rule list \<Rightarrow> nat" where
  "permission_count rules = sum_list (map (\<lambda>r. length (dr_permissions r)) rules)"

text \<open>
  The counts are sums of lengths of vectors in memory, at most 64 times 4096, so the checked additions on
  \<^verbatim>\<open>usize\<close> do not fail.
\<close>

definition add_rule :: "manifest_spec \<Rightarrow> destination_rule \<Rightarrow> policy_error + manifest_spec" where
  "add_rule spec rule =
     (if length (sp_rules spec) = MAX_DESTINATION_RULES
      then Inl (Po_TooManyItems ''destination rules'' MAX_DESTINATION_RULES)
      else if list_ex (\<lambda>existing. dr_destination existing = dr_destination rule) (sp_rules spec)
      then Inl (Po_DuplicateItem ''destination rule'')
      else if permission_count (sp_rules spec) + length (dr_permissions rule) > MAX_TOTAL_PERMISSIONS
      then Inl (Po_TooManyItems ''total protocol/port permissions'' MAX_TOTAL_PERMISSIONS)
      else Inr (spec\<lparr>sp_rules := sp_rules spec @ [rule]\<rparr>))"

definition validate_rules :: "destination_rule list \<Rightarrow> policy_error + unit" where
  "validate_rules rules =
     (if length rules > MAX_DESTINATION_RULES
      then Inl (Po_TooManyItems ''destination rules'' MAX_DESTINATION_RULES)
      else if list_ex (\<lambda>(a, b). dr_destination a = dr_destination b) (windows2 (sort_key dr_destination rules))
      then Inl (Po_DuplicateItem ''destination rule'')
      else if permission_count rules > MAX_TOTAL_PERMISSIONS
      then Inl (Po_TooManyItems ''total protocol/port permissions'' MAX_TOTAL_PERMISSIONS)
      else Inr ())"

definition validate_spec_for_signing :: "manifest_spec \<Rightarrow> trust_store \<Rightarrow> policy_error + unit" where
  "validate_spec_for_signing spec ts =
     (if sp_manifest_version spec = 0 \<or> sp_minimum_protocol_version spec = 0
      then Inl (Po_InvalidField ''manifest or protocol version'') else
      rbind (validate_time_order (sp_issued_at_ms spec) (sp_valid_from_ms spec) (sp_expires_at_ms spec)) (\<lambda>_.
      if sp_required_signatures spec = 0 \<or> sp_required_signatures spec > length (ts_maintainers ts)
      then Inl (Po_InvalidField ''manifest signature threshold'')
      else validate_rules (sp_rules spec)))"

definition ip_wire :: "ip_addr \<Rightarrow> bytes" where
  "ip_wire a = (case a of V4 w x y z \<Rightarrow> [w, x, y, z] | V6 os \<Rightarrow> os)"

definition rule_to_proto :: "destination_rule \<Rightarrow> destination_rule_proto" where
  "rule_to_proto rule =
     \<lparr>drp_destination = Some (case dr_destination rule of
         ExactDomain name \<Rightarrow> Wd_ExactDomain name
       | WildcardDomain suffix \<Rightarrow> Wd_WildcardDomain (lit ''*.'' @ suffix)
       | ExactIp address \<Rightarrow> Wd_ExactIp (ip_wire address)),
      drp_permissions =
        map (\<lambda>p. \<lparr>ppp_protocol = wire_value (pp_protocol p), ppp_port = pp_port p\<rparr>) (dr_permissions rule)\<rparr>"

definition maintainer_to_proto :: "trusted_maintainer \<Rightarrow> maintainer_proto" where
  "maintainer_to_proto m =
     \<lparr>mp_key_id = tm_key_id m, mp_public_key = tm_verifying_key m, mp_environment = environment_wire (tm_environment m)\<rparr>"

definition body_from_spec :: "manifest_spec \<Rightarrow> trust_store \<Rightarrow> policy_error + manifest_body_proto" where
  "body_from_spec spec ts =
     (if sp_required_signatures spec > u32_max then Inl (Po_InvalidField ''manifest signature threshold'')
      else Inr \<lparr>mb_schema_version = MANIFEST_SCHEMA_VERSION, mb_manifest_version = sp_manifest_version spec,
                mb_minimum_protocol_version = sp_minimum_protocol_version spec, mb_issued_at_ms = sp_issued_at_ms spec,
                mb_valid_from_ms = sp_valid_from_ms spec, mb_expires_at_ms = sp_expires_at_ms spec,
                mb_required_signatures = sp_required_signatures spec,
                mb_maintainers = map maintainer_to_proto (ts_maintainers ts),
                mb_rules = map rule_to_proto (sort_key dr_destination (sp_rules spec))\<rparr>)"

text \<open>An Ed25519 signing key: its public key and its signing function.\<close>

record policy_key =
  pk_public :: bytes
  pk_sign :: "bytes \<Rightarrow> bytes"

fun sign_each ::
  "policy_env \<Rightarrow> trust_store \<Rightarrow> bytes \<Rightarrow> policy_key list \<Rightarrow> policy_error + manifest_signature_proto list" where
  "sign_each env ts input [] = Inr []"
| "sign_each env ts input (k # ks) =
     (let key_id = maintainer_id env (pk_public k) in
      rbind (ok_or (find_key ts key_id) Po_UntrustedSigner) (\<lambda>trusted.
      if tm_verifying_key trusted \<noteq> pk_public k then Inl Po_UntrustedSigner else
      rbind (sign_each env ts input ks) (\<lambda>rest.
      Inr (\<lparr>msp_key_id = key_id, msp_signature = pk_sign k input\<rparr> # rest))))"

definition sign_manifest :: "policy_env \<Rightarrow> manifest_spec \<Rightarrow> trust_store \<Rightarrow> policy_key list \<Rightarrow> policy_error + bytes" where
  "sign_manifest env spec ts keys =
     rbind (validate_spec_for_signing spec ts) (\<lambda>_.
     if length keys > MAX_SIGNATURES then Inl (Po_TooManyItems ''manifest signatures'' MAX_SIGNATURES) else
     rbind (body_from_spec spec ts) (\<lambda>body.
     rbind (policy_encode (pe_body env) body MAX_MANIFEST_BODY_BYTES) (\<lambda>body_bytes.
     let policy_hash = pe_sha256 env body_bytes;
         input = manifest_signature_input body_bytes policy_hash in
     rbind (sign_each env ts input keys) (\<lambda>unsorted.
     let signatures = sort_key msp_key_id unsorted in
     if list_ex (\<lambda>(a, b). msp_key_id a = msp_key_id b) (windows2 signatures)
     then Inl (Po_DuplicateItem ''manifest signature'')
     else if length signatures < sp_required_signatures spec
     then Inl (Po_InsufficientSignatures (sp_required_signatures spec) (length signatures))
     else policy_encode (pe_signed env)
       \<lparr>sm_body = Some body, sm_body_hash = policy_hash, sm_signatures = signatures\<rparr> MAX_SIGNED_MANIFEST_BYTES))))"

section \<open>Verification\<close>

record verified_manifest =
  vmf_manifest_version :: nat
  vmf_minimum_protocol_version :: nat
  vmf_issued_at_ms :: nat
  vmf_valid_from_ms :: nat
  vmf_expires_at_ms :: nat
  vmf_required_signatures :: nat
  vmf_verified_signatures :: nat
  vmf_policy_hash :: bytes
  vmf_rules :: "destination_rule list"

definition validate_verification_context :: "trust_store \<Rightarrow> verification_policy \<Rightarrow> policy_error + unit" where
  "validate_verification_context ts p =
     rbind (verification_policy_new (vp_minimum_signatures p) (vp_expected_maintainers p)
              (vp_maximum_lifetime_ms p) (vp_maximum_clock_skew_ms p)) (\<lambda>_.
     if length (ts_maintainers ts) \<noteq> vp_expected_maintainers p
     then Inl (Po_MaintainerCount (vp_expected_maintainers p) (length (ts_maintainers ts)))
     else if ts_mode ts = Pm_Production \<and> list_ex (\<lambda>k. tm_environment k = Me_Development) (ts_maintainers ts)
     then Inl Po_DevelopmentKeyRejected
     else Inr ())"

definition validate_body_header :: "manifest_body_proto \<Rightarrow> nat \<Rightarrow> verification_policy \<Rightarrow> policy_error + unit" where
  "validate_body_header body now_ms p =
     (if mb_schema_version body \<noteq> MANIFEST_SCHEMA_VERSION
      then Inl (Po_UnsupportedSchemaVersion (mb_schema_version body))
      else if mb_manifest_version body = 0 \<or> mb_minimum_protocol_version body = 0
      then Inl (Po_InvalidField ''manifest or protocol version'')
      else if mb_minimum_protocol_version body > POLICY_PROTOCOL_VERSION
      then Inl (Po_UnsupportedProtocolVersion (mb_minimum_protocol_version body) POLICY_PROTOCOL_VERSION) else
      rbind (validate_time_order (mb_issued_at_ms body) (mb_valid_from_ms body) (mb_expires_at_ms body)) (\<lambda>lifetime.
      if lifetime > vp_maximum_lifetime_ms p then Inl Po_InvalidTimeWindow
      else if mb_issued_at_ms body > saturating_add_u64 now_ms (vp_maximum_clock_skew_ms p) \<or> mb_valid_from_ms body > now_ms
      then Inl Po_NotYetValid
      else if mb_expires_at_ms body \<le> now_ms then Inl Po_Expired
      else Inr ()))"

fun check_embedded ::
  "policy_env \<Rightarrow> policy_mode \<Rightarrow> bytes option \<Rightarrow> (maintainer_proto \<times> trusted_maintainer) list \<Rightarrow> policy_error + unit" where
  "check_embedded env mode previous [] = Inr ()"
| "check_embedded env mode previous ((embedded, trusted) # rest) =
     rbind (fixed_bytes 32 (mp_key_id embedded) ''maintainer key ID'') (\<lambda>key_id.
     rbind (fixed_bytes 32 (mp_public_key embedded) ''maintainer public key'') (\<lambda>public_key.
     rbind (environment_from_wire (mp_environment embedded)) (\<lambda>environment.
     if (case previous of None \<Rightarrow> False | Some p \<Rightarrow> p \<ge> key_id)
     then Inl (Po_NonCanonicalSemantic ''maintainer ordering'')
     else if maintainer_id env public_key \<noteq> key_id then Inl Po_TrustRootMismatch
     else if mode = Pm_Production \<and> environment = Me_Development then Inl Po_DevelopmentKeyRejected
     else if key_id \<noteq> tm_key_id trusted \<or> public_key \<noteq> tm_verifying_key trusted \<or> environment \<noteq> tm_environment trusted
     then Inl Po_TrustRootMismatch
     else check_embedded env mode (Some key_id) rest)))"

definition validate_embedded_trust ::
  "policy_env \<Rightarrow> manifest_body_proto \<Rightarrow> trust_store \<Rightarrow> verification_policy \<Rightarrow> policy_error + unit" where
  "validate_embedded_trust env body ts p =
     (if length (mb_maintainers body) \<noteq> vp_expected_maintainers p
      then Inl (Po_MaintainerCount (vp_expected_maintainers p) (length (mb_maintainers body)))
      else if mb_required_signatures body = 0 \<or> mb_required_signatures body > length (mb_maintainers body)
      then Inl (Po_InvalidField ''manifest signature threshold'')
      else check_embedded env (ts_mode ts) None (zip (mb_maintainers body) (ts_maintainers ts)))"

fun count_signatures ::
  "policy_env \<Rightarrow> trust_store \<Rightarrow> bytes \<Rightarrow> bytes option \<Rightarrow> nat \<Rightarrow> manifest_signature_proto list \<Rightarrow> policy_error + nat" where
  "count_signatures env ts input previous valid [] = Inr valid"
| "count_signatures env ts input previous valid (item # rest) =
     rbind (fixed_bytes 32 (msp_key_id item) ''signature key ID'') (\<lambda>key_id.
     if (case previous of None \<Rightarrow> False | Some p \<Rightarrow> p \<ge> key_id)
     then Inl (Po_NonCanonicalSemantic ''signature ordering'') else
     rbind (ok_or (find_key ts key_id) Po_UntrustedSigner) (\<lambda>trusted.
     rbind (fixed_bytes 64 (msp_signature item) ''signature'') (\<lambda>signature.
     if \<not> pe_verify_strict env (tm_verifying_key trusted) input signature then Inl Po_InvalidSignature
     else count_signatures env ts input (Some key_id) (valid + 1) rest)))"

definition verify_signatures ::
  "policy_env \<Rightarrow> manifest_signature_proto list \<Rightarrow> bytes \<Rightarrow> bytes \<Rightarrow> trust_store \<Rightarrow> policy_error + nat" where
  "verify_signatures env signatures body_bytes policy_hash ts =
     (if length signatures > MAX_SIGNATURES \<or> length signatures > length (ts_maintainers ts)
      then Inl (Po_TooManyItems ''manifest signatures'' (min (length (ts_maintainers ts)) MAX_SIGNATURES))
      else count_signatures env ts (manifest_signature_input body_bytes policy_hash) None 0 signatures)"

definition ip_from_wire :: "bytes \<Rightarrow> policy_error + ip_addr" where
  "ip_from_wire bs =
     (case bs of [a, b, c, d] \<Rightarrow> Inr (V4 a b c d)
      | _ \<Rightarrow> if length bs = 16 then Inr (V6 bs) else Inl (Po_InvalidField ''exact IP address''))"

definition rule_from_wire :: "host_parser \<Rightarrow> wire_destination \<Rightarrow> protocol_port list \<Rightarrow> policy_error + destination_rule" where
  "rule_from_wire host_parse d permissions =
     (case d of
        Wd_ExactDomain domain \<Rightarrow> from_wire_exact_domain host_parse domain permissions
      | Wd_WildcardDomain pattern \<Rightarrow> from_wire_wildcard_domain host_parse pattern permissions
      | Wd_ExactIp address \<Rightarrow> rbind (ip_from_wire address) (\<lambda>a. exact_ip a permissions))"

fun rules_from_wire ::
  "host_parser \<Rightarrow> nat \<Rightarrow> destination option \<Rightarrow> destination_rule_proto list \<Rightarrow> policy_error + destination_rule list" where
  "rules_from_wire host_parse total_permissions previous [] = Inr []"
| "rules_from_wire host_parse total_permissions previous (wire_rule # rest) =
     (if drp_permissions wire_rule = [] \<or> length (drp_permissions wire_rule) > MAX_PERMISSIONS_PER_DESTINATION
      then Inl (Po_InvalidField ''destination permission count'') else
      let now_total = total_permissions + length (drp_permissions wire_rule) in
      if now_total > MAX_TOTAL_PERMISSIONS
      then Inl (Po_TooManyItems ''total protocol/port permissions'' MAX_TOTAL_PERMISSIONS) else
      rbind (rtraverse (\<lambda>p. protocol_port_from_wire (ppp_protocol p) (ppp_port p)) (drp_permissions wire_rule)) (\<lambda>permissions.
      if \<not> strictly_sorted permissions
      then Inl (Po_NonCanonicalSemantic ''protocol/port permission ordering'') else
      rbind (ok_or (drp_destination wire_rule) (Po_InvalidField ''destination selector'')) (\<lambda>d.
      rbind (rule_from_wire host_parse d permissions) (\<lambda>rule.
      if (case previous of None \<Rightarrow> False | Some p \<Rightarrow> \<not> p < dr_destination rule)
      then Inl (Po_NonCanonicalSemantic ''destination rule ordering'') else
      rbind (rules_from_wire host_parse now_total (Some (dr_destination rule)) rest) (\<lambda>rules.
      Inr (rule # rules))))))"

definition rules_from_body :: "policy_env \<Rightarrow> manifest_body_proto \<Rightarrow> policy_error + destination_rule list" where
  "rules_from_body env body =
     (if length (mb_rules body) > MAX_DESTINATION_RULES
      then Inl (Po_TooManyItems ''destination rules'' MAX_DESTINATION_RULES)
      else rules_from_wire (pe_host_parse env) 0 None (mb_rules body))"

definition verify_manifest ::
  "policy_env \<Rightarrow> bytes \<Rightarrow> nat \<Rightarrow> trust_store \<Rightarrow> verification_policy \<Rightarrow> policy_error + verified_manifest" where
  "verify_manifest env encoded now_ms ts p =
     rbind (validate_verification_context ts p) (\<lambda>_.
     rbind (policy_decode (pe_signed env) encoded MAX_SIGNED_MANIFEST_BYTES) (\<lambda>signed.
     rbind (ok_or (sm_body signed) (Po_InvalidField ''missing manifest body'')) (\<lambda>body.
     rbind (validate_body_header body now_ms p) (\<lambda>_.
     rbind (validate_embedded_trust env body ts p) (\<lambda>_.
     rbind (rules_from_body env body) (\<lambda>rules.
     rbind (policy_encode (pe_body env) body MAX_MANIFEST_BODY_BYTES) (\<lambda>body_bytes.
     let computed_hash = pe_sha256 env body_bytes in
     if length (sm_body_hash signed) \<noteq> 32 \<or> sm_body_hash signed \<noteq> computed_hash then Inl Po_ManifestHashMismatch else
     rbind (verify_signatures env (sm_signatures signed) body_bytes computed_hash ts) (\<lambda>verified_signatures.
     let required = max (mb_required_signatures body) (vp_minimum_signatures p) in
     if verified_signatures < required then Inl (Po_InsufficientSignatures required verified_signatures)
     else Inr \<lparr>vmf_manifest_version = mb_manifest_version body,
               vmf_minimum_protocol_version = mb_minimum_protocol_version body,
               vmf_issued_at_ms = mb_issued_at_ms body, vmf_valid_from_ms = mb_valid_from_ms body,
               vmf_expires_at_ms = mb_expires_at_ms body, vmf_required_signatures = mb_required_signatures body,
               vmf_verified_signatures = verified_signatures, vmf_policy_hash = computed_hash,
               vmf_rules = rules\<rparr>))))))))"

section \<open>Authorization\<close>

definition ensure_active_at :: "verified_manifest \<Rightarrow> nat \<Rightarrow> policy_error + unit" where
  "ensure_active_at m now_ms =
     (if now_ms < vmf_valid_from_ms m then Inl Po_NotYetValid
      else if now_ms \<ge> vmf_expires_at_ms m then Inl Po_Expired
      else Inr ())"

definition authorize_normalized :: "verified_manifest \<Rightarrow> normalized_request \<Rightarrow> policy_error + unit" where
  "authorize_normalized m request =
     (if list_ex (\<lambda>rule. is_allowed rule request) (vmf_rules m) then Inr () else Inl Po_Denied)"

definition authorize_domain ::
  "policy_env \<Rightarrow> verified_manifest \<Rightarrow> nat \<Rightarrow> utext \<Rightarrow> transport_protocol \<Rightarrow> nat \<Rightarrow> policy_error + unit" where
  "authorize_domain env m now_ms domain protocol port =
     rbind (ensure_active_at m now_ms) (\<lambda>_.
     rbind (request_domain (pe_host_parse env) domain protocol port) (\<lambda>request.
     authorize_normalized m request))"

definition authorize_dns_name :: "policy_env \<Rightarrow> verified_manifest \<Rightarrow> nat \<Rightarrow> utext \<Rightarrow> policy_error + utext" where
  "authorize_dns_name env m now_ms domain =
     rbind (ensure_active_at m now_ms) (\<lambda>_.
     rbind (normalize_domain (pe_host_parse env) domain) (\<lambda>normalized.
     if list_ex (\<lambda>rule. matches_dns_name rule normalized) (vmf_rules m) then Inr normalized else Inl Po_Denied))"

definition authorize_ip :: "verified_manifest \<Rightarrow> nat \<Rightarrow> ip_addr \<Rightarrow> transport_protocol \<Rightarrow> nat \<Rightarrow> policy_error + unit" where
  "authorize_ip m now_ms address protocol port =
     rbind (ensure_active_at m now_ms) (\<lambda>_.
     rbind (request_ip address protocol port) (\<lambda>request.
     authorize_normalized m request))"

end
