(* ===== verification/Policy_Correct.thy ===== *)
theory Policy_Correct
  imports Policy_Manifest
begin

text \<open>
  What an accepted manifest guarantees, what it authorizes, and that a signed specification verifies.
\<close>

section \<open>Signatures\<close>

lemma fixed_bytes_Inr [result_simps]: "fixed_bytes n bs f = Inr b \<longleftrightarrow> length bs = n \<and> b = bs"
  by (auto simp: fixed_bytes_def)

lemma policy_encode_Inr [result_simps]:
  "policy_encode c m n = Inr b \<longleftrightarrow> b = cd_encode c m \<and> length b \<le> n"
  by (auto simp: policy_encode_def)

lemma policy_decode_Inr [result_simps]:
  "policy_decode c b n = Inr m \<longleftrightarrow> b \<noteq> [] \<and> length b \<le> n \<and> cd_decode c b = Some m \<and> cd_encode c m = b"
  by (auto simp: policy_decode_def result_simps)

lemma environment_wire_Inr [result_simps]: "environment_from_wire n = Inr e \<longleftrightarrow> n = environment_wire e"
  by (cases e) (auto simp: environment_from_wire_def environment_wire_def)

lemma find_key_Some:
  assumes "find_key ts i = Some k"
  shows "k \<in> set (ts_maintainers ts) \<and> tm_key_id k = i"
  using assms binary_search_Some [of "map tm_key_id (ts_maintainers ts)" i] by (auto simp: find_key_def)

definition item_valid :: "policy_env \<Rightarrow> trust_store \<Rightarrow> bytes \<Rightarrow> manifest_signature_proto \<Rightarrow> bool" where
  "item_valid env ts input item \<longleftrightarrow>
     length (msp_key_id item) = 32 \<and> length (msp_signature item) = 64 \<and>
     (\<exists>k. find_key ts (msp_key_id item) = Some k \<and> pe_verify_strict env (tm_verifying_key k) input (msp_signature item))"

lemma count_signatures_Inr:
  "count_signatures env ts input previous valid items = Inr n \<longleftrightarrow>
     n = valid + length items \<and> strictly_sorted (map msp_key_id items)
     \<and> (items \<noteq> [] \<longrightarrow> is_none_or (\<lambda>p. p < msp_key_id (hd items)) previous)
     \<and> list_all (item_valid env ts input) items"
proof (induction items arbitrary: previous valid)
  case Nil
  then show ?case by auto
next
  case (Cons item items)
  have "strictly_sorted (map msp_key_id (item # items)) \<longleftrightarrow>
      strictly_sorted (map msp_key_id items) \<and> (items \<noteq> [] \<longrightarrow> msp_key_id item < msp_key_id (hd items))"
    by (cases items) auto
  moreover have "(case previous of None \<Rightarrow> False | Some p \<Rightarrow> p \<ge> msp_key_id item) \<longleftrightarrow>
      \<not> is_none_or (\<lambda>p. p < msp_key_id item) previous"
    by (auto split: option.split)
  ultimately show ?case
    by (auto simp: Cons.IH result_simps item_valid_def)
qed

text \<open>The trusted key whose identifier a carried signature names verifies that very signature.\<close>

definition signed_by :: "policy_env \<Rightarrow> bytes \<Rightarrow> manifest_signature_proto list \<Rightarrow> trusted_maintainer \<Rightarrow> bool" where
  "signed_by env input sigs k \<longleftrightarrow>
     (\<exists>item \<in> set sigs. msp_key_id item = tm_key_id k \<and> length (msp_signature item) = 64
        \<and> pe_verify_strict env (tm_verifying_key k) input (msp_signature item))"

lemma distinct_signers:
  assumes "strictly_sorted (map msp_key_id items)" "list_all (item_valid env ts input) items"
  shows "length items \<le> card {k \<in> set (ts_maintainers ts). signed_by env input items k}"
    (is "_ \<le> card ?K")
proof -
  have "set (map msp_key_id items) \<subseteq> tm_key_id ` ?K"
  proof
    fix i assume "i \<in> set (map msp_key_id items)"
    then obtain item where item: "item \<in> set items" "i = msp_key_id item" by auto
    with assms(2) obtain k where k: "find_key ts i = Some k" "pe_verify_strict env (tm_verifying_key k) input (msp_signature item)"
        "length (msp_signature item) = 64"
      by (auto simp: list_all_iff item_valid_def)
    from find_key_Some [OF k(1)] k(2,3) item have "k \<in> ?K" "i = tm_key_id k" by (auto simp: signed_by_def)
    then show "i \<in> tm_key_id ` ?K" by blast
  qed
  then have "card (set (map msp_key_id items)) \<le> card (tm_key_id ` ?K)" by (intro card_mono) simp_all
  also have "\<dots> \<le> card ?K" by (intro card_image_le) simp
  finally have "card (set (map msp_key_id items)) \<le> card ?K" .
  moreover have "card (set (map msp_key_id items)) = length items"
    using strictly_sorted_distinct [OF assms(1)] by (simp only: distinct_card length_map)
  ultimately show ?thesis by simp
qed

definition embedded_ok :: "policy_env \<Rightarrow> policy_mode \<Rightarrow> maintainer_proto \<Rightarrow> trusted_maintainer \<Rightarrow> bool" where
  "embedded_ok env mode e k \<longleftrightarrow>
     e = maintainer_to_proto k \<and> length (tm_key_id k) = 32 \<and> length (tm_verifying_key k) = 32
     \<and> maintainer_id env (tm_verifying_key k) = tm_key_id k
     \<and> (mode = Pm_Production \<longrightarrow> tm_environment k = Me_Production)"

lemma check_embedded_Inr:
  "check_embedded env mode previous zs = Inr () \<longleftrightarrow>
     list_all (\<lambda>(e, k). embedded_ok env mode e k) zs \<and> strictly_sorted (map (\<lambda>z. tm_key_id (snd z)) zs)
     \<and> (zs \<noteq> [] \<longrightarrow> is_none_or (\<lambda>p. p < tm_key_id (snd (hd zs))) previous)"
proof (induction zs arbitrary: previous)
  case Nil
  then show ?case by auto
next
  case (Cons z zs)
  obtain e k where z: "z = (e, k)" by (cases z)
  have p: "e = maintainer_to_proto k \<longleftrightarrow> mp_key_id e = tm_key_id k \<and> mp_public_key e = tm_verifying_key k
      \<and> mp_environment e = environment_wire (tm_environment k)"
    by (cases e) (auto simp: maintainer_to_proto_def)
  have s: "strictly_sorted (map (\<lambda>z. tm_key_id (snd z)) (z # zs)) \<longleftrightarrow> strictly_sorted (map (\<lambda>z. tm_key_id (snd z)) zs)
      \<and> (zs \<noteq> [] \<longrightarrow> tm_key_id k < tm_key_id (snd (hd zs)))"
    by (cases zs) (auto simp: z)
  have q: "(case previous of None \<Rightarrow> False | Some q \<Rightarrow> q \<ge> i) \<longleftrightarrow> \<not> is_none_or (\<lambda>q. q < i) previous" for i
    by (auto split: option.split)
  have m: "tm_environment k = Me_Production \<longleftrightarrow> tm_environment k \<noteq> Me_Development"
    by (cases "tm_environment k") auto
  show ?case
    unfolding s unfolding z check_embedded.simps q
    by (auto simp: Cons.IH result_simps embedded_ok_def p m)
qed

lemma embedded_trust:
  assumes "validate_embedded_trust env body ts p = Inr u" "length (ts_maintainers ts) = vp_expected_maintainers p"
  shows "mb_maintainers body = map maintainer_to_proto (ts_maintainers ts)"
    "0 < mb_required_signatures body" "mb_required_signatures body \<le> length (ts_maintainers ts)"
proof -
  let ?zs = "zip (mb_maintainers body) (ts_maintainers ts)"
  have len: "length (mb_maintainers body) = length (ts_maintainers ts)"
    using assms by (auto simp: validate_embedded_trust_def split: if_splits)
  from assms(1) have "list_all (\<lambda>(e, k). embedded_ok env (ts_mode ts) e k) ?zs"
    by (auto simp: validate_embedded_trust_def check_embedded_Inr split: if_splits)
  then have "list_all2 (\<lambda>e k. e = maintainer_to_proto k) (mb_maintainers body) (ts_maintainers ts)"
    using len by (auto simp: list_all2_iff list_all_iff embedded_ok_def)
  then show "mb_maintainers body = map maintainer_to_proto (ts_maintainers ts)"
    by (simp add: list_eq_iff_nth_eq list_all2_conv_all_nth)
  show "0 < mb_required_signatures body" "mb_required_signatures body \<le> length (ts_maintainers ts)"
    using assms(1) len by (auto simp: validate_embedded_trust_def split: if_splits)
qed

section \<open>Rules\<close>

definition destination_ok :: "host_parser \<Rightarrow> destination \<Rightarrow> bool" where
  "destination_ok host_parse d =
     (case d of
        ExactDomain n \<Rightarrow> normalize_domain host_parse n = Inr n
      | WildcardDomain s \<Rightarrow> dot \<in> set s \<and> normalize_domain host_parse s = Inr s
      | ExactIp (V4 _ _ _ _) \<Rightarrow> True
      | ExactIp (V6 os) \<Rightarrow> length os = 16)"

definition permissions_ok :: "protocol_port list \<Rightarrow> bool" where
  "permissions_ok ps \<longleftrightarrow> ps \<noteq> [] \<and> length ps \<le> MAX_PERMISSIONS_PER_DESTINATION \<and> sorted_wrt (<) ps
     \<and> list_all (\<lambda>p. 0 < pp_port p \<and> pp_port p \<le> 65535) ps"

definition rule_ok :: "host_parser \<Rightarrow> destination_rule \<Rightarrow> bool" where
  "rule_ok host_parse r \<longleftrightarrow> destination_ok host_parse (dr_destination r) \<and> permissions_ok (dr_permissions r)"

lemma wire_value_inverse [simp]: "protocol_from_wire (wire_value p) = Inr p"
  by (cases p) (simp_all add: protocol_from_wire_def wire_value_def)

lemma protocol_from_wire_Inr [result_simps]: "protocol_from_wire n = Inr p \<longleftrightarrow> n = wire_value p"
  by (cases p) (auto simp: protocol_from_wire_def wire_value_def)

lemma protocol_port_from_wire_Inr [result_simps]:
  "protocol_port_from_wire n port = Inr p \<longleftrightarrow>
     n = wire_value (pp_protocol p) \<and> port = pp_port p \<and> 0 < port \<and> port \<le> 65535"
  by (cases p) (auto simp: protocol_port_from_wire_def protocol_port_new_def result_simps)

lemma ports_from_wire:
  "rtraverse (\<lambda>p. protocol_port_from_wire (ppp_protocol p) (ppp_port p)) ws = Inr ps \<longleftrightarrow>
     ws = map (\<lambda>p. \<lparr>ppp_protocol = wire_value (pp_protocol p), ppp_port = pp_port p\<rparr>) ps
     \<and> list_all (\<lambda>p. 0 < pp_port p \<and> pp_port p \<le> 65535) ps"
proof (induction ws arbitrary: ps)
  case Nil
  then show ?case by auto
next
  case (Cons w ws)
  then show ?case by (cases ps) (auto simp: result_simps)
qed

lemma normalize_permissions_sorted:
  assumes "sorted_wrt (<) ps" "ps \<noteq> []" "length ps \<le> MAX_PERMISSIONS_PER_DESTINATION"
  shows "normalize_permissions ps = Inr ps"
proof -
  have s: "sort ps = ps" using assms(1) by (simp add: sorted_sort_id strict_sorted_imp_sorted)
  have "strictly_sorted xs \<Longrightarrow> \<not> list_ex (\<lambda>(a, b). a = b) (windows2 xs)" for xs :: "protocol_port list"
    by (induction xs rule: induct_list012) auto
  with s assms show ?thesis by (simp add: normalize_permissions_def strictly_sorted_iff)
qed

lemma wildcard_suffix_Inr:
  "wildcard_suffix host_parse pattern = Inr s \<longleftrightarrow>
     (\<exists>raw. pattern = lit ''*.'' @ raw \<and> 42 \<notin> set raw \<and> normalize_domain host_parse raw = Inr s \<and> dot \<in> set s)"
proof -
  have "strip_prefix p t = Some r \<longleftrightarrow> t = p @ r" for p t r :: utext
    by (auto simp: strip_prefix_def) (metis append_take_drop_id)
  then show ?thesis by (auto simp: wildcard_suffix_def result_simps)
qed

lemma split_on_member: "c \<in> set t \<Longrightarrow> c \<noteq> s \<Longrightarrow> \<exists>l \<in> set (split_on s t). c \<in> set l"
  by (induction t) (auto split: list.split)

lemma normalized_no_star:
  assumes "normalize_domain host_parse d = Inr n"
  shows "42 \<notin> set n"
proof
  assume "42 \<in> set n"
  then obtain l where l: "l \<in> set (split_on dot n)" "42 \<in> set l"
    using split_on_member [of 42 n dot] by auto
  then have "label_ok l" using normalize_domain_name(4) [OF assms] by (simp add: list_all_iff)
  then have "\<forall>c \<in> set l. (97 \<le> c \<and> c \<le> 122) \<or> (48 \<le> c \<and> c \<le> 57) \<or> c = 45"
    by (simp add: label_ok_def list_all_iff)
  with l(2) show False by auto
qed

lemma rule_from_wire_Inr:
  assumes "permissions_ok ps"
  shows "rule_from_wire host_parse d ps = Inr r \<longleftrightarrow>
    rule_ok host_parse r \<and> dr_permissions r = ps \<and>
    d = (case dr_destination r of ExactDomain n \<Rightarrow> Wd_ExactDomain n
         | WildcardDomain s \<Rightarrow> Wd_WildcardDomain (lit ''*.'' @ s) | ExactIp a \<Rightarrow> Wd_ExactIp (ip_wire a))"
proof -
  have n: "normalize_permissions ps = Inr ps"
    using assms by (intro normalize_permissions_sorted) (auto simp: permissions_ok_def)
  obtain dest qs where r: "r = \<lparr>dr_destination = dest, dr_permissions = qs\<rparr>" by (cases r)
  have ip: "ip_from_wire bs = Inr a \<longleftrightarrow> bs = ip_wire a \<and> destination_ok host_parse (ExactIp a)" for bs a
    by (cases a) (auto simp: ip_from_wire_def ip_wire_def destination_ok_def split: list.splits)
  show ?thesis
    unfolding rule_from_wire_def from_wire_exact_domain_def from_wire_wildcard_domain_def exact_domain_def
      wildcard_domain_def exact_ip_def rule_ok_def r
    using assms normalized_no_star
    by (cases d; cases dest)
      (auto simp: n result_simps ip wildcard_suffix_Inr destination_ok_def)
qed

lemma rules_from_wire_Inr:
  "rules_from_wire host_parse count0 previous ws = Inr rs \<longleftrightarrow>
     ws = map rule_to_proto rs \<and> list_all (rule_ok host_parse) rs
     \<and> strictly_sorted (map dr_destination rs)
     \<and> (rs \<noteq> [] \<longrightarrow> is_none_or (\<lambda>p. p < dr_destination (hd rs)) previous \<and> count0 + permission_count rs \<le> MAX_TOTAL_PERMISSIONS)"
proof (induction ws arbitrary: rs count0 previous)
  case Nil
  then show ?case by auto
next
  case (Cons w ws)
  have step: "rules_from_wire host_parse count0 previous (w # ws) = Inr rs \<longleftrightarrow>
      (\<exists>r rest. rs = r # rest \<and> w = rule_to_proto r \<and> rule_ok host_parse r
         \<and> count0 + length (dr_permissions r) \<le> MAX_TOTAL_PERMISSIONS
         \<and> is_none_or (\<lambda>p. p < dr_destination r) previous
         \<and> rules_from_wire host_parse (count0 + length (dr_permissions r)) (Some (dr_destination r)) ws = Inr rest)"
    (is "?l \<longleftrightarrow> ?r")
  proof
    assume ?l
    then obtain ps d r rest where h: "drp_permissions w \<noteq> []" "length (drp_permissions w) \<le> MAX_PERMISSIONS_PER_DESTINATION"
      "count0 + length (drp_permissions w) \<le> MAX_TOTAL_PERMISSIONS"
      "rtraverse (\<lambda>p. protocol_port_from_wire (ppp_protocol p) (ppp_port p)) (drp_permissions w) = Inr ps"
      "strictly_sorted ps" "drp_destination w = Some d" "rule_from_wire host_parse d ps = Inr r"
      "\<not> (case previous of None \<Rightarrow> False | Some p \<Rightarrow> \<not> p < dr_destination r)"
      "rules_from_wire host_parse (count0 + length (drp_permissions w)) (Some (dr_destination r)) ws = Inr rest" "rs = r # rest"
      by (auto simp: result_simps Let_def)
    have ps: "drp_permissions w = map (\<lambda>p. \<lparr>ppp_protocol = wire_value (pp_protocol p), ppp_port = pp_port p\<rparr>) ps"
      "list_all (\<lambda>p. 0 < pp_port p \<and> pp_port p \<le> 65535) ps"
      using h(4) by (simp_all add: ports_from_wire)
    then have pok: "permissions_ok ps" using h by (auto simp: permissions_ok_def strictly_sorted_iff)
    note r = h(7) [unfolded rule_from_wire_Inr [OF pok]]
    have "w = rule_to_proto r" using h(6) ps(1) r by (cases w) (simp add: rule_to_proto_def)
    moreover have "is_none_or (\<lambda>p. p < dr_destination r) previous" using h(8) by (auto split: option.splits)
    ultimately show ?r using h ps(1) r by auto
  next
    assume ?r
    then obtain r rest where h: "rs = r # rest" "w = rule_to_proto r" "rule_ok host_parse r"
      "count0 + length (dr_permissions r) \<le> MAX_TOTAL_PERMISSIONS" "is_none_or (\<lambda>p. p < dr_destination r) previous"
      "rules_from_wire host_parse (count0 + length (dr_permissions r)) (Some (dr_destination r)) ws = Inr rest" by blast
    from h(3) have pok: "permissions_ok (dr_permissions r)" by (simp add: rule_ok_def)
    have pp: "drp_permissions w = map (\<lambda>p. \<lparr>ppp_protocol = wire_value (pp_protocol p), ppp_port = pp_port p\<rparr>) (dr_permissions r)"
      by (simp add: h(2) rule_to_proto_def)
    have "rtraverse (\<lambda>p. protocol_port_from_wire (ppp_protocol p) (ppp_port p)) (drp_permissions w) = Inr (dr_permissions r)"
      unfolding ports_from_wire using pok pp by (simp add: permissions_ok_def)
    moreover obtain d where "drp_destination w = Some d" "rule_from_wire host_parse d (dr_permissions r) = Inr r"
      using h(2,3) rule_from_wire_Inr [OF pok, of host_parse _ r] by (simp add: rule_to_proto_def)
    moreover have "\<not> (case previous of None \<Rightarrow> False | Some p \<Rightarrow> \<not> p < dr_destination r)"
      using h(5) by (auto split: option.splits)
    ultimately show ?l
      using h pp pok by (simp add: permissions_ok_def strictly_sorted_iff Let_def)
  qed
  have sort: "strictly_sorted (dr_destination r # map dr_destination rest) \<longleftrightarrow> strictly_sorted (map dr_destination rest)
      \<and> (rest \<noteq> [] \<longrightarrow> dr_destination r < dr_destination (hd rest))" for r and rest :: "destination_rule list"
    by (cases rest) auto
  have pc: "permission_count (r # rest) = length (dr_permissions r) + permission_count rest" "permission_count [] = 0"
    for r and rest :: "destination_rule list"
    by (simp_all add: permission_count_def)
  show ?case
    unfolding step Cons.IH by (cases rs) (auto simp: sort pc)
qed

section \<open>Accepted manifests\<close>

lemma verify_manifest_Inr:
  assumes "verify_manifest env bs now ts p = Inr m"
  obtains body sigs where
    "validate_verification_context ts p = Inr ()"
    "cd_encode (pe_signed env) \<lparr>sm_body = Some body, sm_body_hash = vmf_policy_hash m, sm_signatures = sigs\<rparr> = bs"
    "validate_body_header body now p = Inr ()" "validate_embedded_trust env body ts p = Inr ()"
    "rules_from_body env body = Inr (vmf_rules m)"
    "vmf_policy_hash m = pe_sha256 env (cd_encode (pe_body env) body)"
    "verify_signatures env sigs (cd_encode (pe_body env) body) (vmf_policy_hash m) ts = Inr (vmf_verified_signatures m)"
    "max (mb_required_signatures body) (vp_minimum_signatures p) \<le> vmf_verified_signatures m"
    "vmf_valid_from_ms m = mb_valid_from_ms body" "vmf_expires_at_ms m = mb_expires_at_ms body"
    "vmf_required_signatures m = mb_required_signatures body"
    "vmf_manifest_version m = mb_manifest_version body" "vmf_issued_at_ms m = mb_issued_at_ms body"
    "vmf_minimum_protocol_version m = mb_minimum_protocol_version body"
    "cd_decode (pe_signed env) bs = Some \<lparr>sm_body = Some body, sm_body_hash = vmf_policy_hash m, sm_signatures = sigs\<rparr>"
proof -
  from assms obtain sm body rules n where h: "validate_verification_context ts p = Inr ()"
    "cd_encode (pe_signed env) sm = bs" "sm_body sm = Some body"
    "validate_body_header body now p = Inr ()" "validate_embedded_trust env body ts p = Inr ()"
    "rules_from_body env body = Inr rules" "sm_body_hash sm = pe_sha256 env (cd_encode (pe_body env) body)"
    "verify_signatures env (sm_signatures sm) (cd_encode (pe_body env) body) (pe_sha256 env (cd_encode (pe_body env) body)) ts = Inr n"
    "\<not> n < max (mb_required_signatures body) (vp_minimum_signatures p)" "cd_decode (pe_signed env) bs = Some sm"
    and m: "m = \<lparr>vmf_manifest_version = mb_manifest_version body,
               vmf_minimum_protocol_version = mb_minimum_protocol_version body,
               vmf_issued_at_ms = mb_issued_at_ms body, vmf_valid_from_ms = mb_valid_from_ms body,
               vmf_expires_at_ms = mb_expires_at_ms body, vmf_required_signatures = mb_required_signatures body,
               vmf_verified_signatures = n, vmf_policy_hash = pe_sha256 env (cd_encode (pe_body env) body),
               vmf_rules = rules\<rparr>"
    unfolding verify_manifest_def Let_def rbind_Inr_conv if_Inl_Inr_conv ok_or_Inr_conv policy_decode_Inr policy_encode_Inr
    by auto
  have f: "vmf_policy_hash m = pe_sha256 env (cd_encode (pe_body env) body)" "vmf_rules m = rules"
    "vmf_verified_signatures m = n" "vmf_valid_from_ms m = mb_valid_from_ms body"
    "vmf_expires_at_ms m = mb_expires_at_ms body" "vmf_required_signatures m = mb_required_signatures body"
    "vmf_manifest_version m = mb_manifest_version body" "vmf_issued_at_ms m = mb_issued_at_ms body"
    "vmf_minimum_protocol_version m = mb_minimum_protocol_version body"
    unfolding m by simp_all
  have sm: "sm = \<lparr>sm_body = Some body, sm_body_hash = vmf_policy_hash m, sm_signatures = sm_signatures sm\<rparr>"
    using h(3,7) f(1) by (cases sm) simp
  then have e: "cd_encode (pe_signed env) \<lparr>sm_body = Some body, sm_body_hash = vmf_policy_hash m, sm_signatures = sm_signatures sm\<rparr> = bs"
    using h(2) by simp
  have d: "cd_decode (pe_signed env) bs = Some \<lparr>sm_body = Some body, sm_body_hash = vmf_policy_hash m, sm_signatures = sm_signatures sm\<rparr>"
    using h(10) sm by simp
  show thesis
    by (rule that [OF h(1) e h(4,5)]) (use h(6,8,9) f d in \<open>simp_all add: not_less\<close>)
qed

lemma verified_rules:
  assumes "verify_manifest env bs now ts p = Inr m"
  shows "list_all (rule_ok (pe_host_parse env)) (vmf_rules m)" "strictly_sorted (map dr_destination (vmf_rules m))"
  using assms
  by (auto elim!: verify_manifest_Inr simp: rules_from_body_def rules_from_wire_Inr split: if_splits)

lemma item_valid_signer:
  assumes "list_all (item_valid env ts input) sigs"
  shows "\<forall>item \<in> set sigs. \<exists>k \<in> set (ts_maintainers ts). msp_key_id item = tm_key_id k
    \<and> length (msp_signature item) = 64 \<and> pe_verify_strict env (tm_verifying_key k) input (msp_signature item)"
  using assms unfolding list_all_iff item_valid_def by (metis find_key_Some)

text \<open>The fields of a verified manifest that are copied from the body it was decoded from.\<close>

definition fields_from_body :: "verified_manifest \<Rightarrow> manifest_body_proto \<Rightarrow> bool" where
  "fields_from_body m body \<longleftrightarrow>
     vmf_manifest_version m = mb_manifest_version body
     \<and> vmf_minimum_protocol_version m = mb_minimum_protocol_version body
     \<and> vmf_issued_at_ms m = mb_issued_at_ms body \<and> vmf_valid_from_ms m = mb_valid_from_ms body
     \<and> vmf_expires_at_ms m = mb_expires_at_ms body \<and> vmf_required_signatures m = mb_required_signatures body"

lemma manifest_signers:
  assumes "verify_manifest env bs now ts p = Inr m"
  shows "\<exists>body sigs.
    bs = cd_encode (pe_signed env) \<lparr>sm_body = Some body, sm_body_hash = vmf_policy_hash m, sm_signatures = sigs\<rparr>
    \<and> cd_decode (pe_signed env) bs = Some \<lparr>sm_body = Some body, sm_body_hash = vmf_policy_hash m, sm_signatures = sigs\<rparr>
    \<and> vmf_policy_hash m = pe_sha256 env (cd_encode (pe_body env) body)
    \<and> mb_rules body = map rule_to_proto (vmf_rules m) \<and> fields_from_body m body
    \<and> mb_maintainers body = map maintainer_to_proto (ts_maintainers ts)
    \<and> distinct (map msp_key_id sigs) \<and> vmf_verified_signatures m = length sigs
    \<and> (\<forall>item \<in> set sigs. \<exists>k \<in> set (ts_maintainers ts). msp_key_id item = tm_key_id k
         \<and> length (msp_signature item) = 64
         \<and> pe_verify_strict env (tm_verifying_key k)
             (MANIFEST_SIGNATURE_DOMAIN @ vmf_policy_hash m @ cd_encode (pe_body env) body) (msp_signature item))
    \<and> max 1 (max (mb_required_signatures body) (vp_minimum_signatures p)) \<le>
        card {k \<in> set (ts_maintainers ts).
          signed_by env (MANIFEST_SIGNATURE_DOMAIN @ vmf_policy_hash m @ cd_encode (pe_body env) body) sigs k}
    \<and> (ts_mode ts = Pm_Production \<longrightarrow> (\<forall>k \<in> set (ts_maintainers ts). tm_environment k = Me_Production))
    \<and> mb_valid_from_ms body \<le> now \<and> now < mb_expires_at_ms body
    \<and> mb_expires_at_ms body - mb_valid_from_ms body \<le> vp_maximum_lifetime_ms p"
proof -
  from assms obtain body sigs where h: "validate_verification_context ts p = Inr ()"
    "cd_encode (pe_signed env) \<lparr>sm_body = Some body, sm_body_hash = vmf_policy_hash m, sm_signatures = sigs\<rparr> = bs"
    "validate_body_header body now p = Inr ()" "validate_embedded_trust env body ts p = Inr ()"
    "vmf_policy_hash m = pe_sha256 env (cd_encode (pe_body env) body)"
    "verify_signatures env sigs (cd_encode (pe_body env) body) (vmf_policy_hash m) ts = Inr (vmf_verified_signatures m)"
    "max (mb_required_signatures body) (vp_minimum_signatures p) \<le> vmf_verified_signatures m"
    "cd_decode (pe_signed env) bs = Some \<lparr>sm_body = Some body, sm_body_hash = vmf_policy_hash m, sm_signatures = sigs\<rparr>"
    "rules_from_body env body = Inr (vmf_rules m)" "fields_from_body m body"
    by (rule verify_manifest_Inr) (simp add: fields_from_body_def)
  let ?input = "manifest_signature_input (cd_encode (pe_body env) body) (vmf_policy_hash m)"
  from h(1) have ctx: "length (ts_maintainers ts) = vp_expected_maintainers p"
    "ts_mode ts = Pm_Production \<longrightarrow> (\<forall>k \<in> set (ts_maintainers ts). tm_environment k = Me_Production)"
    by (auto simp: validate_verification_context_def result_simps list_ex_iff) (metis maintainer_environment.exhaust)
  from h(6) have s: "vmf_verified_signatures m = length sigs" "strictly_sorted (map msp_key_id sigs)"
    "list_all (item_valid env ts ?input) sigs"
    by (simp_all add: verify_signatures_def count_signatures_Inr result_simps)
  with distinct_signers [of sigs env ts ?input] h(7) have
    "max (mb_required_signatures body) (vp_minimum_signatures p) \<le>
       card {k \<in> set (ts_maintainers ts). signed_by env ?input sigs k}" by simp
  moreover have "0 < mb_required_signatures body" using embedded_trust(2) [OF h(4) ctx(1)] .
  moreover have "mb_valid_from_ms body \<le> now \<and> now < mb_expires_at_ms body
      \<and> mb_expires_at_ms body - mb_valid_from_ms body \<le> vp_maximum_lifetime_ms p"
    using h(3) by (auto simp: validate_body_header_def validate_time_order_def result_simps split: if_splits)
  moreover have "mb_rules body = map rule_to_proto (vmf_rules m)"
    using h(9) by (simp add: rules_from_body_def rules_from_wire_Inr split: if_splits)
  ultimately show ?thesis
    using h(2,5,8,10) s(1) strictly_sorted_distinct [OF s(2)] ctx(2) embedded_trust(1) [OF h(4) ctx(1)]
      item_valid_signer [OF s(3)]
    by (intro exI [of _ body] exI [of _ sigs]) (simp add: manifest_signature_input_def)
qed

text \<open>
  Claim C3. Only the maintainers can change the policy. If a manifest verifies, the bytes decode to a body, its hash and
  a list of signatures, and are the one encoding of these. The rules, the validity window, the versions and the
  required number of signatures of the verified manifest are those of that body. The signatures carried name distinct
  keys; each is a 64-byte signature that the trusted maintainer with the named key identifier made over the
  domain-separated hash and canonical body. The number of trusted maintainers with such a carried signature is at least
  what the body requires, at least what the local policy requires, and at least one. The body commits exactly the
  local trust root; in production no development key is trusted; and the manifest is active now, for no longer than
  the local limit.
\<close>

theorem verify_manifest_threshold:
  assumes "verify_manifest env bs now ts p = Inr m"
  shows "\<exists>body sigs.
    bs = cd_encode (pe_signed env) \<lparr>sm_body = Some body, sm_body_hash = vmf_policy_hash m, sm_signatures = sigs\<rparr>
    \<and> cd_decode (pe_signed env) bs = Some \<lparr>sm_body = Some body, sm_body_hash = vmf_policy_hash m, sm_signatures = sigs\<rparr>
    \<and> vmf_policy_hash m = pe_sha256 env (cd_encode (pe_body env) body)
    \<and> mb_rules body = map rule_to_proto (vmf_rules m) \<and> fields_from_body m body
    \<and> mb_maintainers body = map maintainer_to_proto (ts_maintainers ts)
    \<and> distinct (map msp_key_id sigs) \<and> vmf_verified_signatures m = length sigs
    \<and> (\<forall>item \<in> set sigs. \<exists>k \<in> set (ts_maintainers ts). msp_key_id item = tm_key_id k
         \<and> length (msp_signature item) = 64
         \<and> pe_verify_strict env (tm_verifying_key k)
             (MANIFEST_SIGNATURE_DOMAIN @ vmf_policy_hash m @ cd_encode (pe_body env) body) (msp_signature item))
    \<and> max 1 (max (mb_required_signatures body) (vp_minimum_signatures p)) \<le>
        card {k \<in> set (ts_maintainers ts).
          signed_by env (MANIFEST_SIGNATURE_DOMAIN @ vmf_policy_hash m @ cd_encode (pe_body env) body) sigs k}
    \<and> (ts_mode ts = Pm_Production \<longrightarrow> (\<forall>k \<in> set (ts_maintainers ts). tm_environment k = Me_Production))
    \<and> mb_valid_from_ms body \<le> now \<and> now < mb_expires_at_ms body
    \<and> mb_expires_at_ms body - mb_valid_from_ms body \<le> vp_maximum_lifetime_ms p"
  using assms by (rule manifest_signers)

lemma authorize_rules:
  assumes "verify_manifest env bs t ts p = Inr m"
  shows "(authorize_domain env m now d protocol port = Inr () \<longleftrightarrow>
      vmf_valid_from_ms m \<le> now \<and> now < vmf_expires_at_ms m \<and> port \<noteq> 0
      \<and> (\<exists>n. normalize_domain (pe_host_parse env) d = Inr n
           \<and> (\<exists>r \<in> set (vmf_rules m). ProtocolPort protocol port \<in> set (dr_permissions r)
                \<and> (dr_destination r = ExactDomain n
                   \<or> (\<exists>s ls. dr_destination r = WildcardDomain s \<and> ls \<noteq> [] \<and> split_on dot n = ls @ split_on dot s)))))
    \<and> (authorize_ip m now a protocol port = Inr () \<longleftrightarrow>
      vmf_valid_from_ms m \<le> now \<and> now < vmf_expires_at_ms m \<and> port \<noteq> 0
      \<and> (\<exists>r \<in> set (vmf_rules m). ProtocolPort protocol port \<in> set (dr_permissions r) \<and> dr_destination r = ExactIp a))"
proof -
  have sorted: "sorted_wrt (<) (dr_permissions r)" if "r \<in> set (vmf_rules m)" for r
    using verified_rules(1) [OF assms] that by (simp add: list_all_iff rule_ok_def permissions_ok_def)
  have act: "ensure_active_at m now = Inr () \<longleftrightarrow> vmf_valid_from_ms m \<le> now \<and> now < vmf_expires_at_ms m"
    by (auto simp: ensure_active_at_def)
  have dom: "authorize_normalized m \<lparr>nr_destination = Rd_Domain n, nr_permission = pp\<rparr> = Inr () \<longleftrightarrow>
      (\<exists>r \<in> set (vmf_rules m). pp \<in> set (dr_permissions r) \<and> (dr_destination r = ExactDomain n
         \<or> (\<exists>s ls. dr_destination r = WildcardDomain s \<and> ls \<noteq> [] \<and> split_on dot n = ls @ split_on dot s)))"
    if "normalize_domain (pe_host_parse env) d = Inr n" for n pp
    using is_allowed_domain [OF sorted normalize_domain_name(2) [OF that]]
    by (simp add: authorize_normalized_def list_ex_iff)
  have ip: "authorize_normalized m \<lparr>nr_destination = Rd_Ip a, nr_permission = pp\<rparr> = Inr () \<longleftrightarrow>
      (\<exists>r \<in> set (vmf_rules m). pp \<in> set (dr_permissions r) \<and> dr_destination r = ExactIp a)" for pp
    using is_allowed_ip [OF sorted] by (simp add: authorize_normalized_def list_ex_iff)
  have "authorize_domain env m now d protocol port = Inr () \<longleftrightarrow>
      (vmf_valid_from_ms m \<le> now \<and> now < vmf_expires_at_ms m) \<and> port \<noteq> 0
      \<and> (\<exists>n. normalize_domain (pe_host_parse env) d = Inr n
           \<and> authorize_normalized m \<lparr>nr_destination = Rd_Domain n, nr_permission = ProtocolPort protocol port\<rparr> = Inr ())"
    by (auto simp: authorize_domain_def request_domain_def protocol_port_new_def result_simps act)
  moreover have "authorize_ip m now a protocol port = Inr () \<longleftrightarrow>
      (vmf_valid_from_ms m \<le> now \<and> now < vmf_expires_at_ms m) \<and> port \<noteq> 0
      \<and> authorize_normalized m \<lparr>nr_destination = Rd_Ip a, nr_permission = ProtocolPort protocol port\<rparr> = Inr ()"
    by (auto simp: authorize_ip_def request_ip_def protocol_port_new_def result_simps act)
  moreover have "(\<exists>n. normalize_domain (pe_host_parse env) d = Inr n
           \<and> authorize_normalized m \<lparr>nr_destination = Rd_Domain n, nr_permission = ProtocolPort protocol port\<rparr> = Inr ())
     \<longleftrightarrow> (\<exists>n. normalize_domain (pe_host_parse env) d = Inr n
           \<and> (\<exists>r \<in> set (vmf_rules m). ProtocolPort protocol port \<in> set (dr_permissions r) \<and> (dr_destination r = ExactDomain n
         \<or> (\<exists>s ls. dr_destination r = WildcardDomain s \<and> ls \<noteq> [] \<and> split_on dot n = ls @ split_on dot s))))"
    by (intro ex_cong1 conj_cong refl) (rule dom)
  ultimately show ?thesis unfolding ip by (simp only: conj_assoc simp_thms)
qed

text \<open>
  Claim C8. The whitelist authorizes exactly what it lists. Under a verified manifest a host name is
  authorized for a protocol and port if and only if the manifest is active, the name normalizes, and some
  rule lists that protocol and port and either names exactly that host or is a wildcard whose suffix
  labels are preceded by at least one further whole label. A raw address is authorized only by a rule for
  that very address, never by a domain rule.
\<close>

theorem authorize_iff_rule:
  assumes "verify_manifest env bs t ts p = Inr m"
  shows "(authorize_domain env m now d protocol port = Inr () \<longleftrightarrow>
      vmf_valid_from_ms m \<le> now \<and> now < vmf_expires_at_ms m \<and> port \<noteq> 0
      \<and> (\<exists>n. normalize_domain (pe_host_parse env) d = Inr n
           \<and> (\<exists>r \<in> set (vmf_rules m). ProtocolPort protocol port \<in> set (dr_permissions r)
                \<and> (dr_destination r = ExactDomain n
                   \<or> (\<exists>s ls. dr_destination r = WildcardDomain s \<and> ls \<noteq> [] \<and> split_on dot n = ls @ split_on dot s)))))
    \<and> (authorize_ip m now a protocol port = Inr () \<longleftrightarrow>
      vmf_valid_from_ms m \<le> now \<and> now < vmf_expires_at_ms m \<and> port \<noteq> 0
      \<and> (\<exists>r \<in> set (vmf_rules m). ProtocolPort protocol port \<in> set (dr_permissions r) \<and> dr_destination r = ExactIp a))"
  using assms by (rule authorize_rules)

section \<open>A signed specification verifies\<close>

lemma sorted_windows_strict:
  assumes "sorted (map f xs)" "\<not> list_ex (\<lambda>(a, b). f a = f b) (windows2 xs)"
  shows "strictly_sorted (map f xs)"
  using assms by (induction xs rule: induct_list012) auto

lemma sum_list_sort_key:
  fixes f :: "'a \<Rightarrow> nat"
  shows "sum_list (map f (sort_key k xs)) = sum_list (map f xs)"
proof -
  have "sum_list (map f (insort_key k x ys)) = f x + sum_list (map f ys)" for x ys
    by (induction ys) auto
  then show ?thesis by (induction xs) simp_all
qed

lemma trust_store_sorted:
  assumes "trust_store_new mode ms = Inr ts"
  shows "strictly_sorted (map tm_key_id (ts_maintainers ts))" "set (ts_maintainers ts) = set ms" "ts_maintainers ts \<noteq> []"
    "ts_mode ts = mode" "mode = Pm_Production \<Longrightarrow> k \<in> set ms \<Longrightarrow> tm_environment k = Me_Production"
proof -
  from assms have ts: "ts = \<lparr>ts_mode = mode, ts_maintainers = sort_key tm_key_id ms\<rparr>"
    and nd: "\<not> list_ex (\<lambda>(a, b). tm_key_id a = tm_key_id b) (windows2 (sort_key tm_key_id ms))" and "ms \<noteq> []"
    and dev: "\<not> (mode = Pm_Production \<and> list_ex (\<lambda>k. tm_environment k = Me_Development) ms)"
    by (auto simp: trust_store_new_def Let_def split: if_splits)
  show "strictly_sorted (map tm_key_id (ts_maintainers ts))" "set (ts_maintainers ts) = set ms" "ts_mode ts = mode"
    using sorted_windows_strict [OF sorted_sort_key nd] by (simp_all add: ts)
  show "ts_maintainers ts \<noteq> []" using \<open>ms \<noteq> []\<close> by (simp add: ts set_empty [symmetric] del: set_empty)
  show "mode = Pm_Production \<Longrightarrow> k \<in> set ms \<Longrightarrow> tm_environment k = Me_Production"
    using dev by (cases "tm_environment k") (auto simp: list_ex_iff)
qed

lemma sign_each_Inr:
  assumes "sign_each env ts input keys = Inr sigs"
  shows "sigs = map (\<lambda>k. \<lparr>msp_key_id = maintainer_id env (pk_public k), msp_signature = pk_sign k input\<rparr>) keys
    \<and> (\<forall>k \<in> set keys. \<exists>t. find_key ts (maintainer_id env (pk_public k)) = Some t \<and> tm_verifying_key t = pk_public k)"
  using assms by (induction keys arbitrary: sigs) (auto simp: result_simps Let_def)

definition body_input :: "policy_env \<Rightarrow> manifest_body_proto \<Rightarrow> bytes" where
  "body_input env body =
     manifest_signature_input (cd_encode (pe_body env) body) (pe_sha256 env (cd_encode (pe_body env) body))"

definition signature_items :: "policy_env \<Rightarrow> bytes \<Rightarrow> policy_key list \<Rightarrow> manifest_signature_proto list" where
  "signature_items env input keys = sort_key msp_key_id
     (map (\<lambda>k. \<lparr>msp_key_id = maintainer_id env (pk_public k), msp_signature = pk_sign k input\<rparr>) keys)"

lemma sign_manifest_Inr:
  assumes "sign_manifest env spec ts keys = Inr bs"
  obtains body where
    "validate_spec_for_signing spec ts = Inr ()" "body_from_spec spec ts = Inr body"
    "length (cd_encode (pe_body env) body) \<le> MAX_MANIFEST_BODY_BYTES"
    "\<forall>k \<in> set keys. \<exists>t. find_key ts (maintainer_id env (pk_public k)) = Some t \<and> tm_verifying_key t = pk_public k"
    "strictly_sorted (map msp_key_id (signature_items env (body_input env body) keys))"
    "bs = cd_encode (pe_signed env) \<lparr>sm_body = Some body, sm_body_hash = pe_sha256 env (cd_encode (pe_body env) body),
       sm_signatures = signature_items env (body_input env body) keys\<rparr>"
    "sp_required_signatures spec \<le> length keys" "length keys \<le> MAX_SIGNATURES" "length bs \<le> MAX_SIGNED_MANIFEST_BYTES"
proof -
  from assms obtain body us where h: "validate_spec_for_signing spec ts = Inr ()" "length keys \<le> MAX_SIGNATURES"
    "body_from_spec spec ts = Inr body" "length (cd_encode (pe_body env) body) \<le> MAX_MANIFEST_BODY_BYTES"
    "sign_each env ts (body_input env body) keys = Inr us"
    "\<not> list_ex (\<lambda>(a, b). msp_key_id a = msp_key_id b) (windows2 (sort_key msp_key_id us))"
    "sp_required_signatures spec \<le> length us"
    "bs = cd_encode (pe_signed env) \<lparr>sm_body = Some body, sm_body_hash = pe_sha256 env (cd_encode (pe_body env) body),
        sm_signatures = sort_key msp_key_id us\<rparr>" "length bs \<le> MAX_SIGNED_MANIFEST_BYTES"
    unfolding sign_manifest_def Let_def rbind_Inr_conv if_Inl_Inr_conv policy_encode_Inr body_input_def
    by (auto simp: not_less)
  note us = sign_each_Inr [OF h(5)]
  then have items: "sort_key msp_key_id us = signature_items env (body_input env body) keys" and "length us = length keys"
    by (simp_all add: signature_items_def)
  moreover note us [THEN conjunct2]
  moreover note sorted_windows_strict [OF sorted_sort_key h(6)]
  ultimately show thesis using that [OF h(1,3,4)] h(2,7,8,9) by simp
qed

lemma body_from_spec_Inr:
  assumes "body_from_spec spec ts = Inr body"
  shows "mb_schema_version body = MANIFEST_SCHEMA_VERSION" "mb_manifest_version body = sp_manifest_version spec"
    "mb_minimum_protocol_version body = sp_minimum_protocol_version spec" "mb_issued_at_ms body = sp_issued_at_ms spec"
    "mb_valid_from_ms body = sp_valid_from_ms spec" "mb_expires_at_ms body = sp_expires_at_ms spec"
    "mb_required_signatures body = sp_required_signatures spec"
    "mb_maintainers body = map maintainer_to_proto (ts_maintainers ts)"
    "mb_rules body = map rule_to_proto (sort_key dr_destination (sp_rules spec))"
  using assms by (auto simp: body_from_spec_def split: if_splits)

lemma spec_rules_decode:
  assumes "validate_rules (sp_rules spec) = Inr ()" "list_all (rule_ok (pe_host_parse env)) (sp_rules spec)"
    and "mb_rules body = map rule_to_proto (sort_key dr_destination (sp_rules spec))"
  shows "rules_from_body env body = Inr (sort_key dr_destination (sp_rules spec))"
proof -
  let ?rs = "sort_key dr_destination (sp_rules spec)"
  from assms(1) have v: "length (sp_rules spec) \<le> MAX_DESTINATION_RULES" "permission_count (sp_rules spec) \<le> MAX_TOTAL_PERMISSIONS"
    "\<not> list_ex (\<lambda>(a, b). dr_destination a = dr_destination b) (windows2 ?rs)"
    by (auto simp: validate_rules_def split: if_splits)
  have "strictly_sorted (map dr_destination ?rs)" by (rule sorted_windows_strict [OF sorted_sort_key v(3)])
  moreover have "permission_count ?rs = permission_count (sp_rules spec)"
    unfolding permission_count_def by (rule sum_list_sort_key)
  moreover have "list_all (rule_ok (pe_host_parse env)) ?rs" using assms(2) by (simp add: list_all_iff)
  ultimately show ?thesis
    unfolding rules_from_body_def assms(3) using v by (simp add: rules_from_wire_Inr)
qed

lemma spec_trust_embeds:
  assumes "strictly_sorted (map tm_key_id (ts_maintainers ts))" "vp_expected_maintainers p = length (ts_maintainers ts)"
    and "\<And>k. k \<in> set (ts_maintainers ts) \<Longrightarrow> embedded_ok env (ts_mode ts) (maintainer_to_proto k) k"
    and "mb_maintainers body = map maintainer_to_proto (ts_maintainers ts)"
    and "0 < mb_required_signatures body" "mb_required_signatures body \<le> length (ts_maintainers ts)"
  shows "validate_embedded_trust env body ts p = Inr ()"
proof -
  let ?zs = "zip (map maintainer_to_proto (ts_maintainers ts)) (ts_maintainers ts)"
  have zs: "?zs = map (\<lambda>k. (maintainer_to_proto k, k)) (ts_maintainers ts)" by (simp add: zip_map1 zip_same_conv_map)
  have "check_embedded env (ts_mode ts) None ?zs = Inr ()"
    unfolding check_embedded_Inr zs using assms(1,3) by (simp add: list_all_iff comp_def)
  then show ?thesis using assms by (simp add: validate_embedded_trust_def)
qed

text \<open>
  Claim C38. What the maintainers sign, nodes accept. If signing a specification with trusted keys produces
  bytes, then every node with the same trust root, whose local threshold does not exceed the number of
  signers and whose lifetime limit admits the window, accepts those bytes at every time in the window, and
  obtains the specified rules in canonical order, the specified threshold and window, and the
  number of signers. Hashes, keys and signatures have their fixed lengths, the keys' signatures
  verify, the codec decodes what it encoded, and host parsing leaves normalized names alone.
\<close>

theorem signed_manifest_verifies:
  assumes "sign_manifest env spec ts keys = Inr bs"
    and "trust_store_new mode (map (\<lambda>(k, e). trusted_maintainer_new env k e) roots) = Inr ts"
    and "\<And>b. length (pe_sha256 env b) = 32" and "\<And>k e. (k, e) \<in> set roots \<Longrightarrow> length k = 32"
    and "\<And>k msg. k \<in> set keys \<Longrightarrow> pe_verify_strict env (pk_public k) msg (pk_sign k msg) \<and> length (pk_sign k msg) = 64"
    and "list_all (rule_ok (pe_host_parse env)) (sp_rules spec)"
    and "\<And>s. cd_encode (pe_signed env) s = bs \<Longrightarrow> cd_decode (pe_signed env) bs = Some s" and "bs \<noteq> []"
    and "verification_policy_new minimum (length (ts_maintainers ts)) lifetime skew = Inr p" and "minimum \<le> length keys"
    and "sp_minimum_protocol_version spec \<le> POLICY_PROTOCOL_VERSION"
    and "sp_valid_from_ms spec \<le> now" "now < sp_expires_at_ms spec" "now \<le> u64_max"
    and "sp_expires_at_ms spec - sp_valid_from_ms spec \<le> lifetime"
  shows "\<exists>m. verify_manifest env bs now ts p = Inr m
    \<and> vmf_rules m = sort_key dr_destination (sp_rules spec)
    \<and> vmf_valid_from_ms m = sp_valid_from_ms spec \<and> vmf_expires_at_ms m = sp_expires_at_ms spec
    \<and> vmf_required_signatures m = sp_required_signatures spec \<and> vmf_verified_signatures m = length keys"
proof -
  from assms(1) obtain body where h: "validate_spec_for_signing spec ts = Inr ()" "body_from_spec spec ts = Inr body"
    "length (cd_encode (pe_body env) body) \<le> MAX_MANIFEST_BODY_BYTES"
    "\<forall>k \<in> set keys. \<exists>t. find_key ts (maintainer_id env (pk_public k)) = Some t \<and> tm_verifying_key t = pk_public k"
    "strictly_sorted (map msp_key_id (signature_items env (body_input env body) keys))"
    "bs = cd_encode (pe_signed env) \<lparr>sm_body = Some body, sm_body_hash = pe_sha256 env (cd_encode (pe_body env) body),
       sm_signatures = signature_items env (body_input env body) keys\<rparr>"
    "sp_required_signatures spec \<le> length keys" "length keys \<le> MAX_SIGNATURES" "length bs \<le> MAX_SIGNED_MANIFEST_BYTES"
    by (rule sign_manifest_Inr)
  let ?items = "signature_items env (body_input env body) keys"
  note b = body_from_spec_Inr [OF h(2)]
  note ts = trust_store_sorted [OF assms(2)]
  have roots: "embedded_ok env (ts_mode ts) (maintainer_to_proto k) k" if "k \<in> set (ts_maintainers ts)" for k
    using that ts(2,4) ts(5) [of k] assms(3,4) by (auto simp: embedded_ok_def trusted_maintainer_new_def maintainer_id_def)
  from h(1) have spec: "sp_manifest_version spec \<noteq> 0" "sp_minimum_protocol_version spec \<noteq> 0"
    "validate_time_order (sp_issued_at_ms spec) (sp_valid_from_ms spec) (sp_expires_at_ms spec) =
       Inr (sp_expires_at_ms spec - sp_valid_from_ms spec)"
    "sp_issued_at_ms spec \<le> sp_valid_from_ms spec" "0 < sp_required_signatures spec"
    "sp_required_signatures spec \<le> length (ts_maintainers ts)" "validate_rules (sp_rules spec) = Inr ()"
    by (auto simp: validate_spec_for_signing_def validate_time_order_def result_simps split: if_splits)
  have p: "p = \<lparr>vp_minimum_signatures = minimum, vp_expected_maintainers = length (ts_maintainers ts),
      vp_maximum_lifetime_ms = lifetime, vp_maximum_clock_skew_ms = skew\<rparr>"
    using assms(9) by (auto simp: verification_policy_new_def split: if_splits)
  have "validate_verification_context ts p = Inr ()"
    using assms(9) roots by (auto simp: validate_verification_context_def p list_ex_iff embedded_ok_def)
  moreover have "policy_decode (pe_signed env) bs MAX_SIGNED_MANIFEST_BYTES =
      Inr \<lparr>sm_body = Some body, sm_body_hash = pe_sha256 env (cd_encode (pe_body env) body), sm_signatures = ?items\<rparr>"
    unfolding policy_decode_Inr using assms(7,8) h(6,9) by simp
  moreover have "validate_body_header body now p = Inr ()"
    using spec assms(11-15) by (simp add: validate_body_header_def b p saturating_add_u64_def)
  moreover have "validate_embedded_trust env body ts p = Inr ()"
    using spec roots ts(1) b by (intro spec_trust_embeds) (simp_all add: p)
  moreover have "rules_from_body env body = Inr (sort_key dr_destination (sp_rules spec))"
    by (rule spec_rules_decode [OF spec(7) assms(6) b(9)])
  moreover have "verify_signatures env ?items (cd_encode (pe_body env) body) (pe_sha256 env (cd_encode (pe_body env) body)) ts
      = Inr (length keys)"
  proof -
    have "item_valid env ts (body_input env body) \<lparr>msp_key_id = maintainer_id env (pk_public k), msp_signature = pk_sign k (body_input env body)\<rparr>"
      if "k \<in> set keys" for k
      using h(4) assms(3,5) that by (auto simp: item_valid_def maintainer_id_def)
    then have ok: "list_all (item_valid env ts (body_input env body)) ?items"
      by (auto simp: list_all_iff signature_items_def)
    have "length ?items \<le> length (ts_maintainers ts)"
      using distinct_signers [OF h(5) ok] card_length [of "ts_maintainers ts"]
        card_mono [of "set (ts_maintainers ts)" "{k \<in> set (ts_maintainers ts). signed_by env (body_input env body) ?items k}"]
      by fastforce
    then show ?thesis
      using ok h(5,8) unfolding verify_signatures_def body_input_def [symmetric]
      by (simp add: count_signatures_Inr) (simp add: signature_items_def)
  qed
  ultimately show ?thesis
    using h(3,7) assms(3,10) by (simp add: verify_manifest_def policy_encode_def b p Let_def not_less)
qed

section \<open>A concrete manifest\<close>

definition demo_policy_base :: policy_env where
  "demo_policy_base =
     \<lparr>pe_body = \<lparr>cd_encode = (\<lambda>_. [7]), cd_decode = (\<lambda>_. None)\<rparr>, pe_signed = table_codec [],
      pe_sha256 = (\<lambda>b. replicate 32 (if b = [] then 0 else last b)),
      pe_verify_strict = (\<lambda>k _ s. s = replicate 64 (hd k)),
      pe_host_parse = (\<lambda>t. if t = lit ''10.0.0.1'' then Some Host_Ipv4 else Some (Host_Domain t))\<rparr>"

definition demo_roots :: "(bytes \<times> maintainer_environment) list" where
  "demo_roots = [(replicate 32 2, Me_Production), (replicate 32 1, Me_Production)]"

definition demo_trust :: trust_store where
  "demo_trust = projr (trust_store_new Pm_Production (map (\<lambda>(k, e). trusted_maintainer_new demo_policy_base k e) demo_roots))"

definition demo_spec :: manifest_spec where
  "demo_spec = \<lparr>sp_manifest_version = 1, sp_minimum_protocol_version = 2, sp_issued_at_ms = 1000, sp_valid_from_ms = 1000,
     sp_expires_at_ms = 5000, sp_required_signatures = 2,
     sp_rules = [\<lparr>dr_destination = ExactIp (V4 10 0 0 1), dr_permissions = [ProtocolPort Udp 53]\<rparr>,
       \<lparr>dr_destination = WildcardDomain (lit ''example.org''), dr_permissions = [ProtocolPort Tcp 443]\<rparr>,
       \<lparr>dr_destination = ExactDomain (lit ''example.com''), dr_permissions = [ProtocolPort Tcp 80, ProtocolPort Tcp 443, ProtocolPort Udp 443]\<rparr>]\<rparr>"

definition demo_policy_keys :: "policy_key list" where
  "demo_policy_keys = map (\<lambda>b. \<lparr>pk_public = replicate 32 b, pk_sign = (\<lambda>_. replicate 64 b)\<rparr>) [2, 1]"

definition demo_policy_env :: policy_env where
  "demo_policy_env = demo_policy_base\<lparr>pe_signed := table_codec
     [(\<lparr>sm_body = Some (projr (body_from_spec demo_spec demo_trust)), sm_body_hash = replicate 32 7,
        sm_signatures = [\<lparr>msp_key_id = replicate 32 1, msp_signature = replicate 64 1\<rparr>,
                         \<lparr>msp_key_id = replicate 32 2, msp_signature = replicate 64 2\<rparr>]\<rparr>, [8])]\<rparr>"

definition demo_verification :: verification_policy where
  "demo_verification = \<lparr>vp_minimum_signatures = 2, vp_expected_maintainers = 2, vp_maximum_lifetime_ms = 10000,
     vp_maximum_clock_skew_ms = 60\<rparr>"

definition demo_manifest :: verified_manifest where
  "demo_manifest = projr (verify_manifest demo_policy_env [8] 2000 demo_trust demo_verification)"

lemma demo_manifest_verified: "verify_manifest demo_policy_env [8] 2000 demo_trust demo_verification = Inr demo_manifest"
proof -
  have "is_ok (verify_manifest demo_policy_env [8] 2000 demo_trust demo_verification)" by code_simp
  then show ?thesis by (auto simp: demo_manifest_def is_ok_conv)
qed

definition demo_signatures :: "manifest_signature_proto list" where
  "demo_signatures = [\<lparr>msp_key_id = replicate 32 1, msp_signature = replicate 64 1\<rparr>,
                      \<lparr>msp_key_id = replicate 32 2, msp_signature = replicate 64 2\<rparr>]"

lemma demo_signed_decode:
  "cd_decode (pe_signed demo_policy_env) [8] =
     Some \<lparr>sm_body = Some (projr (body_from_spec demo_spec demo_trust)), sm_body_hash = replicate 32 7, sm_signatures = demo_signatures\<rparr>"
  by (simp add: demo_policy_env_def demo_signatures_def table_codec_def)

theorem verify_manifest_threshold_witness:
  "2 \<le> card {k \<in> set (ts_maintainers demo_trust). signed_by demo_policy_env
        (MANIFEST_SIGNATURE_DOMAIN @ replicate 32 7 @ [7]) demo_signatures k}
    \<and> map rule_to_proto (vmf_rules demo_manifest) = mb_rules (projr (body_from_spec demo_spec demo_trust))"
proof -
  have "cd_encode (pe_body demo_policy_env) b = [7]" for b by (simp add: demo_policy_env_def demo_policy_base_def)
  moreover have "vp_minimum_signatures demo_verification = 2" by (simp add: demo_verification_def)
  ultimately show ?thesis
    using verify_manifest_threshold [OF demo_manifest_verified] unfolding demo_signed_decode by auto
qed

lemma demo_manifest_window: "vmf_valid_from_ms demo_manifest = 1000" "vmf_expires_at_ms demo_manifest = 5000"
  by code_simp+

theorem authorize_iff_rule_witness:
  "authorize_domain demo_policy_env demo_manifest 3000 (lit ''a.example.org'') Tcp 443 = Inr ()
    \<and> authorize_domain demo_policy_env demo_manifest 3000 (lit ''example.org'') Tcp 443 \<noteq> Inr ()
    \<and> authorize_ip demo_manifest 3000 (V4 10 0 0 1) Udp 53 = Inr ()"
proof -
  note a = authorize_iff_rule [OF demo_manifest_verified]
  let ?w = "\<lparr>dr_destination = WildcardDomain (lit ''example.org''), dr_permissions = [ProtocolPort Tcp 443]\<rparr>"
  let ?i = "\<lparr>dr_destination = ExactIp (V4 10 0 0 1), dr_permissions = [ProtocolPort Udp 53]\<rparr>"
  have w: "?w \<in> set (vmf_rules demo_manifest)" "?i \<in> set (vmf_rules demo_manifest)"
    "normalize_domain (pe_host_parse demo_policy_env) (lit ''a.example.org'') = Inr (lit ''a.example.org'')"
    "split_on dot (lit ''a.example.org'') = [lit ''a''] @ split_on dot (lit ''example.org'')"
    by code_simp+
  have "authorize_domain demo_policy_env demo_manifest 3000 (lit ''a.example.org'') Tcp 443 = Inr ()"
    unfolding a [THEN conjunct1] using w(1,3,4) demo_manifest_window
    by (intro conjI exI [of _ "lit ''a.example.org''"] bexI [OF _ w(1)] disjI2 exI [of _ "lit ''example.org''"]
          exI [of _ "[lit ''a'']"]) simp_all
  moreover have "authorize_ip demo_manifest 3000 (V4 10 0 0 1) Udp 53 = Inr ()"
    unfolding a [THEN conjunct2] using demo_manifest_window by (intro conjI bexI [OF _ w(2)]) simp_all
  moreover have "authorize_domain demo_policy_env demo_manifest 3000 (lit ''example.org'') Tcp 443 \<noteq> Inr ()"
    by code_simp
  ultimately show ?thesis by blast
qed

theorem signed_manifest_verifies_witness:
  "\<exists>bs m. sign_manifest demo_policy_env demo_spec demo_trust demo_policy_keys = Inr bs
    \<and> verify_manifest demo_policy_env bs 4999 demo_trust demo_verification = Inr m
    \<and> vmf_rules m = sort_key dr_destination (sp_rules demo_spec)"
proof -
  have s: "sign_manifest demo_policy_env demo_spec demo_trust demo_policy_keys = Inr [8]" by code_simp
  have ts: "trust_store_new Pm_Production (map (\<lambda>(k, e). trusted_maintainer_new demo_policy_env k e) demo_roots) = Inr demo_trust"
    by code_simp
  have p: "verification_policy_new 2 (length (ts_maintainers demo_trust)) 10000 60 = Inr demo_verification" by code_simp
  have "list_all (rule_ok (pe_host_parse demo_policy_env)) (sp_rules demo_spec)"
    "sp_minimum_protocol_version demo_spec \<le> POLICY_PROTOCOL_VERSION"
    "sp_valid_from_ms demo_spec \<le> 4999" "4999 < sp_expires_at_ms demo_spec" "(4999::nat) \<le> u64_max"
    "sp_expires_at_ms demo_spec - sp_valid_from_ms demo_spec \<le> 10000" "2 \<le> length demo_policy_keys"
    by code_simp+
  moreover have "cd_decode (pe_signed demo_policy_env) [8] = Some s" if "cd_encode (pe_signed demo_policy_env) s = [8]" for s
    using that by (auto simp: demo_policy_env_def table_codec_def split: option.splits if_splits)
  moreover have "length (pe_sha256 demo_policy_env b) = 32" for b by (simp add: demo_policy_env_def demo_policy_base_def)
  moreover have "length k = 32" if "(k, e) \<in> set demo_roots" for k e using that by (auto simp: demo_roots_def)
  moreover have "pe_verify_strict demo_policy_env (pk_public k) msg (pk_sign k msg) \<and> length (pk_sign k msg) = 64"
    if "k \<in> set demo_policy_keys" for k msg
    using that by (auto simp: demo_policy_keys_def demo_policy_env_def demo_policy_base_def)
  ultimately have "\<exists>m. verify_manifest demo_policy_env [8] 4999 demo_trust demo_verification = Inr m
    \<and> vmf_rules m = sort_key dr_destination (sp_rules demo_spec)
    \<and> vmf_valid_from_ms m = sp_valid_from_ms demo_spec \<and> vmf_expires_at_ms m = sp_expires_at_ms demo_spec
    \<and> vmf_required_signatures m = sp_required_signatures demo_spec \<and> vmf_verified_signatures m = length demo_policy_keys"
    by (intro signed_manifest_verifies [OF s ts _ _ _ _ _ _ p]) auto
  with s show ?thesis by blast
qed

end
