(* ===== verification/Flow_Authorize.thy ===== *)
theory Flow_Authorize
  imports Route_Verify Policy_Correct
begin

text \<open>
  Opening a flow: a client-signed request is checked against the verified route, the replay cache and the
  active whitelist (\<^verbatim>\<open>crates/volparossa-tcp-proxy/src/authorization.rs\<close> and
  \<^verbatim>\<open>crates/volparossa-udp/src/authorization.rs\<close>), and an authorized UDP destination is resolved and pinned.
  The resolver is a parameter: the addresses it returns, or the error it fails with.
\<close>

unbundle bit_operations_syntax

section \<open>Verify, authorize, roll back\<close>

definition verify_then ::
  "control_env \<Rightarrow> 'm control_payload \<Rightarrow> (protocol_error \<Rightarrow> 'e) \<Rightarrow> ('m verified_control_message \<Rightarrow> 'e + 'f)
     \<Rightarrow> bytes \<Rightarrow> nat \<Rightarrow> time_policy \<Rightarrow> replay_cache \<Rightarrow> ('e + 'f) \<times> replay_cache" where
  "verify_then env p from_protocol authorize encoded now_ms policy cache =
     (case verify_control_message env p encoded now_ms policy cache of
        (Inl err, cache1) \<Rightarrow> (Inl (from_protocol err), cache1)
      | (Inr verified, cache1) \<Rightarrow>
          let authorized = authorize verified in
          (authorized, if is_ok authorized then cache1
                       else snd (rollback (vm_sender_id verified) (vm_nonce verified) cache1)))"

section \<open>TCP\<close>

record tcp_authorization_scope =
  ts_route_context_id :: bytes
  ts_client_ephemeral_id :: bytes
  ts_policy :: verified_manifest

definition tcp_scope_new :: "verified_mptcp_route \<Rightarrow> verified_manifest \<Rightarrow> tcp_authorization_scope" where
  "tcp_scope_new route policy =
     \<lparr>ts_route_context_id = vr_route_context_id route, ts_client_ephemeral_id = vr_client_ephemeral_id route,
      ts_policy = policy\<rparr>"

record authorized_tcp_flow =
  tf_route_context_id :: bytes
  tf_flow_id :: bytes
  tf_client_ephemeral_id :: bytes
  tf_hostname :: "utext option"
  tf_destination_ip :: "ip_addr option"
  tf_port :: nat
  tf_expires_at_ms :: nat

definition tcp_destination ::
  "policy_env \<Rightarrow> verified_manifest \<Rightarrow> open_tcp \<Rightarrow> nat \<Rightarrow> nat \<Rightarrow> tcp_proxy_error + utext option \<times> ip_addr option" where
  "tcp_destination env manifest message port now_ms =
     (if ot_hostname message = [] then
        rbind (ok_or (parse_ip_bytes (ot_destination_ip message)) (Tp_InvalidBinding ''destination IP'')) (\<lambda>destination_ip.
        rbind (map_err Tp_Policy (authorize_ip manifest now_ms destination_ip Tcp port)) (\<lambda>_.
        Inr (None, Some destination_ip)))
      else
        rbind (map_err Tp_Policy (authorize_domain env manifest now_ms (ot_hostname message) Tcp port)) (\<lambda>_.
        if ot_destination_ip message = [] then Inr (Some (ot_hostname message), None) else
        rbind (ok_or (parse_ip_bytes (ot_destination_ip message)) (Tp_InvalidBinding ''destination IP'')) (\<lambda>destination_ip.
        Inr (Some (ot_hostname message), Some destination_ip))))"

definition tcp_authorize_verified ::
  "policy_env \<Rightarrow> tcp_authorization_scope \<Rightarrow> nat \<Rightarrow> open_tcp verified_control_message \<Rightarrow> tcp_proxy_error + authorized_tcp_flow" where
  "tcp_authorize_verified env scope now_ms verified =
     (let message = vm_message verified in
      rbind (same Tp_InvalidBinding (ot_route_context_id message) (ts_route_context_id scope) ''route context'') (\<lambda>_.
      rbind (same Tp_InvalidBinding (ot_client_ephemeral_id message) (ts_client_ephemeral_id scope) ''client session identity'') (\<lambda>_.
      rbind (same Tp_InvalidBinding (vm_sender_id verified) (ts_client_ephemeral_id scope) ''signed client identity'') (\<lambda>_.
      rbind (same Tp_InvalidBinding (ot_policy_hash message) (vmf_policy_hash (ts_policy scope)) ''policy hash'') (\<lambda>_.
      if ot_port message > 65535 then Inl (Tp_InvalidBinding ''destination port'') else
      rbind (tcp_destination env (ts_policy scope) message (ot_port message) now_ms) (\<lambda>(hostname, destination_ip).
      rbind (array Tp_InvalidBinding 16 (ot_route_context_id message) ''route context'') (\<lambda>route_context_id.
      rbind (array Tp_InvalidBinding 16 (ot_flow_id message) ''flow id'') (\<lambda>flow_id.
      rbind (array Tp_InvalidBinding 32 (ot_client_ephemeral_id message) ''client session identity'') (\<lambda>client_ephemeral_id.
      Inr \<lparr>tf_route_context_id = route_context_id, tf_flow_id = flow_id, tf_client_ephemeral_id = client_ephemeral_id,
           tf_hostname = hostname, tf_destination_ip = destination_ip, tf_port = ot_port message,
           tf_expires_at_ms = vm_expires_at_ms verified\<rparr>)))))))))"

definition tcp_verify ::
  "control_env \<Rightarrow> open_tcp codec \<Rightarrow> policy_env \<Rightarrow> tcp_authorization_scope \<Rightarrow> bytes \<Rightarrow> nat \<Rightarrow> time_policy \<Rightarrow> replay_cache
     \<Rightarrow> (tcp_proxy_error + authorized_tcp_flow) \<times> replay_cache" where
  "tcp_verify env codec penv scope encoded now_ms policy cache =
     verify_then env (open_tcp_payload codec) Tp_Protocol (tcp_authorize_verified penv scope now_ms) encoded now_ms policy cache"

definition tcp_flow_ensure_active_at :: "authorized_tcp_flow \<Rightarrow> nat \<Rightarrow> tcp_proxy_error + unit" where
  "tcp_flow_ensure_active_at flow now_ms = (if now_ms \<ge> tf_expires_at_ms flow then Inl Tp_Expired else Inr ())"

text \<open>
  Reading one frame from the stream and verifying it; the bytes after the frame stay unread. A zero timeout is
  refused before anything is read.
\<close>

definition read_authorized_open_tcp ::
  "control_env \<Rightarrow> open_tcp codec \<Rightarrow> policy_env \<Rightarrow> tcp_authorization_scope \<Rightarrow> bytes \<Rightarrow> nat \<Rightarrow> time_policy \<Rightarrow> nat \<Rightarrow> replay_cache
     \<Rightarrow> (tcp_proxy_error + authorized_tcp_flow \<times> bytes) \<times> replay_cache" where
  "read_authorized_open_tcp env codec penv scope stream now_ms policy timeout cache =
     (if timeout = 0 then (Inl (Tp_InvalidBinding ''OPEN_TCP read timeout''), cache) else
      case read_control_frame stream of
        Inl Fe_UnexpectedEof \<Rightarrow> (Inl Tp_Io, cache)
      | Inl (Fe_Protocol err) \<Rightarrow> (Inl (Tp_Protocol err), cache)
      | Inr (payload, rest) \<Rightarrow>
          (case tcp_verify env codec penv scope payload now_ms policy cache of
             (Inl err, cache') \<Rightarrow> (Inl err, cache')
           | (Inr flow, cache') \<Rightarrow> (Inr (flow, rest), cache')))"

section \<open>UDP\<close>

record udp_authorization_scope =
  us_route_context_id :: bytes
  us_client_ephemeral_id :: bytes
  us_route_expires_at_ms :: nat
  us_policy :: verified_manifest

definition udp_scope_new :: "verified_single_relay_path \<Rightarrow> verified_manifest \<Rightarrow> udp_authorization_scope" where
  "udp_scope_new path policy =
     \<lparr>us_route_context_id = vs_route_context_id path, us_client_ephemeral_id = vs_client_ephemeral_id path,
      us_route_expires_at_ms = vs_expires_at_ms path, us_policy = policy\<rparr>"

definition new_multipath :: "bytes \<Rightarrow> bytes \<Rightarrow> nat \<Rightarrow> verified_manifest \<Rightarrow> udp_error + udp_authorization_scope" where
  "new_multipath route_context_id client_ephemeral_id route_expires_at_ms policy =
     (if all_zero route_context_id \<or> all_zero client_ephemeral_id \<or> route_expires_at_ms = 0
      then Inl (Ud_InvalidBinding ''multipath route scope'')
      else Inr \<lparr>us_route_context_id = route_context_id, us_client_ephemeral_id = client_ephemeral_id,
                us_route_expires_at_ms = route_expires_at_ms, us_policy = policy\<rparr>)"

datatype authorized_destination =
    Ad_Hostname utext "ip_addr option"
  | Ad_DnsHostname utext
  | Ad_Ip ip_addr

record authorized_udp_flow =
  uw_route_context_id :: bytes
  uw_flow_id :: bytes
  uw_client_ephemeral_id :: bytes
  uw_destination :: authorized_destination
  uw_port :: nat
  uw_idle_timeout_ms :: nat
  uw_expires_at_ms :: nat

definition udp_parse_ip :: "bytes \<Rightarrow> udp_error + ip_addr" where
  "udp_parse_ip bs =
     (case bs of [a, b, c, d] \<Rightarrow> Inr (V4 a b c d)
      | _ \<Rightarrow> if length bs = 16 then Inr (V6 bs) else Inl (Ud_InvalidBinding ''destination IP''))"

definition udp_destination ::
  "policy_env \<Rightarrow> verified_manifest \<Rightarrow> udp_flow_authorization \<Rightarrow> nat \<Rightarrow> nat \<Rightarrow> udp_error + authorized_destination" where
  "udp_destination env manifest message port now_ms =
     (if uf_hostname message = [] then
        rbind (udp_parse_ip (uf_destination_ip message)) (\<lambda>address.
        rbind (map_err Ud_Policy (authorize_ip manifest now_ms address Udp port)) (\<lambda>_. Inr (Ad_Ip address)))
      else if port = 53 then
        rbind (map_err Ud_Policy (authorize_dns_name env manifest now_ms (uf_hostname message))) (\<lambda>hostname.
        Inr (Ad_DnsHostname hostname))
      else
        rbind (map_err Ud_Policy (authorize_domain env manifest now_ms (uf_hostname message) Udp port)) (\<lambda>_.
        if uf_destination_ip message = [] then Inr (Ad_Hostname (uf_hostname message) None) else
        rbind (udp_parse_ip (uf_destination_ip message)) (\<lambda>address.
        Inr (Ad_Hostname (uf_hostname message) (Some address)))))"

definition udp_authorize_verified ::
  "policy_env \<Rightarrow> udp_authorization_scope \<Rightarrow> nat \<Rightarrow> udp_flow_authorization verified_control_message
     \<Rightarrow> udp_error + authorized_udp_flow" where
  "udp_authorize_verified env scope now_ms verified =
     (let message = vm_message verified in
      rbind (same Ud_InvalidBinding (uf_route_context_id message) (us_route_context_id scope) ''route context'') (\<lambda>_.
      rbind (same Ud_InvalidBinding (uf_client_ephemeral_id message) (us_client_ephemeral_id scope) ''client session identity'') (\<lambda>_.
      rbind (same Ud_InvalidBinding (vm_sender_id verified) (us_client_ephemeral_id scope) ''signed client identity'') (\<lambda>_.
      rbind (same Ud_InvalidBinding (uf_policy_hash message) (vmf_policy_hash (us_policy scope)) ''policy hash'') (\<lambda>_.
      if uf_port message > 65535 then Inl (Ud_InvalidBinding ''destination port'') else
      rbind (udp_destination env (us_policy scope) message (uf_port message) now_ms) (\<lambda>destination.
      rbind (array Ud_InvalidBinding 16 (uf_route_context_id message) ''route context'') (\<lambda>route_context_id.
      rbind (array Ud_InvalidBinding 16 (uf_flow_id message) ''flow id'') (\<lambda>flow_id.
      rbind (array Ud_InvalidBinding 32 (uf_client_ephemeral_id message) ''client session identity'') (\<lambda>client_ephemeral_id.
      Inr \<lparr>uw_route_context_id = route_context_id, uw_flow_id = flow_id, uw_client_ephemeral_id = client_ephemeral_id,
           uw_destination = destination, uw_port = uf_port message, uw_idle_timeout_ms = uf_idle_timeout_ms message,
           uw_expires_at_ms = min (vm_expires_at_ms verified) (us_route_expires_at_ms scope)\<rparr>)))))))))"

definition udp_verify ::
  "control_env \<Rightarrow> udp_flow_authorization codec \<Rightarrow> policy_env \<Rightarrow> udp_authorization_scope \<Rightarrow> bytes \<Rightarrow> nat \<Rightarrow> time_policy \<Rightarrow> replay_cache
     \<Rightarrow> (udp_error + authorized_udp_flow) \<times> replay_cache" where
  "udp_verify env codec penv scope encoded now_ms policy cache =
     verify_then env (udp_flow_payload codec) Ud_Protocol (udp_authorize_verified penv scope now_ms) encoded now_ms policy cache"

definition udp_flow_ensure_active_at :: "authorized_udp_flow \<Rightarrow> nat \<Rightarrow> udp_error + unit" where
  "udp_flow_ensure_active_at flow now_ms = (if now_ms \<ge> uw_expires_at_ms flow then Inl Ud_Expired else Inr ())"

definition matches_exact_ip_destination :: "authorized_udp_flow \<Rightarrow> ip_addr \<Rightarrow> nat \<Rightarrow> bool" where
  "matches_exact_ip_destination flow address port \<longleftrightarrow>
     uw_port flow = port \<and>
     (case uw_destination flow of
        Ad_Hostname _ (Some a) \<Rightarrow> a = address
      | Ad_Ip a \<Rightarrow> a = address
      | Ad_Hostname _ None \<Rightarrow> False
      | Ad_DnsHostname _ \<Rightarrow> False)"

section \<open>Permitted egress\<close>

definition permitted_v4 :: "byte \<Rightarrow> byte \<Rightarrow> byte \<Rightarrow> byte \<Rightarrow> bool" where
  "permitted_v4 a b c d \<longleftrightarrow>
     (let is_unspecified = a = 0 \<and> b = 0 \<and> c = 0 \<and> d = 0;
          is_loopback = a = 127;
          is_private = a = 10 \<or> (a = 172 \<and> b \<ge> 16 \<and> b \<le> 31) \<or> (a = 192 \<and> b = 168);
          is_link_local = a = 169 \<and> b = 254;
          is_multicast = a \<ge> 224 \<and> a \<le> 239;
          is_broadcast = a = 255 \<and> b = 255 \<and> c = 255 \<and> d = 255;
          is_documentation = (a = 192 \<and> b = 0 \<and> c = 2) \<or> (a = 198 \<and> b = 51 \<and> c = 100) \<or> (a = 203 \<and> b = 0 \<and> c = 113) in
      \<not> (is_unspecified \<or> is_loopback \<or> is_private \<or> is_link_local \<or> is_multicast \<or> is_broadcast \<or> is_documentation
         \<or> a = 0 \<or> a \<ge> 240 \<or> (a = 100 \<and> b \<ge> 64 \<and> b \<le> 127) \<or> (a = 198 \<and> b \<ge> 18 \<and> b \<le> 19)))"

definition permitted_v6 :: "byte list \<Rightarrow> bool" where
  "permitted_v6 os \<longleftrightarrow>
     (if take 12 os = replicate 10 0 @ [0xff, 0xff] then permitted_v4 (os ! 12) (os ! 13) (os ! 14) (os ! 15)
      else
        (let is_unspecified = os = replicate 16 0;
             is_loopback = os = replicate 15 0 @ [1];
             is_multicast = os ! 0 = 0xff;
             is_unique_local = os ! 0 AND 0xfe = 0xfc;
             is_unicast_link_local = os ! 0 = 0xfe \<and> os ! 1 AND 0xc0 = 0x80 in
         \<not> (is_unspecified \<or> is_loopback \<or> is_multicast \<or> is_unique_local \<or> is_unicast_link_local
            \<or> take 4 os = [0x20, 0x01, 0x0d, 0xb8])))"

definition is_permitted_egress :: "ip_addr \<Rightarrow> bool" where
  "is_permitted_egress address = (case address of V4 a b c d \<Rightarrow> permitted_v4 a b c d | V6 os \<Rightarrow> permitted_v6 os)"

definition MAX_RESOLUTION_RESULTS :: nat where
  "MAX_RESOLUTION_RESULTS = 16"

record pinned_udp_flow =
  pw_flow_id :: bytes
  pw_address :: ip_addr
  pw_port :: nat
  pw_expires_at_ms :: nat

definition pin_address :: "(utext \<Rightarrow> udp_error + ip_addr list) \<Rightarrow> authorized_destination \<Rightarrow> udp_error + ip_addr" where
  "pin_address resolve destination =
     (case destination of
        Ad_Ip address \<Rightarrow> if \<not> is_permitted_egress address then Inl Ud_ResolutionFailed else Inr address
      | Ad_Hostname hostname pinned_address \<Rightarrow>
          rbind (resolve hostname) (\<lambda>addresses.
          (case pinned_address of
             Some pinned \<Rightarrow>
               if is_permitted_egress pinned
               then ok_or (find (\<lambda>a. a = pinned) (take MAX_RESOLUTION_RESULTS addresses)) Ud_ResolutionFailed
               else Inl Ud_ResolutionFailed
           | None \<Rightarrow> ok_or (find is_permitted_egress (take MAX_RESOLUTION_RESULTS addresses)) Ud_ResolutionFailed))
      | Ad_DnsHostname _ \<Rightarrow> Inl (Ud_InvalidBinding ''DNS flow cannot open UDP egress''))"

definition resolve_and_pin ::
  "(utext \<Rightarrow> udp_error + ip_addr list) \<Rightarrow> authorized_udp_flow \<Rightarrow> nat \<Rightarrow> udp_error + pinned_udp_flow" where
  "resolve_and_pin resolve flow now_ms =
     rbind (udp_flow_ensure_active_at flow now_ms) (\<lambda>_.
     rbind (pin_address resolve (uw_destination flow)) (\<lambda>address.
     Inr \<lparr>pw_flow_id = uw_flow_id flow, pw_address = address, pw_port = uw_port flow,
          pw_expires_at_ms = uw_expires_at_ms flow\<rparr>))"

section \<open>Every verifier is atomic on the cache\<close>

lemma verify_then_effect:
  assumes "verify_then env p f authorize encoded now policy c = (r, c')"
  shows "case r of Inl e \<Rightarrow> c' = c \<or> c' = with_entries now c []
    | Inr a \<Rightarrow> \<exists>v. verify_payload env p encoded now policy = Inr v \<and> authorize v = Inr a
        \<and> fresh_entries now c [replay_entry v] \<and> c' = with_entries now c [replay_entry v]"
proof -
  obtain r1 c1 where v: "verify_control_message env p encoded now policy c = (r1, c1)" by (rule prod.exhaust)
  note eff = verify_message_effect [OF v]
  show ?thesis
  proof (cases r1)
    case (Inl e)
    then have "r = Inl (f e)" "c' = c1" using assms v by (simp_all add: verify_then_def)
    with eff Inl show ?thesis by simp
  next
    case (Inr m)
    then have e: "c1 = with_entries now c [replay_entry m]" "fresh_entries now c [replay_entry m]"
      "verify_payload env p encoded now policy = Inr m" using eff by simp_all
    have r: "r = authorize m" "c' = (if is_ok r then c1 else snd (rollback (vm_sender_id m) (vm_nonce m) c1))"
      using assms v Inr by (auto simp: verify_then_def Let_def)
    show ?thesis
    proof (cases r)
      case (Inl err)
      have "c' = with_entries now c []"
        using r(2) rollback_with [OF e(2)] unfolding Inl e(1) by (simp add: is_ok_conv)
      then show ?thesis unfolding Inl by simp
    next
      case (Inr a)
      have "c' = c1" using r(2) unfolding Inr by (simp add: is_ok_conv)
      moreover have "authorize m = Inr a" using r(1) Inr by simp
      ultimately show ?thesis unfolding Inr sum.case using e by blast
    qed
  qed
qed

lemma verify_then_Inr:
  "fst (verify_then env p f authorize encoded now policy c) = Inr a \<longleftrightarrow>
     (\<exists>v. fst (verify_control_message env p encoded now policy c) = Inr v \<and> authorize v = Inr a)"
  by (auto simp: verify_then_def Let_def split: prod.splits sum.splits)

interpretation tcp_flow: replay_atomic
  "\<lambda>(env, codec, penv, scope, encoded, policy) now c. tcp_verify env codec penv scope encoded now policy c"
  by unfold_locales (auto simp: tcp_verify_def dest!: verify_then_effect)

interpretation udp_flow: replay_atomic
  "\<lambda>(env, codec, penv, scope, encoded, policy) now c. udp_verify env codec penv scope encoded now policy c"
  by unfold_locales (auto simp: udp_verify_def dest!: verify_then_effect)

section \<open>What an authorized flow stands for\<close>

lemma same_Inr [result_simps]: "same b x y f = Inr u \<longleftrightarrow> x = y"
  by (simp add: same_def)

lemma open_tcp_fields:
  assumes "message_authentic env (open_tcp_payload codec) encoded now policy e m"
  shows "se_sender_id e = ot_client_ephemeral_id m" "se_expires_at_ms e = ot_expires_at_ms m"
    "length (ot_route_context_id m) = 16" "length (ot_flow_id m) = 16" "length (ot_client_ephemeral_id m) = 32"
    "1 \<le> ot_port m" "ot_port m \<le> 65535" "ot_hostname m = [] \<longrightarrow> parse_ip_bytes (ot_destination_ip m) \<noteq> None"
    "ot_destination_ip m \<noteq> [] \<longrightarrow> parse_ip_bytes (ot_destination_ip m) \<noteq> None"
  using assms by (auto simp: message_authentic_def payload_accepted_def open_tcp_payload_def open_tcp_validate_envelope_def
      open_tcp_validate_def require_nonzero_length_def validate_port_def ID_LENGTH_def HASH_LENGTH_def result_simps
      split: if_splits)

definition tcp_flow_of :: "open_tcp \<Rightarrow> authorized_tcp_flow" where
  "tcp_flow_of m =
     \<lparr>tf_route_context_id = ot_route_context_id m, tf_flow_id = ot_flow_id m, tf_client_ephemeral_id = ot_client_ephemeral_id m,
      tf_hostname = (if ot_hostname m = [] then None else Some (ot_hostname m)),
      tf_destination_ip = (if ot_destination_ip m = [] then None else parse_ip_bytes (ot_destination_ip m)),
      tf_port = ot_port m, tf_expires_at_ms = ot_expires_at_ms m\<rparr>"

definition tcp_destination_allowed :: "policy_env \<Rightarrow> verified_manifest \<Rightarrow> open_tcp \<Rightarrow> nat \<Rightarrow> bool" where
  "tcp_destination_allowed env manifest m now \<longleftrightarrow>
     (if ot_hostname m = []
      then \<exists>a. parse_ip_bytes (ot_destination_ip m) = Some a \<and> authorize_ip manifest now a Tcp (ot_port m) = Inr ()
      else authorize_domain env manifest now (ot_hostname m) Tcp (ot_port m) = Inr ())"

lemma tcp_authorize_Inr:
  assumes "message_authentic env (open_tcp_payload codec) encoded now policy e m"
  shows "tcp_authorize_verified penv scope now (verified_of e m) = Inr f \<longleftrightarrow>
    ot_route_context_id m = ts_route_context_id scope \<and> ot_client_ephemeral_id m = ts_client_ephemeral_id scope
    \<and> ot_policy_hash m = vmf_policy_hash (ts_policy scope)
    \<and> tcp_destination_allowed penv (ts_policy scope) m now \<and> f = tcp_flow_of m"
proof -
  note f = open_tcp_fields [OF assms]
  have nil: "parse_ip_bytes [] = None" by (simp add: parse_ip_bytes_def)
  have d: "tcp_destination penv (ts_policy scope) m (ot_port m) now = Inr r \<longleftrightarrow>
      tcp_destination_allowed penv (ts_policy scope) m now
      \<and> r = (tf_hostname (tcp_flow_of m), tf_destination_ip (tcp_flow_of m))" for r
    using f(8,9) nil
    by (auto simp: tcp_destination_def tcp_destination_allowed_def tcp_flow_of_def result_simps split: if_splits)
  show ?thesis
    unfolding tcp_authorize_verified_def Let_def verified_of_sel rbind_Inr_conv if_Inl_Inr_conv same_Inr array_Inr d f(1,2)
    using f(3-7) by (auto simp: tcp_flow_of_def array_def)
qed

lemma tcp_verify_accepted:
  "fst (tcp_verify env codec penv scope encoded now policy c) = Inr f \<longleftrightarrow>
   (\<exists>e m. message_authentic env (open_tcp_payload codec) encoded now policy e m
      \<and> (se_sender_id e, se_nonce e) \<notin> fst ` set (live_entries now c) \<and> length (live_entries now c) < rc_maximum_entries c
      \<and> ot_route_context_id m = ts_route_context_id scope \<and> ot_client_ephemeral_id m = ts_client_ephemeral_id scope
      \<and> ot_policy_hash m = vmf_policy_hash (ts_policy scope)
      \<and> tcp_destination_allowed penv (ts_policy scope) m now \<and> f = tcp_flow_of m)" (is "?l \<longleftrightarrow> ?r")
proof -
  have "?l \<longleftrightarrow> (\<exists>e m. message_authentic env (open_tcp_payload codec) encoded now policy e m
      \<and> (se_sender_id e, se_nonce e) \<notin> fst ` set (live_entries now c) \<and> length (live_entries now c) < rc_maximum_entries c
      \<and> tcp_authorize_verified penv scope now (verified_of e m) = Inr f)"
    unfolding tcp_verify_def verify_then_Inr verify_ok_iff verify_payload_authentic by (metis verified_of_sel(2,6))
  also have "\<dots> \<longleftrightarrow> ?r" using tcp_authorize_Inr by blast
  finally show ?thesis .
qed

lemma udp_flow_fields:
  assumes "message_authentic env (udp_flow_payload codec) encoded now policy e m"
  shows "se_sender_id e = uf_client_ephemeral_id m" "se_expires_at_ms e = uf_expires_at_ms m"
    "1 \<le> uf_port m" "uf_port m \<le> 65535"
  using assms by (auto simp: message_authentic_def payload_accepted_def udp_flow_payload_def udp_flow_validate_envelope_def
      udp_flow_validate_def validate_port_def result_simps split: if_splits)

lemma udp_authorize_InrD:
  assumes "udp_authorize_verified penv scope now v = Inr f"
  shows "uf_route_context_id (vm_message v) = us_route_context_id scope" "uf_client_ephemeral_id (vm_message v) = us_client_ephemeral_id scope"
    "vm_sender_id v = us_client_ephemeral_id scope" "uf_policy_hash (vm_message v) = vmf_policy_hash (us_policy scope)"
    "udp_destination penv (us_policy scope) (vm_message v) (uf_port (vm_message v)) now = Inr (uw_destination f)"
    "uw_port f = uf_port (vm_message v)" "uw_flow_id f = uf_flow_id (vm_message v)"
    "uw_expires_at_ms f = min (vm_expires_at_ms v) (us_route_expires_at_ms scope)"
  using assms unfolding udp_authorize_verified_def Let_def rbind_Inr_conv if_Inl_Inr_conv same_Inr array_Inr by auto

lemma udp_destination_Inr:
  "udp_destination penv manifest m port now = Inr d \<longleftrightarrow>
     (case d of
        Ad_Ip a \<Rightarrow> uf_hostname m = [] \<and> udp_parse_ip (uf_destination_ip m) = Inr a \<and> authorize_ip manifest now a Udp port = Inr ()
      | Ad_DnsHostname h \<Rightarrow> uf_hostname m \<noteq> [] \<and> port = 53 \<and> authorize_dns_name penv manifest now (uf_hostname m) = Inr h
      | Ad_Hostname h p \<Rightarrow> h = uf_hostname m \<and> h \<noteq> [] \<and> port \<noteq> 53 \<and> authorize_domain penv manifest now h Udp port = Inr ()
          \<and> (case p of None \<Rightarrow> uf_destination_ip m = []
               | Some a \<Rightarrow> uf_destination_ip m \<noteq> [] \<and> udp_parse_ip (uf_destination_ip m) = Inr a))"
  by (auto simp: udp_destination_def result_simps split: authorized_destination.splits option.splits)

lemma find_take_Some: "find P (take n xs) = Some x \<Longrightarrow> P x \<and> x \<in> set (take n xs)"
  by (metis find_Some_iff nth_mem)

lemma pin_address_InrD:
  assumes "pin_address resolve d = Inr a"
  shows "is_permitted_egress a"
    and "case d of Ad_Ip b \<Rightarrow> a = b
      | Ad_Hostname h p \<Rightarrow> (\<exists>as. resolve h = Inr as \<and> a \<in> set (take MAX_RESOLUTION_RESULTS as)) \<and> (\<forall>b. p = Some b \<longrightarrow> a = b)
      | Ad_DnsHostname h \<Rightarrow> False"
  using assms
  by (auto simp: pin_address_def result_simps split: authorized_destination.splits option.splits if_splits
      dest!: find_take_Some)

end
