(* ===== verification/Exit_Example.thy ===== *)
theory Exit_Example
  imports Flow_Authorize
begin

text \<open>
  A concrete exit for the witnesses: an exit, two relays and a client with recognisable keys, an exit reservation of
  two paths, the two doubly signed path grants, a TCP and a UDP request of the client, and codecs that know exactly
  these messages. The policy is the demonstration manifest.
\<close>

definition demo_id16 :: "byte \<Rightarrow> bytes" where
  "demo_id16 b = replicate 16 b"

definition demo_id32 :: "byte \<Rightarrow> bytes" where
  "demo_id32 b = replicate 32 b"

definition demo_endpoint :: "byte \<Rightarrow> nat \<Rightarrow> wireguard_endpoint" where
  "demo_endpoint b port = \<lparr>we_public_key = demo_id32 b, we_underlay_ip = [93, 184, 216, b], we_listen_port = port, we_underlay_scope = 0\<rparr>"

definition demo_exit :: exit_reservation where
  "demo_exit = \<lparr>er_reservation_id = demo_id16 1, er_route_context_id = demo_id16 2, er_exit_node_id = demo_id32 1,
     er_client_session_id = demo_id32 4, er_allowed_transports = [1], er_reserved_up_mbps = 10, er_reserved_down_mbps = 20,
     er_maximum_paths = 2, er_policy_hash = demo_id32 7, er_created_at_ms = 1000, er_expires_at_ms = 4000, er_nonce = demo_id32 10,
     er_capability_id = demo_id16 3, er_client_session_public_key = demo_id32 4, er_exit_boot_id = demo_id16 5, er_hold_id = demo_id16 6,
     er_finalize_id = demo_id16 7, er_control_relay_node_id = demo_id32 2, er_control_relay_peer_id = [2], er_exit_peer_id = [1],
     er_native_route_identity = Some \<lparr>ni_auth_commitment = demo_id32 1, ni_certificate_sha256 = demo_id32 1, ni_spki_sha256 = demo_id32 1,
       ni_tls_server_name = lit ''exit.example.org'', ni_masque_context_id = 2, ni_client_native_instance_id = demo_id32 1,
       ni_exit_native_instance_id = demo_id32 1, ni_credential_hpke_public_key = demo_id32 1\<rparr>\<rparr>"

definition demo_authorization :: "byte \<Rightarrow> nat \<Rightarrow> byte \<Rightarrow> relay_authorization" where
  "demo_authorization relay path nonce = \<lparr>ra_reservation_id = demo_id16 1, ra_route_context_id = demo_id16 2, ra_path_id = path,
     ra_relay_node_id = demo_id32 relay, ra_exit_node_id = demo_id32 1, ra_client_session_id = demo_id32 4, ra_allowed_transports = [1],
     ra_maximum_up_mbps = 10, ra_maximum_down_mbps = 20, ra_client_wireguard_public_key = demo_id32 40,
     ra_exit_wireguard_endpoint = Some (demo_endpoint 41 700), ra_policy_hash = demo_id32 7, ra_created_at_ms = 1000,
     ra_expires_at_ms = 4000, ra_nonce = demo_id32 nonce, ra_relay_peer_id = [relay], ra_capability_id = demo_id16 3,
     ra_client_session_public_key = demo_id32 4, ra_exit_boot_id = demo_id16 5, ra_hold_id = demo_id16 6, ra_finalize_id = demo_id16 7,
     ra_control_relay_node_id = demo_id32 2, ra_control_relay_peer_id = [2], ra_exit_peer_id = [1]\<rparr>"

definition demo_grant :: "byte \<Rightarrow> nat \<Rightarrow> byte \<Rightarrow> bytes \<Rightarrow> relay_reservation" where
  "demo_grant relay path nonce authorization =
     relay_authorization.extend (demo_authorization relay path nonce)
       \<lparr>rr_relay_client_wireguard_endpoint = Some (demo_endpoint 42 701),
        rr_relay_exit_wireguard_endpoint = Some (demo_endpoint 43 702), rr_exit_authorization = authorization,
        rr_signed_client_relay_request_sha256 = demo_id32 9, rr_receive_budget_required = True\<rparr>"

definition demo_open_tcp :: open_tcp where
  "demo_open_tcp = \<lparr>ot_route_context_id = demo_id16 2, ot_flow_id = demo_id16 8, ot_client_ephemeral_id = demo_id32 4,
     ot_hostname = lit ''a.example.org'', ot_port = 443, ot_policy_hash = demo_id32 7, ot_timestamp_ms = 1500, ot_expires_at_ms = 3500,
     ot_nonce = demo_id32 30, ot_destination_ip = []\<rparr>"

definition demo_udp_flow :: udp_flow_authorization where
  "demo_udp_flow = \<lparr>uf_route_context_id = demo_id16 2, uf_flow_id = demo_id16 9, uf_client_ephemeral_id = demo_id32 4,
     uf_hostname = lit ''example.com'', uf_destination_ip = [], uf_port = 443, uf_policy_hash = demo_id32 7, uf_idle_timeout_ms = 1000,
     uf_timestamp_ms = 1500, uf_expires_at_ms = 4500, uf_nonce = demo_id32 31\<rparr>"

definition demo_signed :: "byte \<Rightarrow> control_message_type \<Rightarrow> nat \<Rightarrow> nat \<Rightarrow> byte \<Rightarrow> byte \<Rightarrow> signed_envelope" where
  "demo_signed key t created expires nonce payload =
     \<lparr>se_protocol_version = 4, se_sender_id = demo_id32 key, se_sender_public_key = demo_id32 key, se_timestamp_ms = created,
      se_expires_at_ms = expires, se_nonce = demo_id32 nonce, se_message_type = message_number t, se_payload = [payload],
      se_payload_hash = demo_id32 payload, se_signature = replicate 64 key\<rparr>"

definition demo_exit_control :: control_env where
  "demo_exit_control = \<lparr>ce_envelope = table_codec
       [(demo_signed 1 Mt_ExitReservation 1000 4000 10 1, [10]),
        (demo_signed 2 Mt_RelayReservation 1000 4000 12 2, [12]), (demo_signed 3 Mt_RelayReservation 1000 4000 13 3, [13]),
        (demo_signed 1 Mt_RelayAuthorization 1000 4000 22 2, [22]), (demo_signed 1 Mt_RelayAuthorization 1000 4000 23 3, [23]),
        (demo_signed 4 Mt_OpenTcp 1500 3500 30 1, [30]), (demo_signed 4 Mt_UdpFlowAuthorization 1500 4500 31 1, [31])],
     ce_signature_input = \<lparr>cd_encode = (\<lambda>_. [7]), cd_decode = (\<lambda>_. None)\<rparr>,
     ce_sha256 = (\<lambda>b. demo_id32 (if b = [] then 0 else last b)), ce_key_ok = (\<lambda>_. True),
     ce_verify_strict = (\<lambda>k _ s. s = replicate 64 (hd k))\<rparr>"

definition demo_route_env :: route_env where
  "demo_route_env = \<lparr>re_control = demo_exit_control, re_exit = table_codec [(demo_exit, [1])],
     re_authorization = table_codec [(demo_authorization 2 1 22, [2]), (demo_authorization 3 2 23, [3])],
     re_relay = table_codec [(demo_grant 2 1 12 [22], [2]), (demo_grant 3 2 13 [23], [3])],
     re_capability = table_codec [], re_extension = table_codec []\<rparr>"

definition demo_tcp_codec :: "open_tcp codec" where
  "demo_tcp_codec = table_codec [(demo_open_tcp, [1])]"

definition demo_udp_codec :: "udp_flow_authorization codec" where
  "demo_udp_codec = table_codec [(demo_udp_flow, [1])]"

definition demo_exit_cache :: replay_cache where
  "demo_exit_cache = \<lparr>rc_maximum_entries = 16, rc_entries = []\<rparr>"

definition demo_route :: verified_mptcp_route where
  "demo_route = \<lparr>vr_reservation_id = demo_id16 1, vr_route_context_id = demo_id16 2, vr_exit_node_id = demo_id32 1,
     vr_client_ephemeral_id = demo_id32 4, vr_relay_node_ids = [demo_id32 2, demo_id32 3], vr_expires_at_ms = 4000\<rparr>"

definition demo_route_cache :: replay_cache where
  "demo_route_cache = demo_exit_cache\<lparr>rc_entries :=
     map (\<lambda>(k, n). ((demo_id32 k, demo_id32 n), 4000)) [(1, 10), (2, 12), (1, 22), (3, 13), (1, 23)]\<rparr>"

lemma demo_route_verified:
  "verify_inner demo_route_env [10] [[12], [13]] None 1600 default_time_policy demo_exit_cache = (Inr demo_route, demo_route_cache)"
  by code_simp

text \<open>The demonstration manifest, evaluated.\<close>

lemma demo_manifest_code [code]:
  "demo_manifest = \<lparr>vmf_manifest_version = 1, vmf_minimum_protocol_version = 2, vmf_issued_at_ms = 1000,
     vmf_valid_from_ms = 1000, vmf_expires_at_ms = 5000, vmf_required_signatures = 2, vmf_verified_signatures = 2,
     vmf_policy_hash = demo_id32 7, vmf_rules = sort_key dr_destination (sp_rules demo_spec)\<rparr>"
  by code_simp

definition demo_tcp_flow :: authorized_tcp_flow where
  "demo_tcp_flow = \<lparr>tf_route_context_id = demo_id16 2, tf_flow_id = demo_id16 8, tf_client_ephemeral_id = demo_id32 4,
     tf_hostname = Some (lit ''a.example.org''), tf_destination_ip = None, tf_port = 443, tf_expires_at_ms = 3500\<rparr>"

definition demo_tcp_cache :: replay_cache where
  "demo_tcp_cache = demo_route_cache\<lparr>rc_entries := rc_entries demo_route_cache @ [((demo_id32 4, demo_id32 30), 3500)]\<rparr>"

lemma demo_tcp_verified:
  "tcp_verify demo_exit_control demo_tcp_codec demo_policy_env (tcp_scope_new demo_route demo_manifest) [30] 1600
     default_time_policy demo_route_cache = (Inr demo_tcp_flow, demo_tcp_cache)"
  by code_simp

definition demo_path :: verified_single_relay_path where
  "demo_path = \<lparr>vs_reservation_id = demo_id16 1, vs_route_context_id = demo_id16 2, vs_path_id = 1, vs_relay_node_id = demo_id32 2,
     vs_exit_node_id = demo_id32 1, vs_client_ephemeral_id = demo_id32 4, vs_expires_at_ms = 4000\<rparr>"

definition demo_udp_authorized :: authorized_udp_flow where
  "demo_udp_authorized = \<lparr>uw_route_context_id = demo_id16 2, uw_flow_id = demo_id16 9, uw_client_ephemeral_id = demo_id32 4,
     uw_destination = Ad_Hostname (lit ''example.com'') None, uw_port = 443, uw_idle_timeout_ms = 1000, uw_expires_at_ms = 4000\<rparr>"

lemma demo_udp_verified:
  "fst (udp_verify demo_exit_control demo_udp_codec demo_policy_env (udp_scope_new demo_path demo_manifest) [31] 1600
     default_time_policy demo_tcp_cache) = Inr demo_udp_authorized"
  by code_simp

lemma demo_udp_pinned:
  "resolve_and_pin (\<lambda>_. Inr [V4 10 0 0 1, V4 93 184 216 34]) demo_udp_authorized 3000 =
     Inr \<lparr>pw_flow_id = demo_id16 9, pw_address = V4 93 184 216 34, pw_port = 443, pw_expires_at_ms = 4000\<rparr>"
  by code_simp

end
