(* ===== verification/Exit_Correct.thy ===== *)
theory Exit_Correct
  imports Exit_Example
begin

text \<open>
  The properties of routes and flows at an exit: what a verified route stands for, when a TCP flow is opened, what a
  pinned UDP destination is, that no signed request takes effect twice on the shared replay cache, and which
  addresses the egress filter lets through.
\<close>

unbundle bit_operations_syntax

section \<open>One replay cache for every verifier\<close>

text \<open>
  The calls that share an exit's replay cache, with the signed bytes each starts from. A call runs at a time of its
  own; the results are kept only as accepted or refused.
\<close>

record exit_env =
  xe_route :: route_env
  xe_tcp :: "open_tcp codec"
  xe_udp :: "udp_flow_authorization codec"
  xe_policy :: policy_env
  xe_time :: time_policy

datatype exit_call =
    Call_Route bytes "bytes list" "(bytes list \<times> bytes) option"
  | Call_Path bytes bytes
  | Call_Tcp tcp_authorization_scope bytes
  | Call_Udp udp_authorization_scope bytes

fun signed_request :: "exit_call \<Rightarrow> bytes" where
  "signed_request (Call_Route er rs ext) = er"
| "signed_request (Call_Path er rr) = er"
| "signed_request (Call_Tcp scope encoded) = encoded"
| "signed_request (Call_Udp scope encoded) = encoded"

definition accepted_only :: "('e + 'a) \<times> 's \<Rightarrow> (unit + unit) \<times> 's" where
  "accepted_only r = (map_sum (\<lambda>_. ()) (\<lambda>_. ()) (fst r), snd r)"

fun exit_step :: "exit_env \<Rightarrow> exit_call \<Rightarrow> nat \<Rightarrow> replay_cache \<Rightarrow> (unit + unit) \<times> replay_cache" where
  "exit_step env (Call_Route er rs ext) now c = accepted_only (verify_inner (xe_route env) er rs ext now (xe_time env) c)"
| "exit_step env (Call_Path er rr) now c = accepted_only (verify_path (xe_route env) er rr now (xe_time env) c)"
| "exit_step env (Call_Tcp scope encoded) now c =
     accepted_only (tcp_verify (re_control (xe_route env)) (xe_tcp env) (xe_policy env) scope encoded now (xe_time env) c)"
| "exit_step env (Call_Udp scope encoded) now c =
     accepted_only (udp_verify (re_control (xe_route env)) (xe_udp env) (xe_policy env) scope encoded now (xe_time env) c)"

lemma accepted_only_eq:
  "accepted_only r = (Inl u, c') \<longleftrightarrow> (\<exists>e. r = (Inl e, c'))" "accepted_only r = (Inr u, c') \<longleftrightarrow> (\<exists>a. r = (Inr a, c'))"
  by (cases r; cases "fst r"; auto simp: accepted_only_def)+

lemma exit_step_refused:
  assumes "exit_step env call now c = (Inl u, c')"
  shows "c' = c \<or> c' = with_entries now c []"
proof (cases call)
  case (Call_Route er rs ext)
  with assms tcp_route.refused [of "(xe_route env, er, rs, ext, xe_time env)"] show ?thesis by (auto simp: accepted_only_eq)
next
  case (Call_Path er rr)
  with assms udp_path.refused [of "(xe_route env, er, rr, xe_time env)"] show ?thesis by (auto simp: accepted_only_eq)
next
  case (Call_Tcp scope b)
  with assms tcp_flow.refused [of "(re_control (xe_route env), xe_tcp env, xe_policy env, scope, b, xe_time env)"]
  show ?thesis by (auto simp: accepted_only_eq)
next
  case (Call_Udp scope b)
  with assms udp_flow.refused [of "(re_control (xe_route env), xe_udp env, xe_policy env, scope, b, xe_time env)"]
  show ?thesis by (auto simp: accepted_only_eq)
qed

text \<open>An accepted call starts from an authentic envelope, which was not in the cache and is there afterwards.\<close>

lemma recorded_envelope:
  assumes "\<exists>es v. fresh_entries now c es \<and> c' = with_entries now c es \<and> verify_payload env p encoded now policy = Inr v
    \<and> replay_entry v \<in> set es"
  shows "\<exists>es e t. fresh_entries now c es \<and> c' = with_entries now c es \<and> control_authentic env encoded now policy e t
    \<and> ((se_sender_id e, se_nonce e), se_expires_at_ms e) \<in> set es"
proof -
  from assms obtain es v where es: "fresh_entries now c es" "c' = with_entries now c es" "replay_entry v \<in> set es"
    and v: "verify_payload env p encoded now policy = Inr v" by blast
  from v obtain e m where "control_authentic env encoded now policy e (cp_type p)" "v = verified_of e m"
    unfolding verify_payload_Inr by blast
  with es show ?thesis by auto
qed

lemma verify_then_records:
  assumes "verify_then env p f authorize encoded now policy c = (Inr a, c')"
  shows "\<exists>es v. fresh_entries now c es \<and> c' = with_entries now c es \<and> verify_payload env p encoded now policy = Inr v
    \<and> replay_entry v \<in> set es"
proof -
  from verify_then_effect [OF assms] obtain v where "verify_payload env p encoded now policy = Inr v"
    "fresh_entries now c [replay_entry v]" "c' = with_entries now c [replay_entry v]" by auto
  then show ?thesis by (intro exI [of _ "[replay_entry v]"] exI [of _ v]) simp
qed

lemma exit_step_accepted:
  assumes "exit_step env call now c = (Inr u, c')"
  shows "\<exists>es e t. fresh_entries now c es \<and> c' = with_entries now c es
    \<and> control_authentic (re_control (xe_route env)) (signed_request call) now (xe_time env) e t
    \<and> ((se_sender_id e, se_nonce e), se_expires_at_ms e) \<in> set es"
proof (cases call)
  case (Call_Route er rs ext)
  with assms obtain r where "verify_inner (xe_route env) er rs ext now (xe_time env) c = (Inr r, c')"
    by (auto simp: accepted_only_eq)
  from recorded_envelope [OF verify_inner_records [OF this]] Call_Route show ?thesis by simp
next
  case (Call_Path er rr)
  with assms obtain r where "verify_path (xe_route env) er rr now (xe_time env) c = (Inr r, c')"
    by (auto simp: accepted_only_eq)
  from recorded_envelope [OF verify_path_records [OF this]] Call_Path show ?thesis by simp
next
  case (Call_Tcp scope b)
  with assms obtain f where "verify_then (re_control (xe_route env)) (open_tcp_payload (xe_tcp env)) Tp_Protocol
      (tcp_authorize_verified (xe_policy env) scope now) b now (xe_time env) c = (Inr f, c')"
    by (auto simp: accepted_only_eq tcp_verify_def)
  from recorded_envelope [OF verify_then_records [OF this]] Call_Tcp show ?thesis by simp
next
  case (Call_Udp scope b)
  with assms obtain f where "verify_then (re_control (xe_route env)) (udp_flow_payload (xe_udp env)) Ud_Protocol
      (udp_authorize_verified (xe_policy env) scope now) b now (xe_time env) c = (Inr f, c')"
    by (auto simp: accepted_only_eq udp_verify_def)
  from recorded_envelope [OF verify_then_records [OF this]] Call_Udp show ?thesis by simp
qed

interpretation exit_calls: replay_atomic "\<lambda>i. exit_step (fst i) (snd i)"
  by unfold_locales (auto dest: exit_step_refused, use exit_step_accepted in fastforce)

lemma is_ok_fst: "is_ok (fst p) \<Longrightarrow> p = (Inr (), snd p)" for p :: "('e + unit) \<times> 's"
  by (cases p; cases "fst p") auto

section \<open>The egress filter\<close>

lemma v4_egress:
  "is_permitted_egress (V4 a b c d) \<longleftrightarrow>
      is_public_routable_ip (V4 a b c d)
      \<or> (\<exists>blk \<in> {([192, 0, 0, 0], 24), ([192, 31, 196, 0], 24), ([192, 52, 193, 0], 24), ([192, 88, 99, 0], 24), ([192, 175, 48, 0], 24)}.
           in_block blk [a, b, c, d])"
proof -
  have m: "224 \<le> a \<longleftrightarrow> (224 \<le> a \<and> a \<le> 239) \<or> 240 \<le> a" by (auto simp: word_le_nat_alt)
  have l: "a = 255 \<longrightarrow> 240 \<le> a" by simp
  have s: "b = 18 \<or> b = 19 \<longleftrightarrow> 18 \<le> b \<and> b \<le> 19" by (auto simp: word_le_nat_alt word_unat_eq_iff)
  show ?thesis
  proof (cases "a = 192")
    case True
    then show ?thesis
      unfolding is_permitted_egress_def is_public_routable_ip_def is_public_routable_ipv4_prefix_def permitted_v4_def ip_addr.case Let_def
        by (simp add: in_block_v4) auto
  next
    case False
    then have "is_permitted_egress (V4 a b c d) \<longleftrightarrow> is_public_routable_ip (V4 a b c d)"
      unfolding is_permitted_egress_def is_public_routable_ip_def is_public_routable_ipv4_prefix_def permitted_v4_def ip_addr.case Let_def s
      using m l by (simp only: simp_thms) argo
    then show ?thesis using False by (simp add: in_block_v4)
  qed
qed

lemma v6_egress:
  assumes "length os = 16"
  shows "is_public_routable_ip (V6 os) \<longrightarrow> is_permitted_egress (V6 os)"
proof -
  obtain x0 x1 x2 x3 xs where os: "os = x0 # x1 # x2 # x3 # xs" using assms by (auto simp: numeral_eq_Suc length_Suc_conv)
  have t: "take 6 os ! 0 = x0" "take 4 (take 6 os) = [x0, x1, x2, x3]" "take 4 os = [x0, x1, x2, x3]" "os ! 0 = x0" using os by simp_all
  have x: "x0 \<noteq> 0 \<and> x0 \<noteq> 0xff \<and> x0 AND 0xfe \<noteq> 0xfc \<and> x0 \<noteq> 0xfe" if "x0 AND 0xe0 = 0x20"
    using that local_not_public_byte [of x0] by auto
  have "take 12 os \<noteq> replicate 10 0 @ [0xff, 0xff] \<and> os \<noteq> replicate 16 0 \<and> os \<noteq> replicate 15 0 @ [1]" if "x0 \<noteq> 0"
    using that os by (auto simp: numeral_eq_Suc)
  with x show ?thesis
    unfolding is_permitted_egress_def is_public_routable_ip_def is_public_routable_ipv6_prefix_def permitted_v6_def ip_addr.case Let_def t
    by presburger
qed
section \<open>Properties\<close>

text \<open>
  Claim C2. No signed request takes effect twice at an exit. After a call that starts from some signed bytes was
  accepted, whatever other calls ran in between on the same replay cache and however they ended, at times
  up to \<open>later\<close>, every call at \<open>later\<close> that starts from the same bytes is refused, in whatever
  scope and even as a call of another kind.
\<close>

theorem exit_requests_once:
  assumes "is_ok (fst (exit_step env call now c))" and "signed_request call' = signed_request call"
    and "\<forall>(_, t) \<in> set calls. t \<le> later"
  shows "\<not> is_ok (fst (exit_step env call' later
    (run_ops (\<lambda>(i, t). exit_step (fst i) (snd i) t) calls (snd (exit_step env call now c)))))"
proof
  define c1 where "c1 = snd (exit_step env call now c)"
  define c2 where "c2 = run_ops (\<lambda>(i, t). exit_step (fst i) (snd i) t) calls c1"
  assume "is_ok (fst (exit_step env call' later
    (run_ops (\<lambda>(i, t). exit_step (fst i) (snd i) t) calls (snd (exit_step env call now c)))))"
  then have "exit_step env call' later c2 = (Inr (), snd (exit_step env call' later c2))"
    unfolding c1_def [symmetric] c2_def [symmetric] by (rule is_ok_fst)
  from exit_step_accepted [OF this] obtain es' e t where e: "fresh_entries later c2 es'"
    "control_authentic (re_control (xe_route env)) (signed_request call) later (xe_time env) e t"
    "((se_sender_id e, se_nonce e), se_expires_at_ms e) \<in> set es'" unfolding assms(2) by blast
  have "exit_step env call now c = (Inr (), c1)" unfolding c1_def using assms(1) by (rule is_ok_fst)
  from exit_step_accepted [OF this] obtain es e1 t1 where e1: "c1 = with_entries now c es"
    "control_authentic (re_control (xe_route env)) (signed_request call) now (xe_time env) e1 t1"
    "((se_sender_id e1, se_nonce e1), se_expires_at_ms e1) \<in> set es" by blast
  have "e1 = e" using e(2) e1(2) by (simp add: control_authentic_def)
  then have mem: "((se_sender_id e, se_nonce e), se_expires_at_ms e) \<in> set (rc_entries c1)"
    using e1(3) unfolding e1(1) by (simp add: with_entries_def)
  have l: "later < se_expires_at_ms e" using e(2) by (simp add: control_authentic_def)
  have "((se_sender_id e, se_nonce e), se_expires_at_ms e) \<in> set (rc_entries c2)"
    unfolding c2_def by (rule exit_calls.run_keeps_entry [OF mem]) (use assms(3) l in force)
  with l have "(se_sender_id e, se_nonce e) \<in> fst ` set (live_entries later c2)" by (force simp: live_entries_def)
  with e(1,3) show False by (force simp: fresh_entries_def)
qed

text \<open>
  Claim C7. What a verified MPTCP route stands for. If the check accepts, the exit signed an unexpired reservation for
  MPTCP; there are between two and eight relay paths, each granted by its relay, whose key signed it, and inside
  that grant by the exit, for exactly the scope of the reservation; no relay, peer or path number occurs twice and no
  relay is the exit; the number of paths is the reserved number and the proven extensions; with extensions, the
  exit committed each of them over these very bytes, one path at a time; and the route carries the
  reservation's identities and expiry, with the relays in order.
\<close>

theorem mptcp_route_sound:
  assumes "fst (verify_inner env er rs ext now policy c) = Inr route"
  shows "\<exists>e x gs. exit_authentic env er now policy e x \<and> se_sender_id e = er_exit_node_id x \<and> now < er_expires_at_ms x
    \<and> transport_number Wt_TcpMptcp \<in> set (er_allowed_transports x)
    \<and> 2 \<le> length rs \<and> length rs \<le> 8 \<and> path_grants_ok env x now policy rs gs
    \<and> length rs = er_maximum_paths x + (case ext of None \<Rightarrow> 0 | Some (proofs, _) \<Rightarrow> length proofs)
    \<and> (case ext of None \<Rightarrow> True | Some (proofs, cap) \<Rightarrow> extended_from env now policy er x gs proofs cap)
    \<and> route = \<lparr>vr_reservation_id = er_reservation_id x, vr_route_context_id = er_route_context_id x,
         vr_exit_node_id = er_exit_node_id x, vr_client_ephemeral_id = er_client_session_id x,
         vr_relay_node_ids = sort (map ra_relay_node_id gs), vr_expires_at_ms = er_expires_at_ms x\<rparr>"
proof -
  have "verify_inner env er rs ext now policy c = (Inr route, snd (verify_inner env er rs ext now policy c))"
    using assms by (metis prod.collapse)
  then show ?thesis
    by (rule verify_inner_Inr) (use exit_reservation_signed(1,3) in \<open>unfold exit_authentic_def, blast\<close>)
qed

text \<open>
  Claim C39. A TCP flow is opened exactly when it should be. A request is accepted if and only if its bytes are an
  authentic, canonical \<^verbatim>\<open>OPEN_TCP\<close>, whose nonce the cache does not hold and has room for, it names the route's
  context, client and the active policy hash, and the active whitelist authorizes its host name, or for a
  nameless request its address, for TCP and that port. The flow then carries the signed fields.
\<close>

theorem tcp_flow_iff:
  "fst (tcp_verify env codec penv scope encoded now policy c) = Inr f \<longleftrightarrow>
   (\<exists>e m. message_authentic env (open_tcp_payload codec) encoded now policy e m
      \<and> (se_sender_id e, se_nonce e) \<notin> fst ` set (live_entries now c) \<and> length (live_entries now c) < rc_maximum_entries c
      \<and> ot_route_context_id m = ts_route_context_id scope \<and> ot_client_ephemeral_id m = ts_client_ephemeral_id scope
      \<and> ot_policy_hash m = vmf_policy_hash (ts_policy scope)
      \<and> tcp_destination_allowed penv (ts_policy scope) m now \<and> f = tcp_flow_of m)"
  by (rule tcp_verify_accepted)

text \<open>
  Claim C12. A pinned UDP destination is authorized and public enough. If a UDP request was accepted on a path and its
  flow is resolved and pinned, then the flow was signed by the path's client for that path and the active policy;
  the pinned address passes the egress filter; it is the requested address when the request gave one, and the
  whitelist authorizes it; otherwise it is one of the first sixteen addresses the resolver gave for a name the
  whitelist authorizes for UDP and that port; and at the time of pinning neither the flow nor the path had expired.
\<close>

theorem udp_pin_sound:
  assumes "fst (udp_verify env codec penv (udp_scope_new path manifest) encoded t policy c) = Inr f"
    and "resolve_and_pin resolve f now = Inr pin"
  shows "\<exists>e m. message_authentic env (udp_flow_payload codec) encoded t policy e m
      \<and> se_sender_id e = vs_client_ephemeral_id path \<and> uf_route_context_id m = vs_route_context_id path
      \<and> uf_policy_hash m = vmf_policy_hash manifest \<and> pw_port pin = uf_port m \<and> pw_flow_id pin = uf_flow_id m
      \<and> is_permitted_egress (pw_address pin)
      \<and> (if uf_hostname m = []
         then udp_parse_ip (uf_destination_ip m) = Inr (pw_address pin)
              \<and> authorize_ip manifest t (pw_address pin) Udp (pw_port pin) = Inr ()
         else pw_port pin \<noteq> 53 \<and> authorize_domain penv manifest t (uf_hostname m) Udp (pw_port pin) = Inr ()
              \<and> (uf_destination_ip m \<noteq> [] \<longrightarrow> udp_parse_ip (uf_destination_ip m) = Inr (pw_address pin))
              \<and> (\<exists>as. resolve (uf_hostname m) = Inr as \<and> pw_address pin \<in> set (take 16 as)))
      \<and> now < pw_expires_at_ms pin \<and> pw_expires_at_ms pin \<le> vs_expires_at_ms path \<and> pw_expires_at_ms pin \<le> uf_expires_at_ms m"
proof -
  let ?scope = "udp_scope_new path manifest"
  from assms(1) obtain e m where m: "message_authentic env (udp_flow_payload codec) encoded t policy e m"
    and a: "udp_authorize_verified penv ?scope t (verified_of e m) = Inr f"
    unfolding udp_verify_def verify_then_Inr verify_ok_iff verify_payload_authentic by blast
  note f = udp_authorize_InrD [OF a, unfolded verified_of_sel]
  from assms(2) obtain ad where p: "now < uw_expires_at_ms f" "pin_address resolve (uw_destination f) = Inr ad"
    "pin = \<lparr>pw_flow_id = uw_flow_id f, pw_address = ad, pw_port = uw_port f, pw_expires_at_ms = uw_expires_at_ms f\<rparr>"
    by (auto simp: resolve_and_pin_def udp_flow_ensure_active_at_def result_simps)
  note pa = pin_address_InrD [OF p(2)]
  show ?thesis
    using m f p(1,3) pa udp_flow_fields(1,2) [OF m] f(5) [unfolded udp_destination_Inr]
    by (intro exI [of _ e] exI [of _ m])
      (auto simp: udp_scope_new_def MAX_RESOLUTION_RESULTS_def split: authorized_destination.splits option.splits)
qed


text \<open>
  Claim C13. The egress filter against the registry of public addresses. Every publicly routable address passes the
  filter. For IPv4 it passes exactly these and five special-purpose blocks of 256 addresses besides:
  192.0.0.0/24, 192.31.196.0/24, 192.52.193.0/24, 192.88.99.0/24 and 192.175.48.0/24.
\<close>

theorem egress_against_registry:
  assumes "length os = 16"
  shows "(is_permitted_egress (V4 a b c d) \<longleftrightarrow>
      is_public_routable_ip (V4 a b c d)
      \<or> (\<exists>blk \<in> {([192, 0, 0, 0], 24), ([192, 31, 196, 0], 24), ([192, 52, 193, 0], 24), ([192, 88, 99, 0], 24), ([192, 175, 48, 0], 24)}.
           in_block blk [a, b, c, d]))
    \<and> (is_public_routable_ip (V6 os) \<longrightarrow> is_permitted_egress (V6 os))"
  using v4_egress v6_egress [OF assms] by blast

section \<open>Witnesses\<close>

definition demo_exit_env :: exit_env where
  "demo_exit_env = \<lparr>xe_route = demo_route_env, xe_tcp = demo_tcp_codec, xe_udp = demo_udp_codec, xe_policy = demo_policy_env,
     xe_time = default_time_policy\<rparr>"

abbreviation demo_scope :: tcp_authorization_scope where
  "demo_scope \<equiv> tcp_scope_new demo_route demo_manifest"

lemma demo_tcp_call: "exit_step demo_exit_env (Call_Tcp demo_scope [30]) 1600 demo_route_cache = (Inr (), demo_tcp_cache)"
proof -
  have "re_control demo_route_env = demo_exit_control" by (simp add: demo_route_env_def)
  then show ?thesis by (simp add: demo_exit_env_def accepted_only_def demo_tcp_verified)
qed

theorem exit_requests_once_witness:
  "\<not> is_ok (fst (exit_step demo_exit_env (Call_Udp (udp_scope_new demo_path demo_manifest) [30]) 1800
     (run_ops (\<lambda>(i, t). exit_step (fst i) (snd i) t)
       [((demo_exit_env, Call_Udp (udp_scope_new demo_path demo_manifest) [31]), 1700),
        ((demo_exit_env, Call_Route [10] [[12], [13]] None), 1800)] demo_tcp_cache)))"
  using exit_requests_once [of demo_exit_env "Call_Tcp demo_scope [30]" 1600 demo_route_cache
      "Call_Udp (udp_scope_new demo_path demo_manifest) [30]"
      "[((demo_exit_env, Call_Udp (udp_scope_new demo_path demo_manifest) [31]), 1700),
        ((demo_exit_env, Call_Route [10] [[12], [13]] None), 1800)]" 1800]
  by (simp only: demo_tcp_call fst_conv snd_conv is_ok_conv signed_request.simps list.set) simp

theorem mptcp_route_sound_witness:
  "\<exists>x gs. path_grants_ok demo_route_env x 1600 default_time_policy [[12], [13]] gs \<and> er_maximum_paths x = 2
     \<and> sort (map ra_relay_node_id gs) = [demo_id32 2, demo_id32 3]"
proof -
  have "fst (verify_inner demo_route_env [10] [[12], [13]] None 1600 default_time_policy demo_exit_cache) = Inr demo_route"
    by (simp add: demo_route_verified)
  from mptcp_route_sound [OF this] obtain e x gs where
    "path_grants_ok demo_route_env x 1600 default_time_policy [[12], [13]] gs"
    "length [[12], [13 :: byte]] = er_maximum_paths x + (case None of None \<Rightarrow> 0 | Some (proofs :: bytes list, _ :: bytes) \<Rightarrow> length proofs)"
    "demo_route = \<lparr>vr_reservation_id = er_reservation_id x, vr_route_context_id = er_route_context_id x,
       vr_exit_node_id = er_exit_node_id x, vr_client_ephemeral_id = er_client_session_id x,
       vr_relay_node_ids = sort (map ra_relay_node_id gs), vr_expires_at_ms = er_expires_at_ms x\<rparr>" by blast
  moreover from this(3) have "vr_relay_node_ids demo_route = sort (map ra_relay_node_id gs)"
    by (rule ssubst) (rule verified_mptcp_route.select_convs)
  ultimately show ?thesis by (intro exI [of _ x] exI [of _ gs]) (simp add: demo_route_def)
qed

theorem tcp_flow_iff_witness:
  "\<exists>e m. message_authentic demo_exit_control (open_tcp_payload demo_tcp_codec) [30] 1600 default_time_policy e m
     \<and> tcp_destination_allowed demo_policy_env demo_manifest m 1600 \<and> demo_tcp_flow = tcp_flow_of m"
proof -
  have "fst (tcp_verify demo_exit_control demo_tcp_codec demo_policy_env demo_scope [30] 1600 default_time_policy demo_route_cache) =
      Inr demo_tcp_flow" by (simp add: demo_tcp_verified)
  then show ?thesis unfolding tcp_flow_iff by (auto simp: tcp_scope_new_def)
qed

theorem udp_pin_sound_witness:
  "\<exists>host. authorize_domain demo_policy_env demo_manifest 1600 host Udp 443 = Inr () \<and> is_permitted_egress (V4 93 184 216 34)"
proof -
  have "authorize_ip demo_manifest 1600 (V4 93 184 216 34) Udp 443 \<noteq> Inr ()" by code_simp
  with udp_pin_sound [OF demo_udp_verified demo_udp_pinned] obtain m :: udp_flow_authorization where
    "authorize_domain demo_policy_env demo_manifest 1600 (uf_hostname m) Udp 443 = Inr ()" "is_permitted_egress (V4 93 184 216 34)"
    by (auto split: if_splits)
  then show ?thesis by blast
qed

theorem egress_against_registry_witness:
  "is_permitted_egress (V4 192 88 99 1) \<and> \<not> is_public_routable_ip (V4 192 88 99 1)
     \<and> is_permitted_egress (V6 ([0x20, 0x01, 0x48, 0x60] @ replicate 12 0x88))"
proof -
  have "is_public_routable_ip (V6 ([0x20, 0x01, 0x48, 0x60] @ replicate 12 0x88))" "\<not> is_public_routable_ip (V4 192 88 99 1)"
    by code_simp+
  with egress_against_registry [of "[0x20, 0x01, 0x48, 0x60] @ replicate 12 0x88" 192 88 99 1] show ?thesis
    by (simp add: in_block_v4)
qed

end
