(* ===== verification/Inspect_Tls.thy ===== *)
theory Inspect_Tls
  imports Policy_Domain Protocol_Canonical
begin

text \<open>
  Inspection of the visible server name in a TLS \<^verbatim>\<open>ClientHello\<close>
  (\<^verbatim>\<open>crates/volparossa-inspection/src/tls.rs\<close>): the bounded reader, the parser of the handshake message with its
  extensions, and the reassembler of TLS records that arrive in arbitrary pieces.

  Lengths are machine words of 64 bits, so the reader's checked addition is written out. A host name arrives as
  bytes; \<open>utf8_decode\<close> is the standard library's strict UTF-8 decoder.
\<close>

section \<open>Errors and limits\<close>

datatype inspection_error =
    Ie_ResourceLimit string
  | Ie_TruncatedClientHello
  | Ie_InvalidTlsRecord string
  | Ie_InvalidClientHello string
  | Ie_DuplicateTlsExtension nat
  | Ie_EncryptedClientHello nat
  | Ie_MissingServerName
  | Ie_MultipleServerNames
  | Ie_UnsupportedServerNameType byte
  | Ie_InvalidServerName
  | Ie_InvalidQuicInitial string
  | Ie_UnsupportedQuicVersion nat
  | Ie_QuicAuthentication
  | Ie_ForbiddenQuicFrame nat
  | Ie_ConflictingCryptoData
  | Ie_ClosedBeforeClientHello
  | Ie_AlreadyComplete

definition MAX_CLIENT_HELLO_BYTES :: nat where
  "MAX_CLIENT_HELLO_BYTES = 64 * 1024"

definition MAX_TLS_RECORD_PAYLOAD_BYTES :: nat where
  "MAX_TLS_RECORD_PAYLOAD_BYTES = 2 ^ 14"

definition MAX_TLS_CLIENT_HELLO_RECORDS :: nat where
  "MAX_TLS_CLIENT_HELLO_RECORDS = 8"

definition MAX_TLS_CLIENT_HELLO_WIRE_BYTES :: nat where
  "MAX_TLS_CLIENT_HELLO_WIRE_BYTES = MAX_CLIENT_HELLO_BYTES + 5 * MAX_TLS_CLIENT_HELLO_RECORDS"

definition MAX_TLS_EXTENSIONS :: nat where
  "MAX_TLS_EXTENSIONS = 256"

definition TLS_HANDSHAKE_CONTENT_TYPE :: byte where
  "TLS_HANDSHAKE_CONTENT_TYPE = 22"

definition CLIENT_HELLO_HANDSHAKE_TYPE :: byte where
  "CLIENT_HELLO_HANDSHAKE_TYPE = 1"

definition SERVER_NAME_EXTENSION :: nat where
  "SERVER_NAME_EXTENSION = 0"

definition encrypted_extensions :: "nat list" where
  "encrypted_extensions = [0xfe0d, 0xff02, 0xffce, 0xfd00]"

datatype inspection_progress = NeedMore | Complete utext

section \<open>UTF-8\<close>

definition continuation :: "byte \<Rightarrow> bool" where
  "continuation b \<longleftrightarrow> 0x80 \<le> b \<and> b \<le> 0xbf"

definition low6 :: "byte \<Rightarrow> nat" where
  "low6 b = unat b mod 64"

fun utf8_decode :: "bytes \<Rightarrow> utext option" where
  "utf8_decode [] = Some []"
| "utf8_decode (a # as) =
     (if a < 0x80 then map_option (Cons (unat a)) (utf8_decode as)
      else case as of
        b # bs \<Rightarrow>
          if 0xc2 \<le> a \<and> a \<le> 0xdf then
            if continuation b then map_option (Cons (unat a mod 32 * 64 + low6 b)) (utf8_decode bs) else None
          else (case bs of
            c # cs \<Rightarrow>
              if 0xe0 \<le> a \<and> a \<le> 0xef then
                if (if a = 0xe0 then 0xa0 \<le> b \<and> b \<le> 0xbf else if a = 0xed then 0x80 \<le> b \<and> b \<le> 0x9f else continuation b)
                   \<and> continuation c
                then map_option (Cons (unat a mod 16 * 4096 + low6 b * 64 + low6 c)) (utf8_decode cs) else None
              else (case cs of
                d # ds \<Rightarrow>
                  if 0xf0 \<le> a \<and> a \<le> 0xf4
                     \<and> (if a = 0xf0 then 0x90 \<le> b \<and> b \<le> 0xbf else if a = 0xf4 then 0x80 \<le> b \<and> b \<le> 0x8f else continuation b)
                     \<and> continuation c \<and> continuation d
                  then map_option (Cons (unat a mod 8 * 262144 + low6 b * 4096 + low6 c * 64 + low6 d)) (utf8_decode ds)
                  else None
              | [] \<Rightarrow> None)
          | [] \<Rightarrow> None)
      | [] \<Rightarrow> None)"

section \<open>The bounded reader\<close>

record reader =
  rd_input :: bytes
  rd_offset :: nat

definition reader_new :: "bytes \<Rightarrow> reader" where
  "reader_new input = \<lparr>rd_input = input, rd_offset = 0\<rparr>"

definition reader_take :: "nat \<Rightarrow> reader \<Rightarrow> inspection_error + bytes \<times> reader" where
  "reader_take n r =
     rbind (ok_or (checked_add_u64 (rd_offset r) n) (Ie_InvalidClientHello ''length overflow'')) (\<lambda>stop.
     if stop \<le> length (rd_input r)
     then Inr (take n (drop (rd_offset r) (rd_input r)), r\<lparr>rd_offset := stop\<rparr>)
     else Inl (Ie_InvalidClientHello ''truncated vector''))"

definition reader_u8 :: "reader \<Rightarrow> inspection_error + byte \<times> reader" where
  "reader_u8 r = rbind (reader_take 1 r) (\<lambda>(v, r). Inr (hd v, r))"

definition reader_u16 :: "reader \<Rightarrow> inspection_error + nat \<times> reader" where
  "reader_u16 r = rbind (reader_take 2 r) (\<lambda>(v, r). Inr (be_nat v, r))"

definition reader_remaining :: "reader \<Rightarrow> nat" where
  "reader_remaining r = length (rd_input r) - rd_offset r"

definition reader_is_empty :: "reader \<Rightarrow> bool" where
  "reader_is_empty r \<longleftrightarrow> reader_remaining r = 0"

section \<open>The handshake message\<close>

definition client_hello_wire_len :: "bytes \<Rightarrow> inspection_error + nat option" where
  "client_hello_wire_len input =
     (if input = [] then Inr None
      else if hd input \<noteq> CLIENT_HELLO_HANDSHAKE_TYPE
      then Inl (Ie_InvalidClientHello ''first handshake message is not ClientHello'')
      else if length input < 4 then Inr None
      else
        rbind (ok_or (checked_add_u64 (be_nat (take 3 (drop 1 input))) 4) (Ie_ResourceLimit ''TLS ClientHello bytes'')) (\<lambda>total.
        if total > MAX_CLIENT_HELLO_BYTES then Inl (Ie_ResourceLimit ''TLS ClientHello bytes'') else Inr (Some total)))"

definition parse_server_name :: "bytes \<Rightarrow> inspection_error + bytes" where
  "parse_server_name data =
     rbind (reader_u16 (reader_new data)) (\<lambda>(list_len, r).
     if list_len = 0 \<or> list_len \<noteq> reader_remaining r
     then Inl (Ie_InvalidClientHello ''invalid server-name list length'') else
     rbind (reader_u8 r) (\<lambda>(name_type, r).
     if name_type \<noteq> 0 then Inl (Ie_UnsupportedServerNameType name_type) else
     rbind (reader_u16 r) (\<lambda>(name_len, r).
     if name_len = 0 then Inl Ie_InvalidServerName else
     rbind (reader_take name_len r) (\<lambda>(name, r).
     if \<not> reader_is_empty r then Inl Ie_MultipleServerNames else Inr name))))"

text \<open>One extension, and the loop over the extension vector. Every round reads at least four bytes.\<close>

definition read_extension :: "reader \<Rightarrow> inspection_error + nat \<times> bytes \<times> reader" where
  "read_extension r =
     rbind (reader_u16 r) (\<lambda>(extension_type, r).
     rbind (reader_u16 r) (\<lambda>(data_len, r).
     rbind (reader_take data_len r) (\<lambda>(data, r). Inr (extension_type, data, r))))"

lemma reader_take_advances: "reader_take n r = Inr (v, r') \<Longrightarrow> rd_input r' = rd_input r \<and> rd_offset r' = rd_offset r + n
    \<and> rd_offset r' \<le> length (rd_input r)"
  by (auto simp: reader_take_def result_simps split: if_splits)

lemma read_extension_advances:
  "read_extension r = Inr (t, d, r') \<Longrightarrow> rd_input r' = rd_input r \<and> rd_offset r < rd_offset r' \<and> rd_offset r' \<le> length (rd_input r)"
  by (auto simp: read_extension_def reader_u16_def result_simps dest!: reader_take_advances)

function parse_extensions :: "reader \<Rightarrow> nat list \<Rightarrow> bytes option \<Rightarrow> inspection_error + bytes option" where
  "parse_extensions r seen server_name =
     (if reader_is_empty r then Inr server_name
      else if length seen = MAX_TLS_EXTENSIONS then Inl (Ie_ResourceLimit ''TLS extension count'')
      else case read_extension r of
        Inl e \<Rightarrow> Inl e
      | Inr (extension_type, extension_data, r') \<Rightarrow>
          if extension_type \<in> set seen then Inl (Ie_DuplicateTlsExtension extension_type)
          else if extension_type \<in> set encrypted_extensions then Inl (Ie_EncryptedClientHello extension_type)
          else if extension_type = SERVER_NAME_EXTENSION
          then (case parse_server_name extension_data of
                  Inl e \<Rightarrow> Inl e
                | Inr name \<Rightarrow> parse_extensions r' (extension_type # seen) (Some name))
          else parse_extensions r' (extension_type # seen) server_name)"
  by pat_completeness auto
termination
  by (relation "measure (\<lambda>(r, _, _). length (rd_input r) - rd_offset r)") (auto dest!: read_extension_advances)

text \<open>The fields before the extensions, up to the extension vector that ends the body.\<close>

definition read_hello_fields :: "bytes \<Rightarrow> inspection_error + bytes" where
  "read_hello_fields body =
     rbind (reader_u16 (reader_new body)) (\<lambda>(version, r).
     if version \<noteq> 0x0303 then Inl (Ie_InvalidClientHello ''legacy_version is not TLS 1.2'') else
     rbind (reader_take 32 r) (\<lambda>(_, r).
     rbind (reader_u8 r) (\<lambda>(session_id_len, r).
     if unat session_id_len > 32 then Inl (Ie_InvalidClientHello ''legacy session identifier is oversized'') else
     rbind (reader_take (unat session_id_len) r) (\<lambda>(_, r).
     rbind (reader_u16 r) (\<lambda>(cipher_suites_len, r).
     if cipher_suites_len < 2 \<or> cipher_suites_len mod 2 \<noteq> 0
     then Inl (Ie_InvalidClientHello ''invalid cipher-suite vector'') else
     rbind (reader_take cipher_suites_len r) (\<lambda>(_, r).
     rbind (reader_u8 r) (\<lambda>(compression_len, r).
     rbind (reader_take (unat compression_len) r) (\<lambda>(compression_methods, r).
     if compression_methods \<noteq> [0]
     then Inl (Ie_InvalidClientHello ''legacy compression methods are not null-only'') else
     rbind (reader_u16 r) (\<lambda>(extensions_len, r).
     rbind (reader_take extensions_len r) (\<lambda>(extensions, r).
     if \<not> reader_is_empty r then Inl (Ie_InvalidClientHello ''extension vector length mismatch'') else Inr extensions))))))))))"

definition parse_client_hello_body :: "host_parser \<Rightarrow> bytes \<Rightarrow> inspection_error + utext" where
  "parse_client_hello_body host_parse body =
     rbind (read_hello_fields body) (\<lambda>extensions.
     rbind (parse_extensions (reader_new extensions) [] None) (\<lambda>server_name.
     rbind (ok_or server_name Ie_MissingServerName) (\<lambda>visible_name.
     rbind (ok_or (utf8_decode visible_name) Ie_InvalidServerName) (\<lambda>visible_name.
     map_err (\<lambda>_. Ie_InvalidServerName) (normalize_domain host_parse visible_name)))))"

definition inspect_client_hello :: "host_parser \<Rightarrow> bytes \<Rightarrow> inspection_error + utext" where
  "inspect_client_hello host_parse input =
     rbind (client_hello_wire_len input) (\<lambda>len.
     rbind (ok_or len Ie_TruncatedClientHello) (\<lambda>required.
     if length input \<noteq> required then Inl (Ie_InvalidClientHello ''trailing handshake bytes'')
     else parse_client_hello_body host_parse (drop 4 input)))"

definition inspect_client_hello_prefix :: "host_parser \<Rightarrow> bytes \<Rightarrow> inspection_error + utext option" where
  "inspect_client_hello_prefix host_parse input =
     rbind (client_hello_wire_len input) (\<lambda>len.
     case len of
       None \<Rightarrow> Inr None
     | Some required \<Rightarrow>
         if length input < required then Inr None
         else if length input > required then Inl (Ie_InvalidClientHello ''trailing handshake bytes'')
         else rbind (parse_client_hello_body host_parse (drop 4 (take required input))) (\<lambda>name. Inr (Some name)))"

section \<open>The record reassembler\<close>

record tls_inspector =
  ti_record_buffer :: bytes
  ti_handshake :: bytes
  ti_records :: nat
  ti_complete :: bool

definition tls_inspector_new :: tls_inspector where
  "tls_inspector_new = \<lparr>ti_record_buffer = [], ti_handshake = [], ti_records = 0, ti_complete = False\<rparr>"

text \<open>The checks of one record header: more bytes are needed, or the length of the record's payload.\<close>

definition record_header :: "bytes \<Rightarrow> inspection_error + nat option" where
  "record_header buffer =
     (if length buffer < 5 then Inr None
      else if buffer ! 0 \<noteq> TLS_HANDSHAKE_CONTENT_TYPE
      then Inl (Ie_InvalidTlsRecord ''non-handshake record before ClientHello'')
      else if buffer ! 1 \<noteq> 3 \<or> \<not> (1 \<le> buffer ! 2 \<and> buffer ! 2 \<le> 3)
      then Inl (Ie_InvalidTlsRecord ''unsupported legacy record version'')
      else
        let payload_len = be_nat [buffer ! 3, buffer ! 4] in
        if payload_len = 0 \<or> payload_len > MAX_TLS_RECORD_PAYLOAD_BYTES
        then Inl (Ie_InvalidTlsRecord ''invalid plaintext record length'')
        else if length buffer < 5 + payload_len then Inr None else Inr (Some payload_len))"

lemma record_header_shorter: "record_header b = Inr (Some n) \<Longrightarrow> 5 \<le> length b \<and> 0 < n \<and> 5 + n \<le> length b"
  by (auto simp: record_header_def Let_def split: if_splits)

text \<open>One round of the loop over the buffered records: it returns, or goes on with the next state.\<close>

definition tls_round ::
  "host_parser \<Rightarrow> tls_inspector \<Rightarrow> ((inspection_error + inspection_progress) \<times> tls_inspector) + tls_inspector" where
  "tls_round host_parse s =
     (case record_header (ti_record_buffer s) of
        Inl e \<Rightarrow> Inl (Inl e, s)
      | Inr None \<Rightarrow> Inl (Inr NeedMore, s)
      | Inr (Some payload_len) \<Rightarrow>
          let s1 = s\<lparr>ti_records := saturating_add_u64 (ti_records s) 1\<rparr> in
          if ti_records s1 > MAX_TLS_CLIENT_HELLO_RECORDS then Inl (Inl (Ie_ResourceLimit ''TLS record count''), s1)
          else if payload_len > MAX_CLIENT_HELLO_BYTES - length (ti_handshake s1)
          then Inl (Inl (Ie_ResourceLimit ''TLS ClientHello bytes''), s1)
          else
            let s2 = s1\<lparr>ti_handshake := ti_handshake s1 @ take payload_len (drop 5 (ti_record_buffer s1)),
                        ti_record_buffer := drop (5 + payload_len) (ti_record_buffer s1)\<rparr> in
            case client_hello_wire_len (ti_handshake s2) of
              Inl e \<Rightarrow> Inl (Inl e, s2)
            | Inr None \<Rightarrow> Inr s2
            | Inr (Some required) \<Rightarrow>
                if length (ti_handshake s2) > required
                then Inl (Inl (Ie_InvalidClientHello ''trailing handshake bytes''), s2)
                else if length (ti_handshake s2) = required
                then (case inspect_client_hello host_parse (ti_handshake s2) of
                        Inl e \<Rightarrow> Inl (Inl e, s2)
                      | Inr name \<Rightarrow> Inl (Inr (Complete name), s2\<lparr>ti_complete := True\<rparr>))
                else Inr s2)"

lemma tls_round_shorter: "tls_round host_parse s = Inr s' \<Longrightarrow> length (ti_record_buffer s') < length (ti_record_buffer s)"
  by (auto simp: tls_round_def Let_def split: sum.splits option.splits if_splits dest!: record_header_shorter)

function tls_loop :: "host_parser \<Rightarrow> tls_inspector \<Rightarrow> (inspection_error + inspection_progress) \<times> tls_inspector" where
  "tls_loop host_parse s = (case tls_round host_parse s of Inl result \<Rightarrow> result | Inr s' \<Rightarrow> tls_loop host_parse s')"
  by pat_completeness auto
termination
  by (relation "measure (\<lambda>(_, s). length (ti_record_buffer s))") (auto dest: tls_round_shorter)

definition tls_push :: "host_parser \<Rightarrow> bytes \<Rightarrow> tls_inspector \<Rightarrow> (inspection_error + inspection_progress) \<times> tls_inspector" where
  "tls_push host_parse input s =
     (if ti_complete s then (Inl Ie_AlreadyComplete, s)
      else if length input > MAX_TLS_CLIENT_HELLO_WIRE_BYTES - length (ti_record_buffer s)
      then (Inl (Ie_ResourceLimit ''TLS record buffer''), s)
      else tls_loop host_parse (s\<lparr>ti_record_buffer := ti_record_buffer s @ input\<rparr>))"

definition tls_finish :: "tls_inspector \<Rightarrow> inspection_error + utext" where
  "tls_finish s = (if ti_complete s then Inl Ie_AlreadyComplete else Inl Ie_TruncatedClientHello)"

section \<open>The reader by what it has left\<close>

definition rest :: "reader \<Rightarrow> bytes" where
  "rest r = drop (rd_offset r) (rd_input r)"

definition reader_ok :: "reader \<Rightarrow> bool" where
  "reader_ok r \<longleftrightarrow> rd_offset r \<le> length (rd_input r) \<and> length (rd_input r) + 65535 \<le> u64_max"

definition reads :: "reader \<Rightarrow> bytes \<Rightarrow> reader \<Rightarrow> bool" where
  "reads r v r' \<longleftrightarrow> reader_ok r \<and> r' = r\<lparr>rd_offset := rd_offset r + length v\<rparr> \<and> rest r = v @ rest r'"

lemma reader_new_ok: "length input + 65535 \<le> u64_max \<Longrightarrow> reader_ok (reader_new input)"
  and rest_new [simp]: "rest (reader_new input) = input"
  by (simp_all add: reader_ok_def reader_new_def rest_def)

lemma reader_empty_rest: "reader_ok r \<Longrightarrow> reader_is_empty r \<longleftrightarrow> rest r = []"
  and reader_remaining_rest: "reader_remaining r = length (rest r)"
  by (auto simp: reader_ok_def reader_is_empty_def reader_remaining_def rest_def)

lemma reads_ok: "reads r v r' \<Longrightarrow> reader_ok r'"
proof -
  assume a: "reads r v r'"
  then have "length (rest r) = length v + length (rest r')" by (simp add: reads_def)
  then have "length (rd_input r) - rd_offset r = length v + (length (rd_input r) - (rd_offset r + length v))"
    using a by (simp add: reads_def rest_def)
  with a show ?thesis by (auto simp: reads_def reader_ok_def)
qed

lemma reads_rest: "reads r v r' \<Longrightarrow> rest r = v @ rest r'"
  by (simp add: reads_def)

lemma reads_exists:
  assumes "reader_ok r" "rest r = v @ q"
  shows "\<exists>r'. reads r v r' \<and> rest r' = q"
proof -
  have "rest (r\<lparr>rd_offset := rd_offset r + length v\<rparr>) = drop (length v) (rest r)" by (simp add: rest_def add.commute)
  then have "rest (r\<lparr>rd_offset := rd_offset r + length v\<rparr>) = q" by (simp add: assms(2))
  with assms show ?thesis by (auto simp: reads_def)
qed

lemma reader_take_reads:
  assumes "reader_ok r" "n \<le> 65535"
  shows "reader_take n r = Inr (v, r') \<longleftrightarrow> length v = n \<and> reads r v r'"
proof
  assume "reader_take n r = Inr (v, r')"
  then have t: "rd_offset r + n \<le> length (rd_input r)" "v = take n (rest r)" "r' = r\<lparr>rd_offset := rd_offset r + n\<rparr>"
    by (auto simp: reader_take_def rest_def result_simps split: if_splits)
  then have l: "length v = n" by (simp add: rest_def)
  have "rest r' = drop n (rest r)" by (simp add: t(3) rest_def add.commute)
  with t l assms show "length v = n \<and> reads r v r'" by (simp add: reads_def)
next
  assume a: "length v = n \<and> reads r v r'"
  then have "reader_ok r'" by (blast intro: reads_ok)
  with a have "rd_offset r + n \<le> length (rd_input r)" "v = take n (rest r)"
    by (auto simp: reads_def reader_ok_def)
  moreover have "rd_offset r + n \<le> u64_max" using assms by (simp add: reader_ok_def)
  ultimately show "reader_take n r = Inr (v, r')" using a by (simp add: reader_take_def result_simps rest_def reads_def)
qed

lemma reader_u8_reads: "reader_ok r \<Longrightarrow> reader_u8 r = Inr (b, r') \<longleftrightarrow> reads r [b] r'"
  by (auto simp: reader_u8_def result_simps reader_take_reads length_Suc_conv)

lemma reader_u16_reads: "reader_ok r \<Longrightarrow> reader_u16 r = Inr (n, r') \<longleftrightarrow> n < 65536 \<and> reads r (be_bytes 2 n) r'"
proof -
  assume r: "reader_ok r"
  have "be_nat v < 65536 \<and> be_bytes 2 (be_nat v) = v" if "length v = 2" for v
    using that be_nat_bound [of v] be_bytes_be_nat [of v] by simp
  moreover have "be_nat (be_bytes 2 n) = n" if "n < 65536" using that by (simp add: be_nat_be_bytes)
  ultimately show ?thesis
    using r by (auto simp: reader_u16_def result_simps reader_take_reads intro!: exI [of _ "be_bytes 2 n"])
qed

lemma reads_append: "reads r (u @ v) r'' \<longleftrightarrow> (\<exists>r'. reads r u r' \<and> reads r' v r'')"
proof
  assume a: "reads r (u @ v) r''"
  then have "rest r = u @ (v @ rest r'')" "reader_ok r" by (simp_all add: reads_def)
  then obtain r' where r': "reads r u r'" "rest r' = v @ rest r''" using reads_exists by blast
  then have "r'' = r'\<lparr>rd_offset := rd_offset r' + length v\<rparr>" using a by (simp add: reads_def add.assoc)
  with r' reads_ok [OF r'(1)] show "\<exists>r'. reads r u r' \<and> reads r' v r''" by (auto simp: reads_def)
next
  assume "\<exists>r'. reads r u r' \<and> reads r' v r''"
  then show "reads r (u @ v) r''" by (auto simp: reads_def add.assoc)
qed

lemma reads_all: "reader_ok r \<Longrightarrow> (\<exists>r'. reads r v r' \<and> rest r' = []) \<longleftrightarrow> rest r = v"
  using reads_exists [of r v "[]"] by (auto simp: reads_def)

section \<open>The grammar of the message\<close>

definition extension_bytes :: "nat \<times> bytes \<Rightarrow> bytes" where
  "extension_bytes x = be_bytes 2 (fst x) @ be_bytes 2 (length (snd x)) @ snd x"

definition extensions_bytes :: "(nat \<times> bytes) list \<Rightarrow> bytes" where
  "extensions_bytes xs = concat (map extension_bytes xs)"

definition sni_bytes :: "bytes \<Rightarrow> bytes" where
  "sni_bytes name = be_bytes 2 (3 + length name) @ [0] @ be_bytes 2 (length name) @ name"

record client_hello =
  ch_random :: bytes
  ch_session_id :: bytes
  ch_cipher_suites :: bytes
  ch_extensions :: "(nat \<times> bytes) list"

definition client_hello_body :: "client_hello \<Rightarrow> bytes" where
  "client_hello_body h =
     be_bytes 2 0x0303 @ ch_random h @ [word_of_nat (length (ch_session_id h))] @ ch_session_id h
     @ be_bytes 2 (length (ch_cipher_suites h)) @ ch_cipher_suites h @ [1] @ [0]
     @ be_bytes 2 (length (extensions_bytes (ch_extensions h))) @ extensions_bytes (ch_extensions h)"

definition extensions_ok :: "(nat \<times> bytes) list \<Rightarrow> bool" where
  "extensions_ok xs \<longleftrightarrow> (\<forall>x \<in> set xs. fst x < 65536 \<and> length (snd x) < 65536) \<and> distinct (map fst xs)
     \<and> set (map fst xs) \<inter> set encrypted_extensions = {}"

definition client_hello_ok :: "client_hello \<Rightarrow> bool" where
  "client_hello_ok h \<longleftrightarrow> length (ch_random h) = 32 \<and> length (ch_session_id h) \<le> 32
     \<and> 2 \<le> length (ch_cipher_suites h) \<and> even (length (ch_cipher_suites h)) \<and> length (ch_cipher_suites h) < 65536
     \<and> extensions_ok (ch_extensions h) \<and> length (ch_extensions h) \<le> MAX_TLS_EXTENSIONS
     \<and> length (extensions_bytes (ch_extensions h)) < 65536"

section \<open>The parser accepts the grammar\<close>

lemma parse_server_name_iff:
  assumes "length data < 65536"
  shows "parse_server_name data = Inr name \<longleftrightarrow> name \<noteq> [] \<and> data = sni_bytes name"
proof
  assume "parse_server_name data = Inr name"
  then obtain l r1 r2 n r3 r4 where c: "reader_u16 (reader_new data) = Inr (l, r1)" "l = reader_remaining r1"
    "reader_u8 r1 = Inr (0, r2)" "reader_u16 r2 = Inr (n, r3)" "n \<noteq> 0" "reader_take n r3 = Inr (name, r4)" "reader_is_empty r4"
    by (auto simp: parse_server_name_def result_simps split: if_splits)
  have o: "reader_ok (reader_new data)" using assms by (intro reader_new_ok) (simp add: u64_max_def)
  from c(1) o have l: "l < 65536" "reads (reader_new data) (be_bytes 2 l) r1" by (simp_all add: reader_u16_reads)
  from c(3) reads_ok [OF l(2)] have r2: "reads r1 [0] r2" by (simp add: reader_u8_reads)
  from c(4) reads_ok [OF r2] have r3: "n < 65536" "reads r2 (be_bytes 2 n) r3" by (simp_all add: reader_u16_reads)
  from c(6) reads_ok [OF r3(2)] r3(1) have r4: "length name = n" "reads r3 name r4" by (simp_all add: reader_take_reads)
  have e: "rest r4 = []" using c(7) reads_ok [OF r4(2)] by (simp add: reader_empty_rest)
  have t: "rest r1 = [0] @ be_bytes 2 n @ name" using reads_rest [OF r2] reads_rest [OF r3(2)] reads_rest [OF r4(2)] e by simp
  then have n: "l = 3 + length name" using c(2) r4(1) by (simp add: reader_remaining_rest)
  have "data = be_bytes 2 l @ rest r1" using reads_rest [OF l(2)] by simp
  with t n r4(1) c(5) show "name \<noteq> [] \<and> data = sni_bytes name" by (simp add: sni_bytes_def) force
next
  assume n: "name \<noteq> [] \<and> data = sni_bytes name"
  with assms have b: "3 + length name < 65536" by (simp add: sni_bytes_def)
  have o: "reader_ok (reader_new data)" using assms by (intro reader_new_ok) (simp add: u64_max_def)
  from n obtain r4 where "reads (reader_new data) (sni_bytes name) r4" and e4: "rest r4 = []"
    using reads_all [OF o, of "sni_bytes name"] by auto
  then obtain r1 r2 r3 where r: "reads (reader_new data) (be_bytes 2 (3 + length name)) r1" "reads r1 [0] r2"
    "reads r2 (be_bytes 2 (length name)) r3" "reads r3 name r4"
    unfolding sni_bytes_def reads_append by blast
  note k = reads_ok [OF r(1)] reads_ok [OF r(2)] reads_ok [OF r(3)] reads_ok [OF r(4)]
  have "rest r1 = [0] @ be_bytes 2 (length name) @ name"
    using reads_rest [OF r(2)] reads_rest [OF r(3)] reads_rest [OF r(4)] e4 by simp
  then have m: "reader_remaining r1 = 3 + length name" by (simp add: reader_remaining_rest)
  have e: "reader_is_empty r4" using k(4) e4 by (simp add: reader_empty_rest)
  have c: "reader_u16 (reader_new data) = Inr (3 + length name, r1)" "reader_u8 r1 = Inr (0, r2)"
    "reader_u16 r2 = Inr (length name, r3)" "reader_take (length name) r3 = Inr (name, r4)"
    using r b by (simp_all add: reader_u16_reads [OF o] reader_u8_reads [OF k(1)] reader_u16_reads [OF k(2)] reader_take_reads [OF k(3)])
  show "parse_server_name data = Inr name" using m e n [THEN conjunct1] by (simp add: parse_server_name_def c)
qed

lemma read_extension_iff:
  assumes "reader_ok r"
  shows "read_extension r = Inr (t, d, r') \<longleftrightarrow> t < 65536 \<and> length d < 65536 \<and> reads r (extension_bytes (t, d)) r'"
proof
  assume "read_extension r = Inr (t, d, r')"
  then obtain r1 n r2 where c: "reader_u16 r = Inr (t, r1)" "reader_u16 r1 = Inr (n, r2)" "reader_take n r2 = Inr (d, r')"
    by (auto simp: read_extension_def result_simps)
  from c(1) assms have r1: "t < 65536" "reads r (be_bytes 2 t) r1" by (simp_all add: reader_u16_reads)
  from c(2) reads_ok [OF r1(2)] have r2: "n < 65536" "reads r1 (be_bytes 2 n) r2" by (simp_all add: reader_u16_reads)
  from c(3) reads_ok [OF r2(2)] r2(1) have "length d = n" "reads r2 d r'" by (simp_all add: reader_take_reads)
  with r1 r2 show "t < 65536 \<and> length d < 65536 \<and> reads r (extension_bytes (t, d)) r'"
    unfolding extension_bytes_def reads_append by auto
next
  assume a: "t < 65536 \<and> length d < 65536 \<and> reads r (extension_bytes (t, d)) r'"
  then obtain r1 r2 where r: "reads r (be_bytes 2 t) r1" "reads r1 (be_bytes 2 (length d)) r2" "reads r2 d r'"
    unfolding extension_bytes_def reads_append by auto
  note k = reads_ok [OF r(1)] reads_ok [OF r(2)]
  have "reader_u16 r = Inr (t, r1)" "reader_u16 r1 = Inr (length d, r2)" "reader_take (length d) r2 = Inr (d, r')"
    using a r by (simp_all add: reader_u16_reads [OF assms] reader_u16_reads [OF k(1)] reader_take_reads [OF k(2)])
  then show "read_extension r = Inr (t, d, r')" by (simp add: read_extension_def)
qed

declare parse_extensions.simps [simp del]

text \<open>The name the loop finds: that of the server-name extension, or the one it had before.\<close>

definition names :: "(nat \<times> bytes) list \<Rightarrow> bytes option \<Rightarrow> bytes option \<Rightarrow> bool" where
  "names xs before after \<longleftrightarrow>
     (case map_of xs SERVER_NAME_EXTENSION of
        None \<Rightarrow> after = before
      | Some d \<Rightarrow> \<exists>name. name \<noteq> [] \<and> d = sni_bytes name \<and> after = Some name)"

definition continues :: "reader \<Rightarrow> nat list \<Rightarrow> bytes option \<Rightarrow> bytes option \<Rightarrow> bool" where
  "continues r seen before after \<longleftrightarrow>
     (\<exists>xs. rest r = extensions_bytes xs \<and> extensions_ok xs \<and> set (map fst xs) \<inter> set seen = {}
        \<and> length seen + length xs \<le> MAX_TLS_EXTENSIONS \<and> names xs before after)"

lemma extensions_bytes_Nil [simp]: "extensions_bytes xs = [] \<longleftrightarrow> xs = []"
proof (cases xs)
  case (Cons x ys)
  have "length (be_bytes 2 (fst x)) = 2" by simp
  then have "be_bytes 2 (fst x) \<noteq> []" by force
  with Cons show ?thesis by (simp add: extensions_bytes_def extension_bytes_def)
qed (simp add: extensions_bytes_def)

lemma continues_Nil:
  assumes "rest r = []" "length seen \<le> MAX_TLS_EXTENSIONS"
  shows "continues r seen before after \<longleftrightarrow> after = before"
proof -
  have "rest r = extensions_bytes xs \<longleftrightarrow> xs = []" for xs using assms(1) extensions_bytes_Nil [of xs] by (simp add: eq_commute)
  with assms(2) show ?thesis by (simp add: continues_def names_def extensions_ok_def)
qed

lemma num_256_2: "(256 :: nat) ^ 2 = 65536"
  by simp

lemma be_bytes2_eq: "a < 65536 \<Longrightarrow> b < 65536 \<Longrightarrow> be_bytes 2 a = be_bytes 2 b \<Longrightarrow> a = b"
  using be_nat_be_bytes [of 2 a] be_nat_be_bytes [of 2 b] by (metis mod_less num_256_2)

lemma extensions_bytes_Cons [simp]: "extensions_bytes (x # xs) = extension_bytes x @ extensions_bytes xs"
  by (simp add: extensions_bytes_def)

lemma extension_bytes_inj:
  assumes "extension_bytes x @ p = extension_bytes y @ q"
    "fst x < 65536" "length (snd x) < 65536" "fst y < 65536" "length (snd y) < 65536"
  shows "x = y \<and> p = q"
proof -
  have a: "be_bytes 2 (fst x) = be_bytes 2 (fst y)"
    "be_bytes 2 (length (snd x)) @ snd x @ p = be_bytes 2 (length (snd y)) @ snd y @ q"
    using assms(1) by (simp_all add: extension_bytes_def)
  then have "be_bytes 2 (length (snd x)) = be_bytes 2 (length (snd y))" "snd x @ p = snd y @ q" by simp_all
  with a(1) assms(2-5) have "fst x = fst y" "length (snd x) = length (snd y)" by (auto intro: be_bytes2_eq)
  with \<open>snd x @ p = snd y @ q\<close> show ?thesis by (simp add: prod_eq_iff)
qed

lemma names_Cons:
  assumes "fst x \<notin> fst ` set xs"
  shows "names (x # xs) before after \<longleftrightarrow>
    (if fst x = SERVER_NAME_EXTENSION then \<exists>name. name \<noteq> [] \<and> snd x = sni_bytes name \<and> names xs (Some name) after
     else names xs before after)"
proof (cases "fst x = SERVER_NAME_EXTENSION")
  case True
  with assms have "map_of xs SERVER_NAME_EXTENSION = None" by (simp add: map_of_eq_None_iff)
  with True show ?thesis by (cases x) (auto simp: names_def)
qed (cases x, simp add: names_def)

lemma extensions_ok_Cons:
  "extensions_ok (x # xs) \<longleftrightarrow> fst x < 65536 \<and> length (snd x) < 65536 \<and> fst x \<notin> set encrypted_extensions
     \<and> fst x \<notin> fst ` set xs \<and> extensions_ok xs"
  by (auto simp: extensions_ok_def)

lemma extension_bytes_len: "length (snd x) \<le> length (extension_bytes x)"
  by (simp add: extension_bytes_def)

lemma continues_step:
  assumes "reader_ok r" "rest r \<noteq> []" "length seen \<le> MAX_TLS_EXTENSIONS"
  shows "continues r seen before after \<longleftrightarrow>
    length seen < MAX_TLS_EXTENSIONS \<and> (\<exists>t d r'. read_extension r = Inr (t, d, r') \<and> t \<notin> set seen \<and> t \<notin> set encrypted_extensions
      \<and> (if t = SERVER_NAME_EXTENSION
         then \<exists>name. parse_server_name d = Inr name \<and> continues r' (t # seen) (Some name) after
         else continues r' (t # seen) before after))" (is "?l \<longleftrightarrow> ?r")
proof
  assume ?l
  then obtain xs where xs: "rest r = extensions_bytes xs" "extensions_ok xs" "set (map fst xs) \<inter> set seen = {}"
    "length seen + length xs \<le> MAX_TLS_EXTENSIONS" "names xs before after" unfolding continues_def by blast
  with assms(2) obtain t d ys where c: "xs = (t, d) # ys" by (cases xs) auto
  then have ok: "t < 65536" "length d < 65536" "t \<notin> set encrypted_extensions" "t \<notin> fst ` set ys" "extensions_ok ys"
    using xs(2) by (simp_all add: extensions_ok_Cons)
  obtain r' where r': "reads r (extension_bytes (t, d)) r'" "rest r' = extensions_bytes ys"
    using reads_exists [OF assms(1)] xs(1) c by auto
  have "continues r' (t # seen) b after" if "names ys b after" for b
    unfolding continues_def using that xs(3,4) c ok r'(2) by (intro exI [of _ ys]) auto
  moreover have "read_extension r = Inr (t, d, r')" using r'(1) ok by (simp add: read_extension_iff [OF assms(1)])
  moreover have "if t = SERVER_NAME_EXTENSION then \<exists>name. parse_server_name d = Inr name \<and> names ys (Some name) after
      else names ys before after"
    using xs(5) ok by (simp add: c names_Cons parse_server_name_iff split: if_splits)
  ultimately show ?r using ok(3) xs(3,4) c
    by (intro conjI exI [of _ t] exI [of _ d] exI [of _ r']) (auto split: if_splits)
next
  assume ?r
  then obtain t d r' where e: "length seen < MAX_TLS_EXTENSIONS" "read_extension r = Inr (t, d, r')" "t \<notin> set seen"
    "t \<notin> set encrypted_extensions" and i: "if t = SERVER_NAME_EXTENSION
         then \<exists>name. parse_server_name d = Inr name \<and> continues r' (t # seen) (Some name) after
         else continues r' (t # seen) before after" by blast
  from e(2) assms(1) have rd: "t < 65536" "length d < 65536" "reads r (extension_bytes (t, d)) r'"
    by (simp_all add: read_extension_iff)
  from i obtain b where b: "continues r' (t # seen) b after"
    "if t = SERVER_NAME_EXTENSION then \<exists>name. name \<noteq> [] \<and> d = sni_bytes name \<and> b = Some name else b = before"
    using rd(2) by (auto simp: parse_server_name_iff split: if_splits)
  from b(1) obtain ys where ys: "rest r' = extensions_bytes ys" "extensions_ok ys" "set (map fst ys) \<inter> set (t # seen) = {}"
    "length (t # seen) + length ys \<le> MAX_TLS_EXTENSIONS" "names ys b after" unfolding continues_def by blast
  have "names ((t, d) # ys) before after" using b(2) ys(3,5) by (subst names_Cons) (auto split: if_splits)
  then show ?l unfolding continues_def
    using rd ys e reads_rest [OF rd(3)] by (intro exI [of _ "(t, d) # ys"]) (auto simp: extensions_ok_Cons)
qed

lemma parse_extensions_iff:
  assumes "reader_ok r" "length seen \<le> MAX_TLS_EXTENSIONS"
  shows "parse_extensions r seen before = Inr after \<longleftrightarrow> continues r seen before after"
  using assms
proof (induction r seen before rule: parse_extensions.induct)
  case (1 r seen before)
  show ?case
  proof (cases "rest r = []")
    case True
    then show ?thesis using "1.prems" by (simp add: parse_extensions.simps [of r] continues_Nil reader_empty_rest eq_commute)
  next
    case False
    then have ne: "\<not> reader_is_empty r" using "1.prems" by (simp add: reader_empty_rest)
    show ?thesis
    proof (cases "read_extension r")
      case (Inl e)
      with ne show ?thesis by (simp add: parse_extensions.simps [of r] continues_step [OF "1.prems"(1) False "1.prems"(2)])
    next
      case (Inr tdr)
      obtain t d r' where tdr: "tdr = (t, d, r')" by (rule prod_cases3)
      with Inr have rd: "read_extension r = Inr (t, d, r')" by simp
      then have ok: "reader_ok r'" using "1.prems"(1) reads_ok by (auto simp: read_extension_iff)
      show ?thesis
      proof (cases "length seen < MAX_TLS_EXTENSIONS \<and> t \<notin> set seen \<and> t \<notin> set encrypted_extensions")
        case False
        then show ?thesis using ne "1.prems"(2)
          by (auto simp: parse_extensions.simps [of r] rd continues_step [OF "1.prems"(1) \<open>rest r \<noteq> []\<close> "1.prems"(2)])
      next
        case True
        then have l: "length (t # seen) \<le> MAX_TLS_EXTENSIONS" and l': "length seen \<noteq> MAX_TLS_EXTENSIONS" by simp_all
        have a: "parse_extensions r' (t # seen) (Some name) = Inr after \<longleftrightarrow> continues r' (t # seen) (Some name) after"
          if "t = SERVER_NAME_EXTENSION" "parse_server_name d = Inr name" for name
          using "1.IH"(1) [OF ne l' Inr tdr [symmetric]] that True ok l by blast
        have b: "parse_extensions r' (t # seen) before = Inr after \<longleftrightarrow> continues r' (t # seen) before after"
          if "t \<noteq> SERVER_NAME_EXTENSION"
          using "1.IH"(2) [OF ne l' Inr tdr [symmetric]] that True ok l by blast
        show ?thesis
          using True ne a b
          by (auto simp: parse_extensions.simps [of r] rd continues_step [OF "1.prems"(1) \<open>rest r \<noteq> []\<close> "1.prems"(2)] split: sum.splits)
      qed
    qed
  qed
qed

definition visible_name :: "host_parser \<Rightarrow> client_hello \<Rightarrow> utext \<Rightarrow> bool" where
  "visible_name host_parse h n \<longleftrightarrow>
     (\<exists>name decoded. name \<noteq> [] \<and> map_of (ch_extensions h) SERVER_NAME_EXTENSION = Some (sni_bytes name)
        \<and> utf8_decode name = Some decoded \<and> normalize_domain host_parse decoded = Inr n)"

lemma parse_extensions_new:
  assumes "length es < 65536"
  shows "parse_extensions (reader_new es) [] None = Inr (Some name) \<longleftrightarrow>
    (\<exists>xs. es = extensions_bytes xs \<and> extensions_ok xs \<and> length xs \<le> MAX_TLS_EXTENSIONS
       \<and> name \<noteq> [] \<and> map_of xs SERVER_NAME_EXTENSION = Some (sni_bytes name))"
proof -
  have ok: "reader_ok (reader_new es)" using assms by (intro reader_new_ok) (simp add: u64_max_def)
  have "names xs None (Some name) \<longleftrightarrow> name \<noteq> [] \<and> map_of xs SERVER_NAME_EXTENSION = Some (sni_bytes name)" for xs
    by (auto simp: names_def split: option.splits)
  then show ?thesis unfolding parse_extensions_iff [OF ok, of "[]", simplified] by (simp add: continues_def)
qed

lemma unat_byte_one: "unat (b :: byte) = 1 \<longleftrightarrow> b = 1"
  by (simp add: word_unat_eq_iff)

definition hello_fields :: "bytes \<Rightarrow> bytes \<Rightarrow> bytes \<Rightarrow> bytes \<Rightarrow> bytes" where
  "hello_fields random session ciphers es =
     be_bytes 2 0x0303 @ random @ [word_of_nat (length session)] @ session @ be_bytes 2 (length ciphers) @ ciphers
     @ [1] @ [0] @ be_bytes 2 (length es) @ es"

definition fields_ok :: "bytes \<Rightarrow> bytes \<Rightarrow> bytes \<Rightarrow> bytes \<Rightarrow> bool" where
  "fields_ok random session ciphers es \<longleftrightarrow> length random = 32 \<and> length session \<le> 32 \<and> 2 \<le> length ciphers
     \<and> even (length ciphers) \<and> length ciphers < 65536 \<and> length es < 65536"

lemma fields_read:
  assumes "length body \<le> MAX_CLIENT_HELLO_BYTES" "read_hello_fields body = Inr es"
  shows "\<exists>random session ciphers. fields_ok random session ciphers es \<and> body = hello_fields random session ciphers es"
proof -
  from assms(2) obtain r1 random r2 sl r3 session r4 cl r5 ciphers r6 pl r7 r8 el r9 r10 where c:
    "reader_u16 (reader_new body) = Inr (0x0303, r1)" "reader_take 32 r1 = Inr (random, r2)" "reader_u8 r2 = Inr (sl, r3)"
    "reader_take (unat sl) r3 = Inr (session, r4)" "reader_u16 r4 = Inr (cl, r5)" "reader_take cl r5 = Inr (ciphers, r6)"
    "reader_u8 r6 = Inr (pl, r7)" "reader_take (unat pl) r7 = Inr ([0], r8)" "reader_u16 r8 = Inr (el, r9)"
    "reader_take el r9 = Inr (es, r10)" "reader_is_empty r10" and p: "unat sl \<le> 32" "\<not> cl < 2" "cl mod 2 = 0"
    by (auto simp: read_hello_fields_def result_simps not_less split: if_splits)
  have o: "reader_ok (reader_new body)"
    using assms(1) by (intro reader_new_ok) (simp add: u64_max_def MAX_CLIENT_HELLO_BYTES_def)
  have r1: "reads (reader_new body) (be_bytes 2 0x0303) r1" using c(1) by (simp add: reader_u16_reads [OF o])
  have r2: "length random = 32" "reads r1 random r2" using c(2) by (simp_all add: reader_take_reads [OF reads_ok [OF r1]])
  have r3: "reads r2 [sl] r3" using c(3) by (simp add: reader_u8_reads [OF reads_ok [OF r2(2)]])
  have r4: "length session = unat sl" "reads r3 session r4"
    using c(4) p(1) by (simp_all add: reader_take_reads [OF reads_ok [OF r3]])
  have r5: "cl < 65536" "reads r4 (be_bytes 2 cl) r5" using c(5) by (simp_all add: reader_u16_reads [OF reads_ok [OF r4(2)]])
  have r6: "length ciphers = cl" "reads r5 ciphers r6"
    using c(6) r5(1) by (simp_all add: reader_take_reads [OF reads_ok [OF r5(2)]])
  have r7: "reads r6 [pl] r7" using c(7) by (simp add: reader_u8_reads [OF reads_ok [OF r6(2)]])
  have "unat pl \<le> 65535" using unat_byte_bound [of pl] by simp
  with c(8) have r8: "length [0 :: byte] = unat pl" "reads r7 [0] r8"
    by (simp_all only: reader_take_reads [OF reads_ok [OF r7]])
  have r9: "el < 65536" "reads r8 (be_bytes 2 el) r9" using c(9) by (simp_all add: reader_u16_reads [OF reads_ok [OF r8(2)]])
  have r10: "length es = el" "reads r9 es r10" using c(10) r9(1) by (simp_all add: reader_take_reads [OF reads_ok [OF r9(2)]])
  have "rest r10 = []" using c(11) reads_ok [OF r10(2)] by (simp add: reader_empty_rest)
  moreover have "pl = 1" using r8(1) by (simp add: unat_byte_one [symmetric])
  ultimately have "body = hello_fields random session ciphers es"
    using reads_rest [OF r1] reads_rest [OF r2(2)] reads_rest [OF r3] reads_rest [OF r4(2)] reads_rest [OF r5(2)]
      reads_rest [OF r6(2)] reads_rest [OF r7] reads_rest [OF r8(2)] reads_rest [OF r9(2)] reads_rest [OF r10(2)]
      r10(1) r6(1) r4(1) by (simp add: hello_fields_def)
  with r2(1) r4(1) p r5(1) r6(1) r9(1) r10(1) show ?thesis
    by (intro exI [of _ random] exI [of _ session] exI [of _ ciphers]) (simp add: fields_ok_def even_iff_mod_2_eq_zero)
qed

lemma fields_written:
  assumes "length body \<le> MAX_CLIENT_HELLO_BYTES" "fields_ok random session ciphers es" "body = hello_fields random session ciphers es"
  shows "read_hello_fields body = Inr es"
proof -
  note f = assms(2) [unfolded fields_ok_def]
  have o: "reader_ok (reader_new body)"
    using assms(1) by (intro reader_new_ok) (simp add: u64_max_def MAX_CLIENT_HELLO_BYTES_def)
  obtain r10 where a: "reads (reader_new body) (hello_fields random session ciphers es) r10" and e: "rest r10 = []"
    using reads_all [OF o] assms(3) by auto
  obtain r1 r2 r3 r4 r5 r6 r7 r8 r9 where
    r1: "reads (reader_new body) (be_bytes 2 0x0303) r1" and r2: "reads r1 random r2"
    and r3: "reads r2 [word_of_nat (length session)] r3" and r4: "reads r3 session r4"
    and r5: "reads r4 (be_bytes 2 (length ciphers)) r5" and r6: "reads r5 ciphers r6" and r7: "reads r6 [1] r7"
    and r8: "reads r7 [0] r8" and r9: "reads r8 (be_bytes 2 (length es)) r9" and r10: "reads r9 es r10"
    using a unfolding hello_fields_def reads_append by blast
  have s: "unat (word_of_nat (length session) :: byte) = length session" using f by (simp add: unat_word_of_nat_byte)
  have "reader_u16 (reader_new body) = Inr (0x0303, r1)" using r1 by (simp add: reader_u16_reads [OF o])
  moreover have "reader_take 32 r1 = Inr (random, r2)" using r2 f by (simp add: reader_take_reads [OF reads_ok [OF r1]])
  moreover have "reader_u8 r2 = Inr (word_of_nat (length session), r3)" using r3 by (simp add: reader_u8_reads [OF reads_ok [OF r2]])
  moreover have "reader_take (length session) r3 = Inr (session, r4)" using r4 f by (simp add: reader_take_reads [OF reads_ok [OF r3]])
  moreover have "reader_u16 r4 = Inr (length ciphers, r5)" using r5 f by (simp add: reader_u16_reads [OF reads_ok [OF r4]])
  moreover have "reader_take (length ciphers) r5 = Inr (ciphers, r6)" using r6 f by (simp add: reader_take_reads [OF reads_ok [OF r5]])
  moreover have "reader_u8 r6 = Inr (1, r7)" using r7 by (simp add: reader_u8_reads [OF reads_ok [OF r6]])
  moreover have "reader_take 1 r7 = Inr ([0], r8)" using r8 by (simp add: reader_take_reads [OF reads_ok [OF r7]])
  moreover have "reader_u16 r8 = Inr (length es, r9)" using r9 f by (simp add: reader_u16_reads [OF reads_ok [OF r8]])
  moreover have "reader_take (length es) r9 = Inr (es, r10)" using r10 f by (simp add: reader_take_reads [OF reads_ok [OF r9]])
  moreover have "reader_is_empty r10" using e by (simp add: reader_empty_rest [OF reads_ok [OF r10]])
  ultimately show ?thesis using f s by (simp add: read_hello_fields_def even_iff_mod_2_eq_zero)
qed

lemma read_hello_fields_iff:
  assumes "length body \<le> MAX_CLIENT_HELLO_BYTES"
  shows "read_hello_fields body = Inr es \<longleftrightarrow>
    (\<exists>random session ciphers. fields_ok random session ciphers es \<and> body = hello_fields random session ciphers es)"
  using fields_read [OF assms] fields_written [OF assms] by blast

lemma parse_body_iff:
  assumes "length body \<le> MAX_CLIENT_HELLO_BYTES"
  shows "parse_client_hello_body host_parse body = Inr n \<longleftrightarrow>
    (\<exists>h. client_hello_ok h \<and> body = client_hello_body h \<and> visible_name host_parse h n)" (is "?l \<longleftrightarrow> ?r")
proof
  assume ?l
  then obtain es name decoded where p: "read_hello_fields body = Inr es"
    "parse_extensions (reader_new es) [] None = Inr (Some name)" "utf8_decode name = Some decoded"
    "normalize_domain host_parse decoded = Inr n"
    by (auto simp: parse_client_hello_body_def result_simps)
  obtain random session ciphers where f: "fields_ok random session ciphers es" "body = hello_fields random session ciphers es"
    using p(1) read_hello_fields_iff [OF assms] by blast
  then obtain xs where xs: "es = extensions_bytes xs" "extensions_ok xs" "length xs \<le> MAX_TLS_EXTENSIONS"
    "name \<noteq> []" "map_of xs SERVER_NAME_EXTENSION = Some (sni_bytes name)"
    using p(2) by (auto simp: parse_extensions_new fields_ok_def)
  let ?h = "\<lparr>ch_random = random, ch_session_id = session, ch_cipher_suites = ciphers, ch_extensions = xs\<rparr>"
  have "client_hello_ok ?h \<and> body = client_hello_body ?h \<and> visible_name host_parse ?h n"
    using f xs p(3,4) by (auto simp: client_hello_ok_def fields_ok_def client_hello_body_def hello_fields_def visible_name_def)
  then show ?r by blast
next
  assume ?r
  then obtain h where h: "client_hello_ok h" "body = client_hello_body h" "visible_name host_parse h n" by blast
  let ?es = "extensions_bytes (ch_extensions h)"
  have "read_hello_fields body = Inr ?es"
    unfolding read_hello_fields_iff [OF assms] using h(1,2)
    by (intro exI [of _ "ch_random h"] exI [of _ "ch_session_id h"] exI [of _ "ch_cipher_suites h"])
      (simp add: client_hello_ok_def fields_ok_def client_hello_body_def hello_fields_def)
  moreover obtain name decoded where n: "name \<noteq> []" "map_of (ch_extensions h) SERVER_NAME_EXTENSION = Some (sni_bytes name)"
    "utf8_decode name = Some decoded" "normalize_domain host_parse decoded = Inr n" using h(3) by (auto simp: visible_name_def)
  moreover have "parse_extensions (reader_new ?es) [] None = Inr (Some name)"
    using h(1) n(1,2) by (subst parse_extensions_new) (auto simp: client_hello_ok_def)
  ultimately show ?l by (simp add: parse_client_hello_body_def)
qed

lemma client_hello_wire_len_Some:
  "client_hello_wire_len input = Inr (Some len) \<longleftrightarrow>
     4 \<le> length input \<and> hd input = CLIENT_HELLO_HANDSHAKE_TYPE \<and> len = be_nat (take 3 (drop 1 input)) + 4 \<and> len \<le> MAX_CLIENT_HELLO_BYTES"
proof -
  have "be_nat (take 3 (drop 1 input)) + 4 \<le> u64_max" if "be_nat (take 3 (drop 1 input)) + 4 \<le> MAX_CLIENT_HELLO_BYTES"
    using that by (simp add: u64_max_def MAX_CLIENT_HELLO_BYTES_def)
  moreover have "input \<noteq> []" if "4 \<le> length input" using that by auto
  ultimately show ?thesis
    by (auto simp: client_hello_wire_len_def result_simps checked_add_u64_def split: if_splits)
qed

definition client_hello_message :: "client_hello \<Rightarrow> bytes" where
  "client_hello_message h = [CLIENT_HELLO_HANDSHAKE_TYPE] @ be_bytes 3 (length (client_hello_body h)) @ client_hello_body h"

lemma inspect_iff:
  "inspect_client_hello host_parse input = Inr n \<longleftrightarrow>
     (\<exists>h. client_hello_ok h \<and> visible_name host_parse h n \<and> input = client_hello_message h
        \<and> length input \<le> MAX_CLIENT_HELLO_BYTES)" (is "?l \<longleftrightarrow> ?r")
proof
  assume ?l
  then have w: "client_hello_wire_len input = Inr (Some (length input))" "parse_client_hello_body host_parse (drop 4 input) = Inr n"
    by (auto simp: inspect_client_hello_def result_simps)
  let ?l = "take 3 (drop 1 input)"
  have t: "4 \<le> length input" "hd input = CLIENT_HELLO_HANDSHAKE_TYPE" "length input - 4 = be_nat ?l" "length input \<le> MAX_CLIENT_HELLO_BYTES"
    using w(1) [unfolded client_hello_wire_len_Some] by linarith+
  have "length (drop 4 input) \<le> MAX_CLIENT_HELLO_BYTES" using t(4) by simp
  from w(2) [unfolded parse_body_iff [OF this]] obtain h where
    h: "client_hello_ok h" "drop 4 input = client_hello_body h" "visible_name host_parse h n" by blast
  have "length ?l = 3" using t(1) by simp
  moreover have "be_nat ?l = length (client_hello_body h)" unfolding h(2) [symmetric] t(3) [symmetric] by simp
  ultimately have l: "?l = be_bytes 3 (length (client_hello_body h))" using be_bytes_be_nat [of ?l] by simp
  obtain x xs where x: "input = x # xs" using t(1) by (cases input) auto
  have "input = [hd input] @ ?l @ drop 4 input" unfolding x by simp
  then have "input = client_hello_message h" unfolding l h(2) t(2) client_hello_message_def .
  with h t(4) show ?r by blast
next
  assume ?r
  then obtain h where h: "client_hello_ok h" "visible_name host_parse h n" "input = client_hello_message h"
    "length input \<le> MAX_CLIENT_HELLO_BYTES" by blast
  let ?b = "client_hello_body h"
  have l: "length input = length ?b + 4" using h(3) by (simp add: client_hello_message_def)
  then have "be_nat (be_bytes 3 (length ?b)) = length ?b"
    using h(4) by (simp add: be_nat_be_bytes MAX_CLIENT_HELLO_BYTES_def)
  then have "client_hello_wire_len input = Inr (Some (length input))"
    unfolding client_hello_wire_len_Some using h(3,4) l by (simp add: client_hello_message_def)
  moreover have d: "drop 4 input = ?b" using h(3) by (simp add: client_hello_message_def)
  moreover have "parse_client_hello_body host_parse ?b = Inr n"
    using h l by (subst parse_body_iff) auto
  ultimately show ?l by (simp add: inspect_client_hello_def)
qed

section \<open>Pieces of the stream\<close>

declare tls_loop.simps [simp del]

abbreviation fed :: "bytes \<Rightarrow> tls_inspector \<Rightarrow> tls_inspector" where
  "fed b s \<equiv> s\<lparr>ti_record_buffer := ti_record_buffer s @ b\<rparr>"

lemma record_header_more:
  assumes "record_header buf \<noteq> Inr None"
  shows "record_header (buf @ b) = record_header buf"
proof -
  have "5 \<le> length buf" using assms by (auto simp: record_header_def split: if_splits)
  then have "(buf @ b) ! i = buf ! i" if "i < 5" for i using that by (simp add: nth_append)
  then have n: "(buf @ b) ! 0 = buf ! 0" "(buf @ b) ! 1 = buf ! 1" "(buf @ b) ! 2 = buf ! 2" "(buf @ b) ! 3 = buf ! 3"
    "(buf @ b) ! 4 = buf ! 4" by simp_all
  from \<open>5 \<le> length buf\<close> have "\<not> length buf < 5" "\<not> length (buf @ b) < 5" by simp_all
  with assms show ?thesis unfolding record_header_def n Let_def by (auto split: if_splits)
qed

lemma tls_round_more:
  assumes "record_header (ti_record_buffer s) \<noteq> Inr None"
  shows "tls_round host_parse (fed b s) = map_sum (apsnd (fed b)) (fed b) (tls_round host_parse s)"
proof (cases "record_header (ti_record_buffer s)")
  case (Inl e)
  with record_header_more [OF assms, of b] show ?thesis by (simp add: tls_round_def)
next
  case (Inr x)
  with assms obtain n where n: "record_header (ti_record_buffer s) = Inr (Some n)" by (cases x) auto
  have l: "5 + n \<le> length (ti_record_buffer s)" using record_header_shorter [OF n] by simp
  then have t: "take n (drop 5 (ti_record_buffer s @ b)) = take n (drop 5 (ti_record_buffer s))"
    "drop (5 + n) (ti_record_buffer s @ b) = drop (5 + n) (ti_record_buffer s) @ b" by simp_all
  let ?h = "ti_handshake s @ take n (drop 5 (ti_record_buffer s))"
  have n': "record_header (ti_record_buffer s @ b) = Inr (Some n)" using record_header_more [OF assms, of b] n by simp
  consider (stop) "saturating_add_u64 (ti_records s) 1 > MAX_TLS_CLIENT_HELLO_RECORDS \<or> n > MAX_CLIENT_HELLO_BYTES - length (ti_handshake s)"
    | (go) "\<not> saturating_add_u64 (ti_records s) 1 > MAX_TLS_CLIENT_HELLO_RECORDS" "\<not> n > MAX_CLIENT_HELLO_BYTES - length (ti_handshake s)"
    by blast
  then show ?thesis
  proof cases
    case stop
    then show ?thesis by (auto simp: tls_round_def Let_def n n')
  next
    case go
    show ?thesis
    proof (cases "client_hello_wire_len ?h")
      case (Inl e)
      with go show ?thesis by (simp add: tls_round_def Let_def n n' t del: take_append drop_append)
    next
      case (Inr w)
      show ?thesis
      proof (cases w)
        case None
        with Inr go show ?thesis by (simp add: tls_round_def Let_def n n' t del: take_append drop_append)
      next
        case (Some required)
        with Inr go show ?thesis
          by (cases "inspect_client_hello host_parse ?h") (simp_all add: tls_round_def Let_def n n' t del: take_append drop_append)
      qed
    qed
  qed
qed

lemma tls_loop_more:
  assumes "tls_loop host_parse s = (r, s')"
  shows "tls_loop host_parse (fed b s) = (if r = Inr NeedMore then tls_loop host_parse (fed b s') else (r, fed b s'))"
  using assms
proof (induction host_parse s rule: tls_loop.induct)
  case (1 host_parse s)
  show ?case
  proof (cases "record_header (ti_record_buffer s) = Inr None")
    case True
    then have "tls_loop host_parse s = (Inr NeedMore, s)" by (simp add: tls_loop.simps [of _ s] tls_round_def)
    with "1.prems" show ?thesis by simp
  next
    case False
    note m = tls_round_more [OF this, of host_parse b]
    show ?thesis
    proof (cases "tls_round host_parse s")
      case (Inl res)
      with "1.prems" have res: "res = (r, s')" by (simp add: tls_loop.simps [of _ s])
      have "r \<noteq> Inr NeedMore"
        using False Inl res by (auto simp: tls_round_def Let_def split: sum.splits option.splits if_splits)
      with Inl res m show ?thesis by (simp add: tls_loop.simps [of _ "fed b s"])
    next
      case (Inr s2)
      with "1.prems" have "tls_loop host_parse s2 = (r, s')" by (simp add: tls_loop.simps [of _ s])
      from "1.IH" [OF Inr this] Inr m show ?thesis by (simp add: tls_loop.simps [of _ "fed b s"])
    qed
  qed
qed

text \<open>Feeding pieces until something other than a request for fed bytes is answered.\<close>

fun tls_feed :: "host_parser \<Rightarrow> bytes list \<Rightarrow> tls_inspector \<Rightarrow> (inspection_error + inspection_progress) \<times> tls_inspector" where
  "tls_feed host_parse [] s = (Inr NeedMore, s)"
| "tls_feed host_parse (c # cs) s =
     (case tls_push host_parse c s of (Inr NeedMore, s') \<Rightarrow> tls_feed host_parse cs s' | result \<Rightarrow> result)"

lemma tls_loop_needs_more:
  "tls_loop host_parse s = (Inr NeedMore, s') \<Longrightarrow> record_header (ti_record_buffer s') = Inr None \<and> ti_complete s' = ti_complete s
     \<and> length (ti_record_buffer s') \<le> length (ti_record_buffer s)"
proof (induction host_parse s rule: tls_loop.induct)
  case (1 host_parse s)
  show ?case
  proof (cases "tls_round host_parse s")
    case (Inl res)
    with "1.prems" show ?thesis
      by (auto simp: tls_loop.simps [of _ s] tls_round_def Let_def split: sum.splits option.splits if_splits)
  next
    case (Inr s2)
    with "1.prems" "1.IH" [OF Inr] have "record_header (ti_record_buffer s') = Inr None" "ti_complete s' = ti_complete s2"
      "length (ti_record_buffer s') \<le> length (ti_record_buffer s2)" by (simp_all add: tls_loop.simps [of _ s])
    moreover have "ti_complete s2 = ti_complete s"
      using Inr by (auto simp: tls_round_def Let_def split: sum.splits option.splits if_splits)
    ultimately show ?thesis using tls_round_shorter [OF Inr] by simp
  qed
qed

lemma tls_feed_concat:
  assumes "\<not> ti_complete s" "record_header (ti_record_buffer s) = Inr None"
    "length (ti_record_buffer s) + length (concat cs) \<le> MAX_TLS_CLIENT_HELLO_WIRE_BYTES"
  shows "fst (tls_feed host_parse cs s) = fst (tls_loop host_parse (fed (concat cs) s))"
  using assms
proof (induction cs arbitrary: s)
  case Nil
  then show ?case by (simp add: tls_loop.simps [of _ s] tls_round_def)
next
  case (Cons c cs)
  obtain r s' where l: "tls_loop host_parse (fed c s) = (r, s')" by (rule prod.exhaust)
  have "\<not> MAX_TLS_CLIENT_HELLO_WIRE_BYTES - length (ti_record_buffer s) < length c" using Cons.prems(3) by simp
  then have p: "tls_push host_parse c s = (r, s')" using Cons.prems(1) l by (simp add: tls_push_def)
  have m: "tls_loop host_parse (fed (concat (c # cs)) s) =
      (if r = Inr NeedMore then tls_loop host_parse (fed (concat cs) s') else (r, fed (concat cs) s'))"
    using tls_loop_more [OF l, of "concat cs"] by simp
  show ?case
  proof (cases "r = Inr NeedMore")
    case True
    note n = tls_loop_needs_more [OF l [unfolded True]]
    have "fst (tls_feed host_parse cs s') = fst (tls_loop host_parse (fed (concat cs) s'))"
      using n Cons.prems by (intro Cons.IH) auto
    with p m True show ?thesis by simp
  next
    case False
    with p m show ?thesis by (auto split: sum.split inspection_progress.split)
  qed
qed

section \<open>Properties\<close>

text \<open>
  Claim C9. The visible name is read exactly from the well-formed messages. Inspection reports the name \<open>n\<close> if and only
  if the bytes are the encoding of a \<^verbatim>\<open>ClientHello\<close> of at most 64 KiB with null compression, at most 256 extensions,
  none of them twice and none of the four encrypted kinds, whose server-name extension holds exactly one non-empty
  DNS name that is UTF-8 and normalizes to \<open>n\<close>. Nothing is left over and nothing is missing.
\<close>

theorem client_hello_iff:
  "inspect_client_hello host_parse input = Inr n \<longleftrightarrow>
     (\<exists>h name decoded. client_hello_ok h \<and> input = client_hello_message h \<and> length input \<le> 65536
        \<and> name \<noteq> [] \<and> map_of (ch_extensions h) 0 = Some (sni_bytes name)
        \<and> utf8_decode name = Some decoded \<and> normalize_domain host_parse decoded = Inr n)"
  unfolding inspect_iff visible_name_def SERVER_NAME_EXTENSION_def MAX_CLIENT_HELLO_BYTES_def by auto

text \<open>
  Claim C40. How a TLS stream is cut into pieces does not matter. However the first bytes of a connection arrive, as long as
  they fit the buffer, feeding the pieces one after the other until the inspector answers something other than a
  request for more gives the same answer, name or error, as pushing them all at once.
\<close>

theorem tls_pieces_irrelevant:
  assumes "length (concat cs) \<le> MAX_TLS_CLIENT_HELLO_WIRE_BYTES"
  shows "fst (tls_feed host_parse cs tls_inspector_new) = fst (tls_push host_parse (concat cs) tls_inspector_new)"
proof -
  have "record_header (ti_record_buffer tls_inspector_new) = Inr None" by (simp add: tls_inspector_new_def record_header_def)
  then show ?thesis
    using assms tls_feed_concat [of tls_inspector_new cs host_parse] by (simp add: tls_push_def tls_inspector_new_def)
qed

section \<open>Witnesses\<close>

definition demo_hello :: client_hello where
  "demo_hello = \<lparr>ch_random = replicate 32 9, ch_session_id = [5, 6], ch_cipher_suites = [0x13, 0x01],
     ch_extensions = [(16, [0, 1, 2]), (0, sni_bytes (ascii ''Example.org''))]\<rparr>"

definition demo_record :: "bytes \<Rightarrow> bytes" where
  "demo_record payload = [22, 3, 1] @ be_bytes 2 (length payload) @ payload"

definition demo_pieces :: "bytes list" where
  "demo_pieces =
     (let m = client_hello_message demo_hello; w = demo_record (take 3 m) @ demo_record (drop 3 m) in
      [take 4 w, [], take 20 (drop 4 w), drop 24 w])"

definition demo_host_parse :: host_parser where
  "demo_host_parse = (\<lambda>t. Some (Host_Domain t))"

theorem client_hello_iff_witness:
  "\<exists>h. client_hello_ok h \<and> client_hello_message demo_hello = client_hello_message h"
proof -
  have "inspect_client_hello demo_host_parse (client_hello_message demo_hello) = Inr (lit ''example.org'')" by code_simp
  then show ?thesis unfolding client_hello_iff by blast
qed

theorem tls_pieces_irrelevant_witness:
  "fst (tls_push demo_host_parse (concat demo_pieces) tls_inspector_new) = Inr (Complete (lit ''example.org''))"
proof -
  have "length (concat demo_pieces) \<le> MAX_TLS_CLIENT_HELLO_WIRE_BYTES" by code_simp
  moreover have "fst (tls_feed demo_host_parse demo_pieces tls_inspector_new) = Inr (Complete (lit ''example.org''))" by code_simp
  ultimately show ?thesis using tls_pieces_irrelevant [of demo_pieces demo_host_parse] by simp
qed

end
