(* ===== verification/Inspect_Quic.thy ===== *)
theory Inspect_Quic
  imports Inspect_Tls
begin

text \<open>
  Inspection of QUIC version 1 client Initial packets (\<^verbatim>\<open>crates/volparossa-inspection/src/quic.rs\<close>): header
  parsing, removal of the header protection, reconstruction of the packet number, opening of the payload, the frames
  of an Initial packet and the reassembly of CRYPTO fragments that arrive in any order.

  The key derivation, the header mask and the authenticated decryption are those of the \<^verbatim>\<open>ring\<close> library and are
  parameters, collected in \<open>quic_env\<close>. The bit operations on packet numbers and variable-length integers are
  on 64-bit words.
\<close>

unbundle bit_operations_syntax

section \<open>Limits and the cryptographic library\<close>

definition QUIC_VERSION_1 :: nat where
  "QUIC_VERSION_1 = 1"

definition QUIC_V1_INITIAL_SALT :: bytes where
  "QUIC_V1_INITIAL_SALT =
     [0x38, 0x76, 0x2c, 0xf7, 0xf5, 0x59, 0x34, 0xb3, 0x4d, 0x17, 0x9a, 0xe6, 0xa4, 0xc8, 0x0c, 0xad,
      0xcc, 0xbb, 0x7f, 0x0a]"

definition MIN_INITIAL_DATAGRAM_BYTES :: nat where
  "MIN_INITIAL_DATAGRAM_BYTES = 1200"

definition MAX_INITIAL_DATAGRAM_BYTES :: nat where
  "MAX_INITIAL_DATAGRAM_BYTES = 65527"

definition MAX_CONNECTION_ID_BYTES :: nat where
  "MAX_CONNECTION_ID_BYTES = 20"

definition MIN_INITIAL_DCID_BYTES :: nat where
  "MIN_INITIAL_DCID_BYTES = 8"

definition MAX_TOKEN_BYTES :: nat where
  "MAX_TOKEN_BYTES = 4096"

definition MAX_CRYPTO_FRAGMENTS :: nat where
  "MAX_CRYPTO_FRAGMENTS = 128"

definition MAX_INITIAL_DATAGRAMS :: nat where
  "MAX_INITIAL_DATAGRAMS = 128"

definition MAX_ACK_RANGES :: nat where
  "MAX_ACK_RANGES = 64"

definition MAX_CLOSE_REASON_BYTES :: nat where
  "MAX_CLOSE_REASON_BYTES = 1024"

definition MAX_PACKET_NUMBER :: nat where
  "MAX_PACKET_NUMBER = 2 ^ 62 - 1"

abbreviation MAX_TAG_LEN :: nat where
  "MAX_TAG_LEN \<equiv> 16"

record quic_env =
  qe_extract :: "bytes \<Rightarrow> bytes \<Rightarrow> bytes"
  qe_expand :: "bytes \<Rightarrow> bytes \<Rightarrow> nat \<Rightarrow> bytes option"
  qe_key_ok :: "bytes \<Rightarrow> bool"
  qe_header_key_ok :: "bytes \<Rightarrow> bool"
  qe_new_mask :: "bytes \<Rightarrow> bytes \<Rightarrow> bytes option"
  qe_open :: "bytes \<Rightarrow> bytes \<Rightarrow> bytes \<Rightarrow> bytes \<Rightarrow> bytes option"
  qe_host_parse :: host_parser

section \<open>The reader\<close>

definition quic_take :: "nat \<Rightarrow> reader \<Rightarrow> inspection_error + bytes \<times> reader" where
  "quic_take n r =
     rbind (ok_or (checked_add_u64 (rd_offset r) n) (Ie_InvalidQuicInitial ''length overflow'')) (\<lambda>stop.
     if stop \<le> length (rd_input r)
     then Inr (take n (drop (rd_offset r) (rd_input r)), r\<lparr>rd_offset := stop\<rparr>)
     else Inl (Ie_InvalidQuicInitial ''truncated field''))"

definition quic_u8 :: "reader \<Rightarrow> inspection_error + byte \<times> reader" where
  "quic_u8 r = rbind (quic_take 1 r) (\<lambda>(v, r). Inr (hd v, r))"

definition varint :: "reader \<Rightarrow> inspection_error + nat \<times> reader" where
  "varint r =
     rbind (quic_u8 r) (\<lambda>(first, r).
     let len = push_bit (unat (drop_bit 6 first)) 1 in
     rbind (quic_take (len - 1) r) (\<lambda>(bs, r).
     Inr (unat (foldl (\<lambda>value b. push_bit 8 value OR ucast b) (ucast (first AND 0x3f) :: 64 word) bs), r)))"

definition quic_is_empty :: "reader \<Rightarrow> bool" where
  "quic_is_empty r \<longleftrightarrow> rd_offset r = length (rd_input r)"

section \<open>Keys\<close>

record initial_keys =
  ik_key :: bytes
  ik_iv :: bytes
  ik_header_protection :: bytes

definition expand_label :: "quic_env \<Rightarrow> bytes \<Rightarrow> bytes \<Rightarrow> nat \<Rightarrow> inspection_error + bytes" where
  "expand_label env secret label output_len =
     rbind (ok_or (checked_add_u64 6 (length label)) Ie_QuicAuthentication) (\<lambda>full_label_len.
     if full_label_len > 255 then Inl Ie_QuicAuthentication
     else if output_len > 65535 then Inl Ie_QuicAuthentication
     else ok_or (qe_expand env secret
            (be_bytes 2 output_len @ [word_of_nat full_label_len] @ ascii ''tls13 '' @ label @ [0]) output_len)
            Ie_QuicAuthentication)"

definition derive :: "quic_env \<Rightarrow> bytes \<Rightarrow> inspection_error + initial_keys" where
  "derive env dcid =
     (let initial_secret = qe_extract env QUIC_V1_INITIAL_SALT dcid in
      rbind (expand_label env initial_secret (ascii ''client in'') 32) (\<lambda>client_secret.
      rbind (expand_label env client_secret (ascii ''quic key'') 16) (\<lambda>key.
      rbind (expand_label env client_secret (ascii ''quic iv'') 12) (\<lambda>iv.
      rbind (expand_label env client_secret (ascii ''quic hp'') 16) (\<lambda>header_protection.
      Inr \<lparr>ik_key = key, ik_iv = iv, ik_header_protection = header_protection\<rparr>)))))"

section \<open>Packets\<close>

record protected_header =
  ph_packet_number_offset :: nat
  ph_packet_end :: nat

definition parse_protected_header :: "bytes \<Rightarrow> inspection_error + protected_header" where
  "parse_protected_header datagram =
     (case datagram of
        [] \<Rightarrow> Inl (Ie_InvalidQuicInitial ''empty datagram'')
      | first # _ \<Rightarrow>
          if first AND 0xc0 \<noteq> 0xc0 then Inl (Ie_InvalidQuicInitial ''long-header and fixed bits are required'')
          else if first AND 0x30 \<noteq> 0 then Inl (Ie_InvalidQuicInitial ''long-header packet is not Initial'')
          else if length datagram < 5 then Inl (Ie_InvalidQuicInitial ''truncated version'')
          else
            let version = be_nat (take 4 (drop 1 datagram)) in
            if version \<noteq> QUIC_VERSION_1 then Inl (Ie_UnsupportedQuicVersion version)
            else
              rbind (quic_u8 \<lparr>rd_input = datagram, rd_offset = 5\<rparr>) (\<lambda>(dcid_len, r).
              if unat dcid_len > MAX_CONNECTION_ID_BYTES then Inl (Ie_InvalidQuicInitial ''destination CID is oversized'') else
              rbind (quic_take (unat dcid_len) r) (\<lambda>(_, r).
              rbind (quic_u8 r) (\<lambda>(scid_len, r).
              if unat scid_len > MAX_CONNECTION_ID_BYTES then Inl (Ie_InvalidQuicInitial ''source CID is oversized'') else
              rbind (quic_take (unat scid_len) r) (\<lambda>(_, r).
              rbind (varint r) (\<lambda>(token_len, r).
              if token_len > MAX_TOKEN_BYTES then Inl (Ie_ResourceLimit ''QUIC Initial token bytes'') else
              rbind (quic_take token_len r) (\<lambda>(_, r).
              rbind (varint r) (\<lambda>(protected_len, r).
              rbind (ok_or (checked_add_u64 (rd_offset r) protected_len) (Ie_InvalidQuicInitial ''packet length overflow'')) (\<lambda>packet_end.
              if packet_end \<noteq> length datagram
              then Inl (Ie_InvalidQuicInitial ''coalesced or trailing packet data is ambiguous'')
              else if protected_len < 1 + MAX_TAG_LEN then Inl (Ie_InvalidQuicInitial ''protected payload is too short'')
              else Inr \<lparr>ph_packet_number_offset = rd_offset r, ph_packet_end = packet_end\<rparr>)))))))))"

definition packet_nonce :: "bytes \<Rightarrow> nat \<Rightarrow> bytes" where
  "packet_nonce iv packet_number = take 4 iv @ map2 (XOR) (drop 4 iv) (be_bytes 8 packet_number)"

definition reconstruct_packet_number :: "nat \<Rightarrow> nat \<Rightarrow> nat option \<Rightarrow> inspection_error + nat" where
  "reconstruct_packet_number truncated encoded_len largest =
     (let expected = (case largest of None \<Rightarrow> 0 | Some v \<Rightarrow> saturating_add_u64 v 1);
          bits = encoded_len * 8 in
      if bits > u64_max then Inl (Ie_InvalidQuicInitial ''packet-number width'')
      else if bits \<ge> 64 then Inl (Ie_InvalidQuicInitial ''packet-number width'')
      else
        let window = 2 ^ bits;
            half_window = window div 2;
            mask = window - 1;
            candidate = unat ((word_of_nat expected AND NOT (word_of_nat mask)) OR word_of_nat truncated :: 64 word);
            candidate' =
              (if (case checked_add_u64 candidate half_window of None \<Rightarrow> False | Some v \<Rightarrow> v \<le> expected)
                  \<and> candidate \<le> MAX_PACKET_NUMBER - window
               then candidate + window
               else if candidate > saturating_add_u64 expected half_window \<and> candidate \<ge> window
               then candidate - window
               else candidate) in
        if candidate' > MAX_PACKET_NUMBER then Inl (Ie_InvalidQuicInitial ''packet number exceeds QUIC limit'')
        else Inr candidate')"

record opened_initial =
  oi_packet_number :: nat
  oi_plaintext :: bytes

definition open_initial :: "quic_env \<Rightarrow> initial_keys \<Rightarrow> nat option \<Rightarrow> bytes \<Rightarrow> inspection_error + opened_initial" where
  "open_initial env keys largest datagram =
     (if length datagram < MIN_INITIAL_DATAGRAM_BYTES then Inl (Ie_InvalidQuicInitial ''datagram shorter than 1200 bytes'')
      else if length datagram > MAX_INITIAL_DATAGRAM_BYTES then Inl (Ie_ResourceLimit ''QUIC UDP datagram bytes'')
      else
        rbind (parse_protected_header datagram) (\<lambda>parsed.
        let offset = ph_packet_number_offset parsed in
        if offset + 4 + 16 > length datagram then Inl (Ie_InvalidQuicInitial ''header-protection sample is truncated'')
        else
          rbind (ok_or (qe_new_mask env (ik_header_protection keys) (take 16 (drop (offset + 4) datagram))) Ie_QuicAuthentication) (\<lambda>mask.
          let first = hd datagram XOR (mask ! 0 AND 0x0f) in
          if first AND 0x0c \<noteq> 0 then Inl (Ie_InvalidQuicInitial ''non-zero protected reserved bits'')
          else
            let packet_number_len = unat ((first AND 0x03) + 1) in
            rbind (ok_or (checked_add_u64 offset packet_number_len) (Ie_InvalidQuicInitial ''header length overflow'')) (\<lambda>header_len.
            if header_len + MAX_TAG_LEN > ph_packet_end parsed then Inl (Ie_InvalidQuicInitial ''protected payload is too short'')
            else
              let number = map2 (XOR) (take packet_number_len (drop offset datagram)) (take packet_number_len (drop 1 mask));
                  header = first # drop 1 (take offset datagram) @ number in
              rbind (reconstruct_packet_number (be_nat number) packet_number_len largest) (\<lambda>packet_number.
              rbind (ok_or (qe_open env (ik_key keys) (packet_nonce (ik_iv keys) packet_number) header
                       (drop header_len (take (ph_packet_end parsed) datagram))) Ie_QuicAuthentication) (\<lambda>plaintext.
              Inr \<lparr>oi_packet_number = packet_number, oi_plaintext = plaintext\<rparr>)))))) "

section \<open>Reassembly of CRYPTO data\<close>

record crypto_reassembler =
  cr_bytes :: bytes
  cr_present :: "bool list"
  cr_contiguous :: nat
  cr_fragments :: nat

definition crypto_default :: crypto_reassembler where
  "crypto_default = \<lparr>cr_bytes = [], cr_present = [], cr_contiguous = 0, cr_fragments = 0\<rparr>"

fun write_fragment :: "nat \<Rightarrow> bytes \<Rightarrow> crypto_reassembler \<Rightarrow> (inspection_error + unit) \<times> crypto_reassembler" where
  "write_fragment position [] c = (Inr (), c)"
| "write_fragment position (b # bs) c =
     (if cr_present c ! position then
        if cr_bytes c ! position \<noteq> b then (Inl Ie_ConflictingCryptoData, c)
        else write_fragment (position + 1) bs c
      else write_fragment (position + 1) bs
             (c\<lparr>cr_bytes := (cr_bytes c)[position := b], cr_present := (cr_present c)[position := True]\<rparr>))"

function advance :: "bool list \<Rightarrow> nat \<Rightarrow> nat" where
  "advance present n = (if n < length present \<and> present ! n then advance present (n + 1) else n)"
  by pat_completeness auto
termination
  by (relation "measure (\<lambda>(present, n). length present - n)") auto

definition crypto_insert :: "nat \<Rightarrow> bytes \<Rightarrow> crypto_reassembler \<Rightarrow> (inspection_error + unit) \<times> crypto_reassembler" where
  "crypto_insert offset data c =
     (let c1 = c\<lparr>cr_fragments := saturating_add_u64 (cr_fragments c) 1\<rparr> in
      if cr_fragments c1 > MAX_CRYPTO_FRAGMENTS then (Inl (Ie_ResourceLimit ''QUIC CRYPTO fragment count''), c1)
      else case checked_add_u64 offset (length data) of
        None \<Rightarrow> (Inl (Ie_ResourceLimit ''QUIC CRYPTO bytes''), c1)
      | Some stop \<Rightarrow>
          if stop > MAX_CLIENT_HELLO_BYTES then (Inl (Ie_ResourceLimit ''QUIC CRYPTO bytes''), c1)
          else
            let c2 = (if length (cr_bytes c1) < stop
                      then c1\<lparr>cr_bytes := cr_bytes c1 @ replicate (stop - length (cr_bytes c1)) 0,
                              cr_present := cr_present c1 @ replicate (stop - length (cr_present c1)) False\<rparr>
                      else c1) in
            case write_fragment offset data c2 of
              (Inl e, c3) \<Rightarrow> (Inl e, c3)
            | (Inr (), c3) \<Rightarrow> (Inr (), c3\<lparr>cr_contiguous := advance (cr_present c3) (cr_contiguous c3)\<rparr>))"

definition crypto_client_hello :: "host_parser \<Rightarrow> crypto_reassembler \<Rightarrow> inspection_error + utext option" where
  "crypto_client_hello host_parse c = inspect_client_hello_prefix host_parse (take (cr_contiguous c) (cr_bytes c))"

section \<open>Frames\<close>

fun parse_ack_ranges :: "nat \<Rightarrow> nat \<Rightarrow> reader \<Rightarrow> inspection_error + reader" where
  "parse_ack_ranges 0 smallest r = Inr r"
| "parse_ack_ranges (Suc n) smallest r =
     rbind (varint r) (\<lambda>(gap, r).
     rbind (varint r) (\<lambda>(range, r).
     rbind (ok_or (checked_sub smallest (saturating_add_u64 gap 2)) (Ie_InvalidQuicInitial ''invalid ACK gap'')) (\<lambda>next_largest.
     rbind (ok_or (checked_sub next_largest range) (Ie_InvalidQuicInitial ''invalid ACK range'')) (\<lambda>smallest.
     parse_ack_ranges n smallest r))))"

definition parse_ack :: "bool \<Rightarrow> reader \<Rightarrow> inspection_error + reader" where
  "parse_ack has_ecn r =
     rbind (varint r) (\<lambda>(largest, r).
     rbind (varint r) (\<lambda>(_, r).
     rbind (varint r) (\<lambda>(range_count, r).
     if range_count > MAX_ACK_RANGES then Inl (Ie_ResourceLimit ''QUIC ACK range count'') else
     rbind (varint r) (\<lambda>(first_range, r).
     rbind (ok_or (checked_sub largest first_range) (Ie_InvalidQuicInitial ''invalid first ACK range'')) (\<lambda>smallest.
     rbind (parse_ack_ranges range_count smallest r) (\<lambda>r.
     if has_ecn then
       rbind (varint r) (\<lambda>(_, r). rbind (varint r) (\<lambda>(_, r). rbind (varint r) (\<lambda>(_, r). Inr r)))
     else Inr r))))))"

definition parse_transport_close :: "reader \<Rightarrow> inspection_error + reader" where
  "parse_transport_close r =
     rbind (varint r) (\<lambda>(_, r).
     rbind (varint r) (\<lambda>(_, r).
     rbind (varint r) (\<lambda>(reason_len, r).
     if reason_len > MAX_CLOSE_REASON_BYTES then Inl (Ie_ResourceLimit ''QUIC close reason bytes'') else
     rbind (quic_take reason_len r) (\<lambda>(_, r). Inr r))))"

definition read_crypto_frame :: "reader \<Rightarrow> inspection_error + nat \<times> bytes \<times> reader" where
  "read_crypto_frame r =
     rbind (varint r) (\<lambda>(offset, r).
     rbind (varint r) (\<lambda>(len, r).
     rbind (quic_take len r) (\<lambda>(data, r). Inr (offset, data, r))))"

text \<open>Reading moves the reader forward within its input; that is why the loop over the frames ends.\<close>

definition forward :: "reader \<Rightarrow> reader \<Rightarrow> bool" where
  "forward r r' \<longleftrightarrow> rd_input r' = rd_input r \<and> rd_offset r \<le> rd_offset r' \<and> (rd_offset r' \<le> length (rd_input r) \<or> r' = r)"

lemma forward_refl [simp]: "forward r r"
  by (simp add: forward_def)

lemma forward_trans: "forward r r' \<Longrightarrow> forward r' r'' \<Longrightarrow> forward r r''"
  by (auto simp: forward_def)

lemma quic_take_forward: "quic_take n r = Inr (v, r') \<Longrightarrow> forward r r' \<and> rd_offset r' = rd_offset r + n \<and> rd_offset r' \<le> length (rd_input r)"
  by (auto simp: quic_take_def forward_def result_simps split: if_splits)

lemma varint_forward: "varint r = Inr (n, r') \<Longrightarrow> forward r r' \<and> rd_offset r < rd_offset r' \<and> rd_offset r' \<le> length (rd_input r)"
  by (auto simp: varint_def quic_u8_def Let_def result_simps forward_def dest!: quic_take_forward)

lemma varint_fwd: "varint r = Inr (n, r') \<Longrightarrow> forward r r'"
  by (blast dest: varint_forward)

lemma parse_ack_ranges_forward: "parse_ack_ranges n s r = Inr r' \<Longrightarrow> forward r r'"
  by (induction n arbitrary: s r) (auto simp: result_simps dest!: varint_fwd intro: forward_trans)

lemma parse_ack_forward: "parse_ack e r = Inr r' \<Longrightarrow> forward r r'"
  by (auto simp: parse_ack_def result_simps split: if_splits dest!: varint_fwd parse_ack_ranges_forward)
    (meson forward_trans)+

lemma read_crypto_frame_forward: "read_crypto_frame r = Inr (offset, data, r') \<Longrightarrow> forward r r'"
  by (auto simp: read_crypto_frame_def result_simps dest!: varint_forward quic_take_forward intro: forward_trans)

lemma forward_shorter:
  "varint r = Inr (t, r1) \<Longrightarrow> forward r1 r2 \<Longrightarrow> length (rd_input r2) - rd_offset r2 < length (rd_input r) - rd_offset r"
  by (auto simp: forward_def dest!: varint_forward)

function parse_initial_frames :: "reader \<Rightarrow> crypto_reassembler \<Rightarrow> (inspection_error + unit) \<times> crypto_reassembler" where
  "parse_initial_frames r c =
     (if quic_is_empty r then (Inr (), c)
      else case varint r of
        Inl e \<Rightarrow> (Inl e, c)
      | Inr (frame_type, r1) \<Rightarrow>
          if frame_type = 0x00 \<or> frame_type = 0x01 then parse_initial_frames r1 c
          else if frame_type = 0x02 \<or> frame_type = 0x03 then
            (case parse_ack (frame_type = 0x03) r1 of Inl e \<Rightarrow> (Inl e, c) | Inr r2 \<Rightarrow> parse_initial_frames r2 c)
          else if frame_type = 0x06 then
            (case read_crypto_frame r1 of
               Inl e \<Rightarrow> (Inl e, c)
             | Inr (offset, data, r2) \<Rightarrow>
                 (case crypto_insert offset data c of
                    (Inl e, c') \<Rightarrow> (Inl e, c')
                  | (Inr _, c') \<Rightarrow> parse_initial_frames r2 c'))
          else if frame_type = 0x1c then
            (case parse_transport_close r1 of Inl e \<Rightarrow> (Inl e, c) | Inr _ \<Rightarrow> (Inl Ie_ClosedBeforeClientHello, c))
          else (Inl (Ie_ForbiddenQuicFrame frame_type), c))"
  by pat_completeness auto
termination
  by (relation "measure (\<lambda>(r, c). length (rd_input r) - rd_offset r)")
    (auto intro: forward_shorter dest: parse_ack_forward read_crypto_frame_forward)

section \<open>The inspector\<close>

record quic_inspector =
  qi_keys :: initial_keys
  qi_largest_packet_number :: "nat option"
  qi_crypto :: crypto_reassembler
  qi_datagrams :: nat
  qi_complete :: bool

record quic_inspection =
  qx_packet_number :: nat
  qx_progress :: inspection_progress

definition quic_inspector_new :: "quic_env \<Rightarrow> bytes \<Rightarrow> inspection_error + quic_inspector" where
  "quic_inspector_new env dcid =
     (if \<not> (MIN_INITIAL_DCID_BYTES \<le> length dcid \<and> length dcid \<le> MAX_CONNECTION_ID_BYTES)
      then Inl (Ie_InvalidQuicInitial ''original destination connection identifier length'')
      else
        rbind (derive env dcid) (\<lambda>keys.
        if \<not> qe_key_ok env (ik_key keys) then Inl Ie_QuicAuthentication
        else if \<not> qe_header_key_ok env (ik_header_protection keys) then Inl Ie_QuicAuthentication
        else Inr \<lparr>qi_keys = keys, qi_largest_packet_number = None, qi_crypto = crypto_default, qi_datagrams = 0,
                  qi_complete = False\<rparr>))"

definition inspect_datagram :: "quic_env \<Rightarrow> bytes \<Rightarrow> quic_inspector \<Rightarrow> (inspection_error + quic_inspection) \<times> quic_inspector" where
  "inspect_datagram env datagram s =
     (if qi_complete s then (Inl Ie_AlreadyComplete, s)
      else
        let s1 = s\<lparr>qi_datagrams := saturating_add_u64 (qi_datagrams s) 1\<rparr> in
        if qi_datagrams s1 > MAX_INITIAL_DATAGRAMS then (Inl (Ie_ResourceLimit ''QUIC Initial datagram count''), s1)
        else case open_initial env (qi_keys s1) (qi_largest_packet_number s1) datagram of
          Inl e \<Rightarrow> (Inl e, s1)
        | Inr opened \<Rightarrow>
            let s2 = s1\<lparr>qi_largest_packet_number :=
                   Some (case qi_largest_packet_number s1 of None \<Rightarrow> oi_packet_number opened
                         | Some largest \<Rightarrow> max largest (oi_packet_number opened))\<rparr> in
            case parse_initial_frames (reader_new (oi_plaintext opened)) (qi_crypto s2) of
              (Inl e, c) \<Rightarrow> (Inl e, s2\<lparr>qi_crypto := c\<rparr>)
            | (Inr _, c) \<Rightarrow>
                let s3 = s2\<lparr>qi_crypto := c\<rparr> in
                case crypto_client_hello (qe_host_parse env) c of
                  Inl e \<Rightarrow> (Inl e, s3)
                | Inr None \<Rightarrow> (Inr \<lparr>qx_packet_number = oi_packet_number opened, qx_progress = NeedMore\<rparr>, s3)
                | Inr (Some name) \<Rightarrow>
                    (Inr \<lparr>qx_packet_number = oi_packet_number opened, qx_progress = Complete name\<rparr>, s3\<lparr>qi_complete := True\<rparr>))"

section \<open>Reassembly against a map of positions\<close>

text \<open>
  The abstract state is a partial map from positions of the stream to bytes. A fragment is such a map too, and inserting
  it is the union of the two, provided that they agree where both are defined.
\<close>

definition view :: "crypto_reassembler \<Rightarrow> nat \<Rightarrow> byte option" where
  "view c i = (if i < length (cr_present c) \<and> cr_present c ! i then Some (cr_bytes c ! i) else None)"

definition fragment :: "nat \<times> bytes \<Rightarrow> nat \<Rightarrow> byte option" where
  "fragment f i = (if fst f \<le> i \<and> i < fst f + length (snd f) then Some (snd f ! (i - fst f)) else None)"

definition agree :: "(nat \<Rightarrow> byte option) \<Rightarrow> (nat \<Rightarrow> byte option) \<Rightarrow> bool" where
  "agree m m' \<longleftrightarrow> (\<forall>i x y. m i = Some x \<longrightarrow> m' i = Some y \<longrightarrow> x = y)"

definition crypto_inv :: "crypto_reassembler \<Rightarrow> bool" where
  "crypto_inv c \<longleftrightarrow> length (cr_bytes c) = length (cr_present c)
     \<and> (\<forall>i < cr_contiguous c. view c i \<noteq> None) \<and> view c (cr_contiguous c) = None"

lemma fragment_Nil [simp]: "fragment (p, []) i = None"
  by (simp add: fragment_def)

lemma fragment_Cons: "fragment (p, b # bs) = (fragment (p + 1, bs))(p \<mapsto> b)"
  by (rule ext) (auto simp: fragment_def nth_Cons')

lemma agree_upd:
  assumes "m' p = None"
  shows "agree m (m'(p \<mapsto> b)) \<longleftrightarrow> (\<forall>x. m p = Some x \<longrightarrow> x = b) \<and> agree m m'"
proof -
  have "m i = Some x \<longrightarrow> (m'(p \<mapsto> b)) i = Some y \<longrightarrow> x = y" if "\<forall>x. m p = Some x \<longrightarrow> x = b" "agree m m'" for i x y
    using that by (cases "i = p") (auto simp: agree_def)
  moreover have "m i = Some x \<longrightarrow> m' i = Some y \<longrightarrow> x = y" if "agree m (m'(p \<mapsto> b))" for i x y
    using that [unfolded agree_def, rule_format, of i x y] assms by (cases "i = p") auto
  moreover have "x = b" if "agree m (m'(p \<mapsto> b))" "m p = Some x" for x
    using that [unfolded agree_def] by (elim allE [of _ p]) simp
  ultimately show ?thesis unfolding agree_def by blast
qed

lemma agree_upd_left:
  assumes "m' p = None"
  shows "agree (m(p \<mapsto> b)) m' \<longleftrightarrow> agree m m'"
proof -
  have "m i = (m(p \<mapsto> b)) i \<or> m' i = None" for i using assms by (cases "i = p") auto
  then show ?thesis unfolding agree_def by (metis option.distinct(1))
qed

lemma fragment_before: "fragment (p + 1, bs) p = None"
  by (simp add: fragment_def)

lemma view_write:
  assumes "length (cr_bytes c) = length (cr_present c)" "p < length (cr_present c)"
  shows "view (c\<lparr>cr_bytes := (cr_bytes c)[p := b], cr_present := (cr_present c)[p := True]\<rparr>) = (view c)(p \<mapsto> b)"
  using assms by (auto simp: view_def nth_list_update)

lemma write_fragment_view:
  assumes "write_fragment p bs c = (r, c')" "length (cr_bytes c) = length (cr_present c)" "p + length bs \<le> length (cr_present c)"
  shows "(r = Inr () \<longleftrightarrow> agree (view c) (fragment (p, bs)))
    \<and> (r = Inr () \<longrightarrow> view c' = view c ++ fragment (p, bs) \<and> length (cr_bytes c') = length (cr_present c')
         \<and> length (cr_present c') = length (cr_present c)
         \<and> cr_contiguous c' = cr_contiguous c \<and> cr_fragments c' = cr_fragments c)"
  using assms
proof (induction p bs c rule: write_fragment.induct)
  case (1 p c)
  have "fragment (p, []) = Map.empty" by (rule ext) simp
  with 1 show ?case by (simp add: agree_def)
next
  case (2 p b bs c)
  have p: "p < length (cr_present c)" using "2.prems"(3) by simp
  have n: "fragment (Suc p, bs) p = None" using fragment_before [of p bs] by simp
  have f: "fragment (p, b # bs) = (fragment (Suc p, bs))(p \<mapsto> b)" using fragment_Cons [of p b bs] by simp
  show ?case
  proof (cases "cr_present c ! p")
    case True
    then have v: "view c p = Some (cr_bytes c ! p)" using p by (simp add: view_def)
    show ?thesis
    proof (cases "cr_bytes c ! p = b")
      case True
      with \<open>cr_present c ! p\<close> "2.prems" have w: "write_fragment (p + 1) bs c = (r, c')" by simp
      have "view c ++ fragment (p, b # bs) = view c ++ fragment (Suc p, bs)"
        using v True n unfolding f by (auto simp: map_add_def fun_eq_iff split: option.splits)
      moreover have "agree (view c) (fragment (p, b # bs)) \<longleftrightarrow> agree (view c) (fragment (Suc p, bs))"
        unfolding f agree_upd [of "fragment (Suc p, bs)", OF n] using v True by simp
      ultimately show ?thesis using "2.IH"(1) [OF \<open>cr_present c ! p\<close> _ w] True "2.prems"(2,3) by simp
    next
      case False
      with \<open>cr_present c ! p\<close> "2.prems" have "r = Inl Ie_ConflictingCryptoData" by simp
      moreover have "\<not> agree (view c) (fragment (p, b # bs))"
        unfolding f agree_upd [of "fragment (Suc p, bs)", OF n] using v False by simp
      ultimately show ?thesis by simp
    qed
  next
    case False
    let ?c = "c\<lparr>cr_bytes := (cr_bytes c)[p := b], cr_present := (cr_present c)[p := True]\<rparr>"
    have v: "view c p = None" using False by (simp add: view_def)
    have w: "write_fragment (p + 1) bs ?c = (r, c')" using False "2.prems"(1) by simp
    have vw: "view ?c = (view c)(p \<mapsto> b)" by (rule view_write [OF "2.prems"(2) p])
    have l: "length (cr_bytes ?c) = length (cr_present ?c)" "p + 1 + length bs \<le> length (cr_present ?c)" using "2.prems"(2,3) by simp_all
    have "(view c)(p \<mapsto> b) ++ fragment (Suc p, bs) = view c ++ fragment (p, b # bs)"
      using n unfolding f by (auto simp: map_add_def fun_eq_iff split: option.splits)
    moreover have "agree ((view c)(p \<mapsto> b)) (fragment (Suc p, bs)) \<longleftrightarrow> agree (view c) (fragment (p, b # bs))"
      unfolding f agree_upd [of "fragment (Suc p, bs)", OF n] agree_upd_left [of "fragment (Suc p, bs)", OF n] using v by simp
    moreover note "2.IH"(2) [OF False w l, unfolded vw]
    ultimately show ?thesis by (simp del: fun_upd_apply)
  qed
qed

declare advance.simps [simp del]

lemma advance_spec:
  assumes "n \<le> length present"
  shows "n \<le> advance present n \<and> advance present n \<le> length present \<and> (\<forall>i. n \<le> i \<longrightarrow> i < advance present n \<longrightarrow> present ! i)
    \<and> (advance present n < length present \<longrightarrow> \<not> present ! advance present n)"
  using assms
proof (induction present n rule: advance.induct)
  case (1 present n)
  show ?case
  proof (cases "n < length present \<and> present ! n")
    case True
    with "1.IH" have ih: "n + 1 \<le> advance present (n + 1)" "advance present (n + 1) \<le> length present"
      "\<forall>i. n + 1 \<le> i \<longrightarrow> i < advance present (n + 1) \<longrightarrow> present ! i"
      "advance present (n + 1) < length present \<longrightarrow> \<not> present ! advance present (n + 1)" by simp_all
    have "present ! i" if "n \<le> i" "i < advance present (n + 1)" for i
      using that True ih(3) by (cases "i = n") simp_all
    with True ih show ?thesis by (simp add: advance.simps [of present n])
  next
    case False
    with "1.prems" show ?thesis by (auto simp: advance.simps [of present n])
  qed
qed

lemma crypto_inv_bound: "crypto_inv c \<Longrightarrow> cr_contiguous c \<le> length (cr_present c)"
  by (cases "cr_contiguous c") (auto simp: crypto_inv_def view_def split: if_splits)

lemma view_resize:
  "view (c\<lparr>cr_bytes := cr_bytes c @ xs, cr_present := cr_present c @ replicate n False\<rparr>) = view c"
  if "length (cr_bytes c) = length (cr_present c)"
  using that by (auto simp: view_def nth_append fun_eq_iff)

lemma view_contiguous:
  assumes "length (cr_bytes c) = length (cr_present c)" "cr_contiguous c \<le> length (cr_present c)" "\<forall>i < cr_contiguous c. view c i \<noteq> None"
  shows "crypto_inv (c\<lparr>cr_contiguous := advance (cr_present c) (cr_contiguous c)\<rparr>)"
proof -
  note a = advance_spec [OF assms(2)]
  have v: "view (c\<lparr>cr_contiguous := k\<rparr>) = view c" for k by (simp add: view_def fun_eq_iff)
  have "view c i \<noteq> None" if "i < advance (cr_present c) (cr_contiguous c)" for i
    using that assms(3) a by (cases "i < cr_contiguous c") (auto simp: view_def)
  moreover have "view c (advance (cr_present c) (cr_contiguous c)) = None" using a by (simp add: view_def)
  ultimately show ?thesis using assms(1) by (simp add: crypto_inv_def v)
qed

text \<open>The function that follows is the insertion of the specification.\<close>

lemma crypto_insert_view:
  assumes "crypto_inv c" "cr_fragments c \<le> MAX_CRYPTO_FRAGMENTS" "crypto_insert p d c = (r, c')"
  shows "(r = Inr () \<longleftrightarrow> cr_fragments c < MAX_CRYPTO_FRAGMENTS \<and> p + length d \<le> MAX_CLIENT_HELLO_BYTES \<and> agree (view c) (fragment (p, d)))
    \<and> (r = Inr () \<longrightarrow> crypto_inv c' \<and> view c' = view c ++ fragment (p, d) \<and> cr_fragments c' = cr_fragments c + 1)"
proof -
  have f: "saturating_add_u64 (cr_fragments c) (Suc 0) = Suc (cr_fragments c)"
    using assms(2) by (simp add: saturating_add_u64_def u64_max_def MAX_CRYPTO_FRAGMENTS_def)
  have big: "MAX_CLIENT_HELLO_BYTES \<le> u64_max" by (simp add: u64_max_def MAX_CLIENT_HELLO_BYTES_def)
  show ?thesis
  proof (cases "cr_fragments c < MAX_CRYPTO_FRAGMENTS \<and> p + length d \<le> MAX_CLIENT_HELLO_BYTES")
    case False
    then have "r \<noteq> Inr ()"
      using assms(3) f by (auto simp: crypto_insert_def Let_def checked_add_u64_def split: if_splits)
    with False show ?thesis by blast
  next
    case True
    define c1 where "c1 = c\<lparr>cr_fragments := cr_fragments c + 1\<rparr>"
    define c2 where "c2 = (if length (cr_bytes c1) < p + length d
        then c1\<lparr>cr_bytes := cr_bytes c1 @ replicate (p + length d - length (cr_bytes c1)) 0,
                cr_present := cr_present c1 @ replicate (p + length d - length (cr_present c1)) False\<rparr> else c1)"
    have l: "length (cr_bytes c1) = length (cr_present c1)" using assms(1) by (simp add: crypto_inv_def c1_def)
    have v1: "view c1 = view c" by (simp add: c1_def view_def fun_eq_iff)
    have v2: "view c2 = view c" "length (cr_bytes c2) = length (cr_present c2)" "p + length d \<le> length (cr_present c2)"
      "length (cr_present c1) \<le> length (cr_present c2)"
      "cr_contiguous c2 = cr_contiguous c" "cr_fragments c2 = cr_fragments c + 1"
      using l v1 view_resize [OF l] by (auto simp: c2_def) (simp_all add: c1_def)
    obtain r3 c3 where w: "write_fragment p d c2 = (r3, c3)" by (rule prod.exhaust)
    note wv = write_fragment_view [OF w v2(2,3), unfolded v2(1)]
    have ins: "(r, c') = (case r3 of Inl e \<Rightarrow> (Inl e, c3)
        | Inr u \<Rightarrow> (Inr (), c3\<lparr>cr_contiguous := advance (cr_present c3) (cr_contiguous c3)\<rparr>))"
    proof -
      have "checked_add_u64 p (length d) = Some (p + length d)" using True big by (simp add: checked_add_u64_def)
      then have "crypto_insert p d c = (case write_fragment p d c2 of (Inl e, c3) \<Rightarrow> (Inl e, c3)
          | (Inr (), c3) \<Rightarrow> (Inr (), c3\<lparr>cr_contiguous := advance (cr_present c3) (cr_contiguous c3)\<rparr>))"
        using True by (simp add: crypto_insert_def Let_def f c1_def c2_def)
      then show ?thesis using assms(3) w by (simp split: sum.splits unit.splits)
    qed
    show ?thesis
    proof (cases r3)
      case (Inl e)
      with ins wv True show ?thesis by simp
    next
      case (Inr u)
      then have c': "r = Inr ()" "c' = c3\<lparr>cr_contiguous := advance (cr_present c3) (cr_contiguous c3)\<rparr>" using ins by simp_all
      have ok: "agree (view c) (fragment (p, d))" "view c3 = view c ++ fragment (p, d)" "length (cr_bytes c3) = length (cr_present c3)"
        "length (cr_present c3) = length (cr_present c2)" "cr_contiguous c3 = cr_contiguous c" "cr_fragments c3 = cr_fragments c + 1"
        using wv Inr v2 by simp_all
      have "crypto_inv c'" unfolding c'(2)
      proof (rule view_contiguous [OF ok(3)])
        show "cr_contiguous c3 \<le> length (cr_present c3)"
          using crypto_inv_bound [OF assms(1)] ok(4,5) v2(4) by (simp add: c1_def)
        show "\<forall>i < cr_contiguous c3. view c3 i \<noteq> None"
          using assms(1) unfolding ok(2,5) by (auto simp: crypto_inv_def map_add_None)
      qed
      moreover have "view c' = view c3" unfolding c'(2) by (simp add: view_def fun_eq_iff)
      ultimately show ?thesis using c' ok True by simp
    qed
  qed
qed

text \<open>Fragments one after the other, until one is refused.\<close>

fun insert_all :: "(nat \<times> bytes) list \<Rightarrow> crypto_reassembler \<Rightarrow> (inspection_error + unit) \<times> crypto_reassembler" where
  "insert_all [] c = (Inr (), c)"
| "insert_all (f # fs) c =
     (case crypto_insert (fst f) (snd f) c of (Inl e, c') \<Rightarrow> (Inl e, c') | (Inr _, c') \<Rightarrow> insert_all fs c')"

definition covers :: "(nat \<times> bytes) list \<Rightarrow> nat \<Rightarrow> byte \<Rightarrow> bool" where
  "covers fs i b \<longleftrightarrow> (\<exists>f \<in> set fs. fragment f i = Some b)"

definition consistent :: "(nat \<times> bytes) list \<Rightarrow> bool" where
  "consistent fs \<longleftrightarrow> (\<forall>i x y. covers fs i x \<longrightarrow> covers fs i y \<longrightarrow> x = y)"

lemma agree_add: "agree (m ++ m') m'' \<longleftrightarrow> agree m m'' \<and> agree m' m''" if "agree m m'"
proof -
  have "(m ++ m') i = Some x \<longleftrightarrow> m i = Some x \<or> m' i = Some x" for i x
    using that unfolding agree_def map_add_Some_iff by (cases "m i"; cases "m' i") auto
  then show ?thesis unfolding agree_def by blast
qed

lemma insert_all_view:
  assumes "crypto_inv c" "cr_fragments c \<le> MAX_CRYPTO_FRAGMENTS" "insert_all fs c = (r, c')"
  shows "(r = Inr () \<longleftrightarrow> cr_fragments c + length fs \<le> MAX_CRYPTO_FRAGMENTS
        \<and> (\<forall>f \<in> set fs. fst f + length (snd f) \<le> MAX_CLIENT_HELLO_BYTES)
        \<and> (\<forall>f \<in> set fs. agree (view c) (fragment f)) \<and> consistent fs)
    \<and> (r = Inr () \<longrightarrow> crypto_inv c' \<and> (\<forall>i b. view c' i = Some b \<longleftrightarrow> view c i = Some b \<or> covers fs i b))"
  using assms
proof (induction fs arbitrary: c)
  case Nil
  then show ?case by (auto simp: consistent_def covers_def)
next
  case (Cons f fs)
  obtain r1 c1 where i: "crypto_insert (fst f) (snd f) c = (r1, c1)" by (rule prod.exhaust)
  note v = crypto_insert_view [OF Cons.prems(1,2) i, unfolded prod.collapse]
  show ?case
  proof (cases r1)
    case (Inl e)
    with i Cons.prems(3) v have "r \<noteq> Inr ()" "\<not> (cr_fragments c < MAX_CRYPTO_FRAGMENTS
        \<and> fst f + length (snd f) \<le> MAX_CLIENT_HELLO_BYTES \<and> agree (view c) (fragment f))" by auto
    then show ?thesis by auto
  next
    case (Inr u)
    then have ok: "cr_fragments c < MAX_CRYPTO_FRAGMENTS" "fst f + length (snd f) \<le> MAX_CLIENT_HELLO_BYTES"
      "agree (view c) (fragment f)" "crypto_inv c1" "view c1 = view c ++ fragment f" "cr_fragments c1 = cr_fragments c + 1"
      using v by simp_all
    have "insert_all fs c1 = (r, c')" using Cons.prems(3) i Inr by simp
    note ih = Cons.IH [OF ok(4) _ this]
    have view1: "view c1 i = Some b \<longleftrightarrow> view c i = Some b \<or> fragment f i = Some b" for i b
      using ok(3) unfolding ok(5) agree_def map_add_Some_iff by (cases "view c i"; cases "fragment f i") auto
    have "consistent (f # fs) \<longleftrightarrow> (\<forall>g \<in> set fs. agree (fragment f) (fragment g)) \<and> consistent fs"
      unfolding consistent_def covers_def agree_def by (auto 4 4)
    moreover have "(\<forall>g \<in> set fs. agree (view c1) (fragment g)) \<longleftrightarrow>
        (\<forall>g \<in> set fs. agree (view c) (fragment g)) \<and> (\<forall>g \<in> set fs. agree (fragment f) (fragment g))"
      unfolding ok(5) agree_add [OF ok(3)] by blast
    ultimately show ?thesis
      using ih ok(1,2,3,6) by (auto simp: view1 covers_def)
  qed
qed

lemma crypto_default_inv: "crypto_inv crypto_default" "cr_fragments crypto_default = 0" "view crypto_default i = None"
  by (simp_all add: crypto_inv_def crypto_default_def view_def)

lemma reassembled:
  assumes "insert_all fs crypto_default = (r, c)"
  shows "r = Inr () \<longleftrightarrow> length fs \<le> MAX_CRYPTO_FRAGMENTS
        \<and> (\<forall>f \<in> set fs. fst f + length (snd f) \<le> MAX_CLIENT_HELLO_BYTES) \<and> consistent fs"
    and "r = Inr () \<Longrightarrow> i < cr_contiguous c \<Longrightarrow> covers fs i (cr_bytes c ! i)"
    and "r = Inr () \<Longrightarrow> \<not> covers fs (cr_contiguous c) b"
    and "r = Inr () \<Longrightarrow> cr_contiguous c \<le> length (cr_bytes c)"
proof -
  note v = insert_all_view [OF crypto_default_inv(1) _ assms, unfolded crypto_default_inv(2,3), simplified]
  have "agree (\<lambda>i. None) m" for m by (simp add: agree_def)
  with v show "r = Inr () \<longleftrightarrow> length fs \<le> MAX_CRYPTO_FRAGMENTS
        \<and> (\<forall>f \<in> set fs. fst f + length (snd f) \<le> MAX_CLIENT_HELLO_BYTES) \<and> consistent fs" by simp
  assume "r = Inr ()"
  with v have w: "crypto_inv c" "\<And>i b. view c i = Some b \<longleftrightarrow> covers fs i b" by simp_all
  show "cr_contiguous c \<le> length (cr_bytes c)" using crypto_inv_bound [OF w(1)] w(1) by (simp add: crypto_inv_def)
  show "\<not> covers fs (cr_contiguous c) b" using w by (metis crypto_inv_def option.distinct(1))
  assume "i < cr_contiguous c"
  with w(1) have "view c i \<noteq> None" by (simp add: crypto_inv_def)
  then have "view c i = Some (cr_bytes c ! i)" by (auto simp: view_def split: if_splits)
  with w(2) show "covers fs i (cr_bytes c ! i)" by simp
qed

lemma inspect_prefix_whole:
  "inspect_client_hello_prefix host_parse input = Inr (Some n) \<longleftrightarrow> inspect_client_hello host_parse input = Inr n"
proof (cases "client_hello_wire_len input")
  case (Inr len)
  show ?thesis
  proof (cases len)
    case (Some required)
    consider "length input < required" | "length input > required" | "required = length input" by linarith
    then show ?thesis
      by cases (simp_all add: inspect_client_hello_prefix_def inspect_client_hello_def Inr Some result_simps)
  qed (simp add: inspect_client_hello_prefix_def inspect_client_hello_def Inr)
qed (simp add: inspect_client_hello_prefix_def inspect_client_hello_def)

section \<open>Packet numbers\<close>

lemma word_window:
  assumes "k < 64" "t < 2 ^ k" "e < 2 ^ 64"
  shows "unat ((word_of_nat e AND NOT (word_of_nat (2 ^ k - 1))) OR word_of_nat t :: 64 word) = e div 2 ^ k * 2 ^ k + t"
proof -
  let ?w = "word_of_nat :: nat \<Rightarrow> 64 word"
  have m: "?w (2 ^ k - 1) = mask k" by (simp add: mask_eq_exp_minus_1 of_nat_diff)
  have tb: "take_bit k (?w n) = ?w (n mod 2 ^ k)" for n by (simp only: take_bit_of_nat) (simp only: take_bit_eq_mod)
  have t: "?w t = take_bit k (?w t)" using assms(2) by (simp add: tb)
  have a: "?w e AND NOT (mask k) = push_bit k (drop_bit k (?w e))"
    by (rule bit_eqI) (auto simp: bit_simps)
  have d: "?w e AND NOT (mask k) = ?w e - ?w (e mod 2 ^ k)"
    using bits_ident [of k "?w e"] unfolding a tb by (simp add: algebra_simps)
  have "?w e AND NOT (mask k) OR ?w t = (?w e AND NOT (mask k)) + ?w t"
    by (subst t, subst (2) t, rule disjunctive_add [symmetric]) (auto simp: bit_simps)
  also have "\<dots> = ?w (e - e mod 2 ^ k + t)" unfolding d by (simp only: of_nat_add of_nat_diff mod_less_eq_dividend)
  also have "e - e mod 2 ^ k + t = e div 2 ^ k * 2 ^ k + t" by (simp add: minus_mod_eq_div_mult)
  finally have eq: "(?w e AND NOT (?w (2 ^ k - 1))) OR ?w t = ?w (e div 2 ^ k * 2 ^ k + t)" unfolding m .
  have "e div 2 ^ k < 2 ^ (64 - k)"
    using assms(1,3) by (simp add: div_less_iff_less_mult flip: power_add)
  then have "(e div 2 ^ k + 1) * 2 ^ k \<le> 2 ^ (64 - k) * (2 :: nat) ^ k" by (intro mult_le_mono1) simp
  also have "\<dots> = 2 ^ 64" using assms(1) by (simp flip: power_add)
  finally have "e div 2 ^ k * 2 ^ k + t < 2 ^ LENGTH(64)" using assms(2) by simp
  then show ?thesis unfolding eq by (simp only: unat_of_nat mod_less)
qed

definition expected_number :: "nat option \<Rightarrow> nat" where
  "expected_number largest = (case largest of None \<Rightarrow> 0 | Some v \<Rightarrow> v + 1)"

lemma reconstruct_packet_number_eq:
  assumes "1 \<le> len" "len \<le> 4" "truncated < 256 ^ len" "case largest of None \<Rightarrow> True | Some v \<Rightarrow> v \<le> MAX_PACKET_NUMBER"
  defines "e \<equiv> expected_number largest" and "w \<equiv> 256 ^ len"
  defines "c \<equiv> e div w * w + truncated"
  shows "reconstruct_packet_number truncated len largest =
    (let n = if c + w div 2 \<le> e \<and> c \<le> MAX_PACKET_NUMBER - w then c + w
             else if c > e + w div 2 \<and> c \<ge> w then c - w else c in
     if n > MAX_PACKET_NUMBER then Inl (Ie_InvalidQuicInitial ''packet number exceeds QUIC limit'') else Inr n)"
proof -
  have w: "(256 :: nat) ^ len = 2 ^ (len * 8)" by (subst mult.commute) (simp add: power_mult)
  have wb: "w \<le> 2 ^ 32" unfolding w_def w using assms(2) by (intro power_increasing) simp_all
  have eb: "e \<le> 2 ^ 62" using assms(4) by (simp add: e_def expected_number_def MAX_PACKET_NUMBER_def split: option.splits)
  have e: "(case largest of None \<Rightarrow> 0 | Some v \<Rightarrow> saturating_add_u64 v 1) = e"
    using assms(4) by (simp add: e_def expected_number_def saturating_add_u64_def u64_max_def MAX_PACKET_NUMBER_def split: option.splits)
  have c: "unat ((word_of_nat e AND NOT (word_of_nat (w - 1))) OR word_of_nat truncated :: 64 word) = c"
    unfolding c_def w_def w using assms(2,3) eb by (intro word_window) (simp_all add: w)
  have "c \<le> e + w" using assms(3) unfolding c_def w_def by (intro add_mono) simp_all
  then have cb: "c \<le> 2 ^ 62 + 2 ^ 32" using eb wb by simp
  have add: "checked_add_u64 c (w div 2) = Some (c + w div 2)" "saturating_add_u64 e (w div 2) = e + w div 2"
    using cb wb eb by (simp_all add: checked_add_u64_def saturating_add_u64_def u64_max_def)
  have bits: "\<not> len * 8 > u64_max" "\<not> len * 8 \<ge> 64" using assms(2) by (simp_all add: u64_max_def)
  show ?thesis
    unfolding reconstruct_packet_number_def Let_def e c if_not_P [OF bits(1)] if_not_P [OF bits(2)] w [symmetric]
      w_def [symmetric] add option.case ..
qed

lemma nearest_window:
  fixes h n t e :: nat
  assumes "0 < h" "n mod (2 * h) = t" "e < n + h" "n \<le> e + h"
  defines "w \<equiv> 2 * h"
  defines "c \<equiv> e div w * w + t"
  shows "n = (if c + h \<le> e then c + w else if c > e + h then c - w else c) \<and> (c > e + h \<longrightarrow> c \<ge> w)"
proof -
  define p q r where "p = e div w" and "q = n div w" and "r = e mod w"
  have n: "n = q * w + t" unfolding q_def w_def assms(2) [symmetric] by (rule div_mult_mod_eq [symmetric])
  have e: "e = p * w + r" unfolding p_def r_def by (rule div_mult_mod_eq [symmetric])
  have b: "r < w" "t < w" using assms(1,2) by (auto simp: r_def w_def)
  have "q * w < (p + 2) * w" using n e b assms(4) by (simp add: algebra_simps w_def)
  then have 1: "q < p + 2" by (simp only: mult_less_cancel2)
  have "p * w < (q + 2) * w" using n e b assms(3) by (simp add: algebra_simps w_def)
  then have 2: "p < q + 2" by (simp only: mult_less_cancel2)
  have c: "c = p * w + t" by (simp add: c_def p_def)
  consider "q = p + 1" | "q = p" | "p = q + 1" using 1 2 by linarith
  then show ?thesis
  proof cases
    case 1 then show ?thesis using n c assms(3,4) by (simp add: w_def)
  next
    case 2 then show ?thesis using n c assms(3,4) by (simp add: w_def)
  next
    case 3 then show ?thesis using n c assms(3,4) by (simp add: w_def)
  qed
qed

text \<open>
  Claim C14. Packet numbers are sent truncated to their last one to four bytes. Whatever the largest number seen so far,
  a packet whose number lies less than half a window below, or at most half a window above, the expected next number
  is decoded to exactly the number that was sent; in every other case the decoded number is still within the limit
  of the protocol and has the transmitted bytes as its last ones, or decoding is refused.
\<close>

theorem packet_number_recovered:
  assumes "1 \<le> len" "len \<le> 4" "n \<le> MAX_PACKET_NUMBER" "case largest of None \<Rightarrow> True | Some v \<Rightarrow> v \<le> MAX_PACKET_NUMBER"
  shows "(expected_number largest < n + 256 ^ len div 2 \<and> n \<le> expected_number largest + 256 ^ len div 2
           \<longrightarrow> reconstruct_packet_number (n mod 256 ^ len) len largest = Inr n)
       \<and> (\<forall>m. reconstruct_packet_number (n mod 256 ^ len) len largest = Inr m
           \<longrightarrow> m \<le> MAX_PACKET_NUMBER \<and> m mod 256 ^ len = n mod 256 ^ len)"
proof -
  define w e :: nat where "w = 256 ^ len" and "e = expected_number largest"
  define c where "c = e div w * w + n mod w"
  have len: "len = 1 \<or> len = 2 \<or> len = 3 \<or> len = 4" using assms(1,2) by linarith
  have h: "w = 2 * (w div 2)" "0 < w div 2" "w < MAX_PACKET_NUMBER"
    using len unfolding w_def by (auto simp: MAX_PACKET_NUMBER_def)
  have "n mod w < w" using h by simp
  then have eq: "reconstruct_packet_number (n mod w) len largest =
    (let m = if c + w div 2 \<le> e \<and> c \<le> MAX_PACKET_NUMBER - w then c + w
             else if c > e + w div 2 \<and> c \<ge> w then c - w else c in
     if m > MAX_PACKET_NUMBER then Inl (Ie_InvalidQuicInitial ''packet number exceeds QUIC limit'') else Inr m)"
    unfolding w_def c_def e_def using assms by (intro reconstruct_packet_number_eq)
  have "reconstruct_packet_number (n mod w) len largest = Inr n" if near: "e < n + w div 2" "n \<le> e + w div 2"
  proof -
    have "n mod (2 * (w div 2)) = n mod w" using h(1) by simp
    note nearest_window [OF h(2) this near, folded h(1), folded c_def]
    then show ?thesis unfolding eq Let_def using assms(3) h(3) by (auto split: if_splits)
  qed
  moreover have "m \<le> MAX_PACKET_NUMBER \<and> m mod w = n mod w" if "reconstruct_packet_number (n mod w) len largest = Inr m" for m
  proof -
    have "c mod w = n mod w" by (simp add: c_def)
    moreover have "w \<le> c \<Longrightarrow> (c - w) mod w = c mod w" by (rule le_mod_geq [symmetric])
    ultimately show ?thesis using that unfolding eq Let_def by (auto split: if_splits)
  qed
  ultimately show ?thesis unfolding w_def e_def by blast
qed

theorem packet_number_recovered_witness:
  "reconstruct_packet_number (0xa82f9b32 mod 256 ^ 2) 2 (Some 0xa82f30ea) = Inr 0xa82f9b32"
  using packet_number_recovered [of 2 "0xa82f9b32" "Some 0xa82f30ea"] by (simp add: expected_number_def MAX_PACKET_NUMBER_def)

section \<open>What an inspection establishes\<close>

text \<open>
  The payload of an Initial packet is a sequence of frames; \<open>initial_frames\<close> relates it to the CRYPTO fragments it
  carries. An inspection that meets an error ends there, as its callers end it.
\<close>

inductive initial_frames :: "reader \<Rightarrow> (nat \<times> bytes) list \<Rightarrow> bool" where
  done_frames: "quic_is_empty r \<Longrightarrow> initial_frames r []"
| idle_frame: "\<not> quic_is_empty r \<Longrightarrow> varint r = Inr (t, r1) \<Longrightarrow> t \<in> {0x00, 0x01} \<Longrightarrow> initial_frames r1 fs \<Longrightarrow> initial_frames r fs"
| ack_frame: "\<not> quic_is_empty r \<Longrightarrow> varint r = Inr (t, r1) \<Longrightarrow> t \<in> {0x02, 0x03} \<Longrightarrow> parse_ack (t = 0x03) r1 = Inr r2
    \<Longrightarrow> initial_frames r2 fs \<Longrightarrow> initial_frames r fs"
| crypto_frame: "\<not> quic_is_empty r \<Longrightarrow> varint r = Inr (0x06, r1) \<Longrightarrow> read_crypto_frame r1 = Inr (offset, data, r2)
    \<Longrightarrow> initial_frames r2 fs \<Longrightarrow> initial_frames r ((offset, data) # fs)"

declare parse_initial_frames.simps [simp del]

lemma parse_initial_frames_sound:
  "parse_initial_frames r c = (Inr (), c') \<Longrightarrow> \<exists>fs. initial_frames r fs \<and> insert_all fs c = (Inr (), c')"
proof (induction r c rule: parse_initial_frames.induct)
  case (1 r c)
  note ih = 1(1-3) and prem = 1(4) and step = parse_initial_frames.simps [of r c]
  show ?case
  proof (cases "quic_is_empty r")
    case True
    then have "c' = c" using prem unfolding step by simp
    with True show ?thesis by (auto intro: done_frames)
  next
    case False
    then obtain t r1 where v: "varint r = Inr (t, r1)" using prem unfolding step by (auto split: sum.splits)
    note step = step [unfolded if_not_P [OF False] v sum.case prod.case]
    consider (idle) "t \<in> {0, 1}" | (ack) "t \<in> {2, 3}" | (crypto) "t = 6" | (other) "t \<notin> {0, 1, 2, 3, 6}" by blast
    then show ?thesis
    proof cases
      case idle
      then have "parse_initial_frames r1 c = (Inr (), c')" using prem unfolding step by auto
      then obtain fs where "initial_frames r1 fs" "insert_all fs c = (Inr (), c')" using ih(1) [OF False v refl] idle by auto
      with idle_frame [OF False v idle] show ?thesis by blast
    next
      case ack
      then obtain r2 where r2: "parse_ack (t = 3) r1 = Inr r2" "parse_initial_frames r2 c = (Inr (), c')"
        using prem unfolding step by (auto split: sum.splits)
      then obtain fs where "initial_frames r2 fs" "insert_all fs c = (Inr (), c')"
        using ih(2) [OF False v refl _ _ r2(1)] ack by auto
      with ack_frame [OF False v ack r2(1)] show ?thesis by blast
    next
      case crypto
      then obtain offset data r2 c2 where r2: "read_crypto_frame r1 = Inr (offset, data, r2)"
          "crypto_insert offset data c = (Inr (), c2)" "parse_initial_frames r2 c2 = (Inr (), c')"
        using prem unfolding step by (auto split: sum.splits prod.splits)
      then obtain fs where "initial_frames r2 fs" "insert_all fs c2 = (Inr (), c')"
        using ih(3) [OF False v refl _ _ _ r2(1) refl refl r2(2) [symmetric]] crypto by auto
      with crypto_frame [OF False v [unfolded crypto] r2(1)] r2(2) show ?thesis by force
    next
      case other
      then show ?thesis using prem unfolding step by (auto split: sum.splits if_splits)
    qed
  qed
qed

lemma insert_all_append:
  "insert_all (fs @ gs) c = (case insert_all fs c of (Inl e, c') \<Rightarrow> (Inl e, c') | (Inr _, c') \<Rightarrow> insert_all gs c')"
  by (induction fs arbitrary: c) (auto split: prod.splits sum.splits)

fun inspect_datagrams :: "quic_env \<Rightarrow> bytes list \<Rightarrow> quic_inspector \<Rightarrow> (inspection_error + quic_inspection list) \<times> quic_inspector" where
  "inspect_datagrams env [] s = (Inr [], s)"
| "inspect_datagrams env (d # ds) s =
     (case inspect_datagram env d s of
        (Inl e, s') \<Rightarrow> (Inl e, s')
      | (Inr x, s') \<Rightarrow> (case inspect_datagrams env ds s' of (Inl e, s'') \<Rightarrow> (Inl e, s'') | (Inr xs, s'') \<Rightarrow> (Inr (x # xs), s'')))"

definition authentic_fragment :: "quic_env \<Rightarrow> initial_keys \<Rightarrow> bytes list \<Rightarrow> nat \<times> bytes \<Rightarrow> bool" where
  "authentic_fragment env keys ds f \<longleftrightarrow>
     (\<exists>d \<in> set ds. \<exists>largest opened fs. open_initial env keys largest d = Inr opened
        \<and> initial_frames (reader_new (oi_plaintext opened)) fs \<and> f \<in> set fs)"

definition stream_of :: "crypto_reassembler \<Rightarrow> bytes" where
  "stream_of c = take (cr_contiguous c) (cr_bytes c)"

definition inspected :: "quic_env \<Rightarrow> initial_keys \<Rightarrow> bytes list \<Rightarrow> quic_inspector \<Rightarrow> bool" where
  "inspected env keys ds s \<longleftrightarrow> qi_keys s = keys
     \<and> (\<exists>fs. insert_all fs crypto_default = (Inr (), qi_crypto s) \<and> (\<forall>f \<in> set fs. authentic_fragment env keys ds f))"

lemma inspect_datagram_inspected:
  assumes "inspected env keys ds s" "inspect_datagram env d s = (Inr x, s')"
  shows "inspected env keys (ds @ [d]) s' \<and> \<not> qi_complete s
    \<and> (qx_progress x = NeedMore \<and> \<not> qi_complete s' \<and> (\<forall>name. inspect_client_hello (qe_host_parse env) (stream_of (qi_crypto s')) \<noteq> Inr name)
     \<or> (\<exists>name. qx_progress x = Complete name \<and> qi_complete s' \<and> inspect_client_hello (qe_host_parse env) (stream_of (qi_crypto s')) = Inr name))"
proof -
  obtain opened c where o: "open_initial env (qi_keys s) (qi_largest_packet_number s) d = Inr opened" "\<not> qi_complete s"
      "parse_initial_frames (reader_new (oi_plaintext opened)) (qi_crypto s) = (Inr (), c)" "qi_crypto s' = c" "qi_keys s' = qi_keys s"
    and h: "crypto_client_hello (qe_host_parse env) c = Inr None \<and> qx_progress x = NeedMore \<and> \<not> qi_complete s'
       \<or> (\<exists>name. crypto_client_hello (qe_host_parse env) c = Inr (Some name) \<and> qx_progress x = Complete name \<and> qi_complete s')"
    using assms(2) unfolding inspect_datagram_def Let_def
    by (auto split: if_splits sum.splits prod.splits option.splits)
  obtain gs where g: "initial_frames (reader_new (oi_plaintext opened)) gs" "insert_all gs (qi_crypto s) = (Inr (), c)"
    using parse_initial_frames_sound [OF o(3)] by blast
  obtain fs where f: "qi_keys s = keys" "insert_all fs crypto_default = (Inr (), qi_crypto s)" "\<forall>f \<in> set fs. authentic_fragment env keys ds f"
    using assms(1) unfolding inspected_def by blast
  have "insert_all (fs @ gs) crypto_default = (Inr (), c)" using f(2) g(2) by (simp add: insert_all_append)
  moreover have "authentic_fragment env keys (ds @ [d]) f" if "f \<in> set (fs @ gs)" for f
    using that f(1,3) g(1) o(1) unfolding authentic_fragment_def by auto
  ultimately have "inspected env keys (ds @ [d]) s'" unfolding inspected_def using o(4,5) f(1) by auto
  moreover have "inspect_client_hello (qe_host_parse env) (stream_of c) = Inr name \<longleftrightarrow> crypto_client_hello (qe_host_parse env) c = Inr (Some name)" for name
    unfolding crypto_client_hello_def stream_of_def by (rule inspect_prefix_whole [symmetric])
  ultimately show ?thesis using o(2,4) h by auto
qed

lemma inspect_datagrams_inspected:
  assumes "inspected env keys ds0 s" "inspect_datagrams env ds s = (Inr xs, s')"
  shows "inspected env keys (ds0 @ ds) s' \<and> (qi_complete s \<longrightarrow> xs = []) \<and> (\<forall>x \<in> set (butlast xs). qx_progress x = NeedMore)
    \<and> (xs \<noteq> [] \<longrightarrow>
       (case qx_progress (last xs) of
          Complete name \<Rightarrow> inspect_client_hello (qe_host_parse env) (stream_of (qi_crypto s')) = Inr name
        | NeedMore \<Rightarrow> \<forall>name. inspect_client_hello (qe_host_parse env) (stream_of (qi_crypto s')) \<noteq> Inr name))"
  using assms
proof (induction ds arbitrary: s ds0 xs)
  case Nil
  then show ?case by simp
next
  case (Cons d ds)
  obtain x s1 ys where o: "inspect_datagram env d s = (Inr x, s1)" "inspect_datagrams env ds s1 = (Inr ys, s')" "xs = x # ys"
    using Cons.prems(2) by (auto split: prod.splits sum.splits)
  note i = inspect_datagram_inspected [OF Cons.prems(1) o(1)]
  note ih = Cons.IH [OF conjunct1 [OF i] o(2)]
  show ?case
  proof (cases "ys = []")
    case True
    then have "ds = []" "s' = s1" using o(2) by (cases ds; auto split: prod.splits sum.splits)+
    with True o(3) i show ?thesis by auto
  next
    case False
    with ih i have "qx_progress x = NeedMore" by auto
    with False ih i o(3) show ?thesis by auto
  qed
qed

section \<open>Properties of the QUIC inspection\<close>

lemma reassembled_stream:
  assumes "insert_all fs crypto_default = (Inr (), c)"
  shows "i < length (stream_of c) \<Longrightarrow> covers fs i (stream_of c ! i)" and "\<not> covers fs (length (stream_of c)) b"
proof -
  note s = reassembled [OF assms]
  have len: "length (stream_of c) = cr_contiguous c" using s(4) by (simp add: stream_of_def)
  show "\<not> covers fs (length (stream_of c)) b" unfolding len by (rule s(3)) simp
  assume "i < length (stream_of c)"
  then have "i < cr_contiguous c" by (simp only: len)
  moreover from this have "stream_of c ! i = cr_bytes c ! i" by (simp add: stream_of_def)
  ultimately show "covers fs i (stream_of c ! i)" using s(2) by simp
qed

text \<open>
  Claim C11. Reassembly of CRYPTO fragments implements the union of partial maps from stream positions to bytes. A
  sequence of fragments, in any order and with any overlap, is accepted exactly when there are at most 128 of them,
  none reaches past 65536 bytes and any two agree on every position they share. After acceptance, the contiguous part
  handed to the ClientHello parser is the longest prefix of the stream that the fragments cover, with the covering
  bytes.
\<close>

theorem crypto_reassembly:
  assumes "insert_all fs crypto_default = (r, c)"
  shows "(r = Inr () \<longleftrightarrow> length fs \<le> MAX_CRYPTO_FRAGMENTS
           \<and> (\<forall>f \<in> set fs. fst f + length (snd f) \<le> MAX_CLIENT_HELLO_BYTES) \<and> consistent fs)
       \<and> (r = Inr () \<longrightarrow> (\<forall>i < length (stream_of c). covers fs i (stream_of c ! i)) \<and> (\<forall>b. \<not> covers fs (length (stream_of c)) b))"
proof (intro conjI impI)
  show "r = Inr () \<longleftrightarrow> length fs \<le> MAX_CRYPTO_FRAGMENTS
           \<and> (\<forall>f \<in> set fs. fst f + length (snd f) \<le> MAX_CLIENT_HELLO_BYTES) \<and> consistent fs" by (rule reassembled(1) [OF assms])
  assume "r = Inr ()"
  note s = reassembled_stream [OF assms [unfolded this]]
  show "\<forall>i < length (stream_of c). covers fs i (stream_of c ! i)" using s(1) by blast
  show "\<forall>b. \<not> covers fs (length (stream_of c)) b" using s(2) by blast
qed

text \<open>
  A client stream of at most 65536 bytes that is sent as at most 128 fragments covering it arrives whole, whatever their
  order and however they overlap: every fragment is accepted and the reassembled ClientHello is judged exactly as the
  stream itself would be.
\<close>

lemma stream_delivered:
  assumes "length stream \<le> MAX_CLIENT_HELLO_BYTES" "length fs \<le> MAX_CRYPTO_FRAGMENTS"
    and "\<forall>f \<in> set fs. fst f + length (snd f) \<le> length stream \<and> snd f = take (length (snd f)) (drop (fst f) stream)"
    and "\<forall>i < length stream. \<exists>f \<in> set fs. fst f \<le> i \<and> i < fst f + length (snd f)"
    and "insert_all fs crypto_default = (r, c)"
  shows "r = Inr () \<and> crypto_client_hello host_parse c = inspect_client_hello_prefix host_parse stream"
proof -
  have bound: "f \<in> set fs \<Longrightarrow> fst f + length (snd f) \<le> length stream" for f using assms(3) by blast
  then have inside: "f \<in> set fs \<Longrightarrow> i < fst f + length (snd f) \<Longrightarrow> i < length stream" for f i using less_le_trans by blast
  have cov: "covers fs i b \<longleftrightarrow> i < length stream \<and> stream ! i = b" for i b
  proof -
    have "fragment f i = Some b \<longleftrightarrow> fst f \<le> i \<and> i < fst f + length (snd f) \<and> stream ! i = b" if "f \<in> set fs" for f
    proof -
      have f: "snd f = take (length (snd f)) (drop (fst f) stream)" using assms(3) that by blast
      have "snd f ! (i - fst f) = stream ! i" if "fst f \<le> i" "i < fst f + length (snd f)"
        using that bound [OF \<open>f \<in> set fs\<close>] by (subst f) simp
      then show ?thesis by (auto simp: fragment_def)
    qed
    then show ?thesis using assms(4) inside unfolding covers_def by blast
  qed
  have "r = Inr ()"
    unfolding reassembled(1) [OF assms(5)] consistent_def cov using assms(1,2) bound le_trans by blast
  note s = reassembled(2,3,4) [OF assms(5) this, unfolded cov]
  have "cr_contiguous c = length stream"
    using s(1) [of "length stream"] s(2) [of "stream ! cr_contiguous c"] by (meson less_irrefl linorder_neqE_nat)
  then have "take (cr_contiguous c) (cr_bytes c) = stream" using s(1,3) by (auto intro!: nth_equalityI)
  with \<open>r = Inr ()\<close> show ?thesis by (simp add: crypto_client_hello_def)
qed

text \<open>
  Claim C16. What an inspection of Initial datagrams reports. When a fresh inspector accepts a sequence of datagrams, there
  are fragments, each a CRYPTO frame of a payload that was opened with the keys of the original destination connection
  identifier, which agree on every position they share; the reassembled stream is the longest prefix they cover. Only
  the last report can be complete: it then names the host that the stream's ClientHello names, and if it is not
  complete, the stream holds no acceptable ClientHello.
\<close>

theorem quic_name_authentic:
  assumes "quic_inspector_new env dcid = Inr s" "derive env dcid = Inr keys" "inspect_datagrams env ds s = (Inr xs, s')"
  shows "\<exists>fs stream. (\<forall>f \<in> set fs. authentic_fragment env keys ds f) \<and> length fs \<le> MAX_CRYPTO_FRAGMENTS \<and> consistent fs
     \<and> (\<forall>i < length stream. covers fs i (stream ! i)) \<and> (\<forall>b. \<not> covers fs (length stream) b)
     \<and> (\<forall>x \<in> set (butlast xs). qx_progress x = NeedMore)
     \<and> (xs \<noteq> [] \<longrightarrow>
        (case qx_progress (last xs) of
           Complete name \<Rightarrow> inspect_client_hello (qe_host_parse env) stream = Inr name
         | NeedMore \<Rightarrow> \<forall>name. inspect_client_hello (qe_host_parse env) stream \<noteq> Inr name))"
proof -
  have "inspected env keys [] s"
    using assms(1,2) unfolding inspected_def quic_inspector_new_def
    by (auto simp: result_simps split: if_splits intro: exI [of _ "[]"])
  note i = inspect_datagrams_inspected [OF this assms(3), unfolded append_Nil]
  then obtain fs where f: "insert_all fs crypto_default = (Inr (), qi_crypto s')" "\<forall>f \<in> set fs. authentic_fragment env keys ds f"
    unfolding inspected_def by blast
  have n: "length fs \<le> MAX_CRYPTO_FRAGMENTS" "consistent fs" using reassembled(1) [OF f(1)] by blast+
  show ?thesis
    by (intro exI [of _ fs] exI [of _ "stream_of (qi_crypto s')"] conjI f(2) n allI impI reassembled_stream [OF f(1)])
      (use i in blast)+
qed

section \<open>An example\<close>

definition demo_stream :: bytes where
  "demo_stream = client_hello_message demo_hello"

definition demo_quic_env :: quic_env where
  "demo_quic_env =
     \<lparr>qe_extract = (\<lambda>salt secret. replicate 32 7), qe_expand = (\<lambda>secret info n. Some (replicate n 9)),
      qe_key_ok = (\<lambda>key. length key = 16), qe_header_key_ok = (\<lambda>key. length key = 16),
      qe_new_mask = (\<lambda>key sample. Some (replicate 5 0)),
      qe_open = (\<lambda>key nonce header sealed. Some (take (length sealed - 16) sealed)),
      qe_host_parse = demo_host_parse\<rparr>"

definition demo_payload :: bytes where
  "demo_payload = [0x06, 0, 0x40, word_of_nat (length demo_stream)] @ demo_stream"

definition demo_datagram :: bytes where
  "demo_datagram =
     [0xc0, 0, 0, 0, 1, 8, 1, 2, 3, 4, 5, 6, 7, 8, 0, 0x44, 0xb0] @ replicate 1200 0
     @ [0x40, word_of_nat (length demo_payload) + 17, 0] @ demo_payload @ replicate 16 0"

lemma demo_lengths: "length demo_stream = 76"
  by code_simp

lemma quic_take_step [simp]:
  "k + n \<le> length input \<Longrightarrow> k + n \<le> u64_max \<Longrightarrow>
     quic_take n \<lparr>rd_input = input, rd_offset = k\<rparr> = Inr (take n (drop k input), \<lparr>rd_input = input, rd_offset = k + n\<rparr>)"
  by (simp add: quic_take_def checked_add_u64_def result_simps)

definition demo_reader :: "nat \<Rightarrow> reader" where
  "demo_reader k = \<lparr>rd_input = 6 # 0 # 64 # 76 # demo_stream, rd_offset = k\<rparr>"

lemmas demo_reading = demo_reader_def varint_def quic_u8_def Let_def result_simps u64_max_def

lemma demo_frame:
  "varint (demo_reader 0) = Inr (6, demo_reader (Suc 0))" "varint (demo_reader (Suc 0)) = Inr (0, demo_reader 2)"
  "varint (demo_reader 2) = Inr (76, demo_reader 4)" "quic_take 76 (demo_reader 4) = Inr (demo_stream, demo_reader 80)"
  "\<not> quic_is_empty (demo_reader 0)" "quic_is_empty (demo_reader 80)"
  by (simp_all add: demo_reading demo_lengths quic_is_empty_def)

lemma demo_frames:
  "parse_initial_frames (reader_new demo_payload) crypto_default = insert_all [(0, demo_stream)] crypto_default"
proof -
  have "reader_new demo_payload = demo_reader 0" by (simp add: reader_new_def demo_payload_def demo_reader_def demo_lengths)
  moreover have "read_crypto_frame (demo_reader (Suc 0)) = Inr (0, demo_stream, demo_reader 80)"
    by (simp add: read_crypto_frame_def demo_frame)
  ultimately show ?thesis
    by (simp add: parse_initial_frames.simps [of "demo_reader 0"] parse_initial_frames.simps [of "demo_reader 80"] demo_frame
        split: prod.split sum.split)
qed

lemma demo_datagram_eq:
  "demo_datagram = [0xc0, 0, 0, 0, 1, 8, 1, 2, 3, 4, 5, 6, 7, 8, 0, 0x44, 0xb0] @ replicate 1200 0 @ [0x40, 97, 0] @ demo_payload @ replicate 16 0"
  "length demo_datagram = 1316" "length demo_payload = 80"
  by (simp_all add: demo_datagram_def demo_payload_def demo_lengths)

lemma demo_header:
  "parse_protected_header demo_datagram = Inr \<lparr>ph_packet_number_offset = 1219, ph_packet_end = 1316\<rparr>"
  by (simp add: parse_protected_header_def demo_datagram_eq varint_def quic_u8_def Let_def result_simps u64_max_def be_nat_def QUIC_VERSION_1_def MAX_CONNECTION_ID_BYTES_def MAX_TOKEN_BYTES_def checked_add_u64_def)

definition demo_keys :: initial_keys where
  "demo_keys = \<lparr>ik_key = replicate 16 9, ik_iv = replicate 12 9, ik_header_protection = replicate 16 9\<rparr>"

definition demo_inspector :: quic_inspector where
  "demo_inspector = \<lparr>qi_keys = demo_keys, qi_largest_packet_number = None, qi_crypto = crypto_default, qi_datagrams = 0, qi_complete = False\<rparr>"

lemma demo_new:
  "derive demo_quic_env [1, 2, 3, 4, 5, 6, 7, 8] = Inr demo_keys"
  "quic_inspector_new demo_quic_env [1, 2, 3, 4, 5, 6, 7, 8] = Inr demo_inspector"
  by code_simp+

lemma demo_opened:
  "open_initial demo_quic_env demo_keys None demo_datagram = Inr \<lparr>oi_packet_number = 0, oi_plaintext = demo_payload\<rparr>"
proof -
  have "drop 1220 demo_datagram = demo_payload @ replicate 16 0" "hd demo_datagram = 0xc0"
    "take (Suc 0) (drop 1219 demo_datagram) = [0]" by (simp_all add: demo_datagram_eq(1))
  moreover have "reconstruct_packet_number 0 (Suc 0) None = Inr 0" by code_simp
  ultimately show ?thesis
    by (simp add: open_initial_def demo_header demo_datagram_eq(2,3) MIN_INITIAL_DATAGRAM_BYTES_def MAX_INITIAL_DATAGRAM_BYTES_def
        demo_quic_env_def demo_keys_def Let_def checked_add_u64_def u64_max_def be_nat_def ok_or_def)
qed

lemma demo_delivered:
  "\<exists>c. insert_all [(0, demo_stream)] crypto_default = (Inr (), c) \<and> crypto_client_hello demo_host_parse c = Inr (Some (lit ''example.org''))"
proof -
  obtain r c where i: "insert_all [(0, demo_stream)] crypto_default = (r, c)" by (rule prod.exhaust)
  have "r = Inr () \<and> crypto_client_hello demo_host_parse c = inspect_client_hello_prefix demo_host_parse demo_stream"
    by (rule stream_delivered [OF _ _ _ _ i]) (simp_all add: demo_lengths MAX_CLIENT_HELLO_BYTES_def MAX_CRYPTO_FRAGMENTS_def)
  moreover have "inspect_client_hello_prefix demo_host_parse demo_stream = Inr (Some (lit ''example.org''))" by code_simp
  ultimately show ?thesis using i by auto
qed

lemma demo_inspection:
  "\<exists>x s. inspect_datagrams demo_quic_env [demo_datagram] demo_inspector = (Inr [x], s) \<and> qx_progress x = Complete (lit ''example.org'')"
proof -
  obtain c where "insert_all [(0, demo_stream)] crypto_default = (Inr (), c)"
    and h: "crypto_client_hello demo_host_parse c = Inr (Some (lit ''example.org''))"
    using demo_delivered by blast
  then have "parse_initial_frames (reader_new demo_payload) crypto_default = (Inr (), c)" by (simp only: demo_frames)
  moreover have "qe_host_parse demo_quic_env = demo_host_parse" by (simp add: demo_quic_env_def)
  ultimately show ?thesis
    using h by (simp add: inspect_datagram_def demo_inspector_def demo_opened saturating_add_u64_def u64_max_def
        MAX_INITIAL_DATAGRAMS_def Let_def)
qed

theorem crypto_reassembly_witness:
  "fst (insert_all [(1, [2]), (0, [1, 2])] crypto_default) = Inr ()
     \<and> fst (insert_all [(1, [2]), (0, [1, 3])] crypto_default) \<noteq> Inr ()
     \<and> consistent [(1, [2]), (0, [1, 2])] \<and> \<not> consistent [(1, [2]), (0, [1, 3])]"
proof -
  have i: "fst (insert_all [(1, [2]), (0, [1, 2])] crypto_default) = Inr ()"
    "fst (insert_all [(1, [2]), (0, [1, 3])] crypto_default) = Inl Ie_ConflictingCryptoData" by code_simp+
  have "consistent [(1, [2]), (0, [1, 2])]"
    using i(1) crypto_reassembly [of "[(1, [2]), (0, [1, 2])]", OF prod.collapse [symmetric]] by blast
  moreover have "\<not> consistent [(1, [2]), (0, [1, 3])]"
    using i(2) crypto_reassembly [of "[(1, [2]), (0, [1, 3])]", OF prod.collapse [symmetric]]
    by (simp add: MAX_CLIENT_HELLO_BYTES_def MAX_CRYPTO_FRAGMENTS_def)
  ultimately show ?thesis using i by simp
qed

theorem quic_name_authentic_witness:
  "\<exists>fs stream. (\<forall>f \<in> set fs. authentic_fragment demo_quic_env demo_keys [demo_datagram] f) \<and> consistent fs
     \<and> (\<forall>i < length stream. covers fs i (stream ! i)) \<and> inspect_client_hello demo_host_parse stream = Inr (lit ''example.org'')"
proof -
  obtain x s where i: "inspect_datagrams demo_quic_env [demo_datagram] demo_inspector = (Inr [x], s)"
    "qx_progress x = Complete (lit ''example.org'')" using demo_inspection by blast
  have "qe_host_parse demo_quic_env = demo_host_parse" by (simp add: demo_quic_env_def)
  with quic_name_authentic [OF demo_new(2,1) i(1)] i(2) show ?thesis by auto
qed

end
