(* ===== verification/Spec2Isabelle.thy ===== *)
theory Spec2Isabelle
  imports Tx_Store Tx_Wire_Correct Tx_Abci_Correct Core_Types Reservation_Ledger Exit_Correct Inspect_Quic
begin

text \<open>
  A verification library of VOLPAROSSA.

  \<^bold>\<open>The program.\<close> VOLPAROSSA (the Rust workspace \<^verbatim>\<open>crates\<close>) routes the traffic of a client over several relays to an exit.
  The exit opens only connections that a whitelist, signed by a threshold of maintainers, allows. Control messages are
  signed envelopes with a bounded lifetime and a nonce; an exit grants a reservation, each relay countersigns one path of
  it, and the client asks the exit to open flows on the verified route. Nodes account for the capacity they grant. The exit
  may inspect the host name that a TLS or QUIC client sends in clear. Beside this stands a ledger of fictitious TEST units,
  driven by signed commands, locally or as blocks ordered by a consensus engine over an ABCI socket.

  \<^bold>\<open>Conventions.\<close> \<open>Volparossa_Prelude\<close> fixes them: a \<^verbatim>\<open>Result\<close> is a sum with \<open>Inl\<close> the error, \<open>rbind\<close> is the \<^verbatim>\<open>?\<close> operator, a
  struct is a record, an enum a datatype, a function of the code a definition of the same name, with a prefix where two
  crates use one name. A method that changes its receiver takes the state and returns the answer with the new state.
  Checked and saturating arithmetic is on natural numbers with the width written out, bit operations are on words. A hash
  map is a list of entries with distinct keys, and the results do not depend on its order.

  \<^bold>\<open>Parts, theories and sources.\<close>
  \<^item> Messages (\<^verbatim>\<open>volparossa-protocol\<close>). \<open>Protocol_Canonical\<close>: canonical encoding (\<^verbatim>\<open>canonical.rs\<close>) and control frames
    (\<^verbatim>\<open>lib.rs\<close>, \<^verbatim>\<open>volparossa-tcp-proxy/src/framing.rs\<close>). \<open>Protocol_Envelope\<close>: signing, verification, time policy and replay cache
    (\<^verbatim>\<open>envelope.rs\<close>). \<open>Protocol_Messages\<close>, \<open>Protocol_Extension\<close>: the reservation and flow messages with their validation
    (\<^verbatim>\<open>messages.rs\<close>, \<^verbatim>\<open>reservation_requests.rs\<close>, \<^verbatim>\<open>route_extension.rs\<close>).
  \<^item> Whitelist (\<^verbatim>\<open>volparossa-policy\<close>). \<open>Policy_Domain\<close>: rules and name matching (\<^verbatim>\<open>domain.rs\<close>). \<open>Policy_Manifest\<close>: trust
    store, signing, \<open>verify_manifest\<close>, authorization (\<^verbatim>\<open>lib.rs\<close>, \<^verbatim>\<open>wire.rs\<close>). \<open>Policy_Correct\<close>: their properties.
  \<^item> Routes and flows at an exit. \<open>Replay_Transaction\<close>: the transaction on the replay cache that is rolled back on drop.
    \<open>Route_Verify\<close>: the multipath route (\<^verbatim>\<open>volparossa-tcp-proxy/src/route.rs\<close>) and the UDP path (\<^verbatim>\<open>volparossa-udp/src/path.rs\<close>).
    \<open>Flow_Authorize\<close>: opening flows, pinning a destination and the egress filter (\<^verbatim>\<open>authorization.rs\<close> of both crates).
    \<open>Exit_Example\<close>: a concrete exit. \<open>Exit_Correct\<close>: the properties.
  \<^item> Inspection (\<^verbatim>\<open>volparossa-inspection\<close>). \<open>Inspect_Tls\<close> (\<^verbatim>\<open>tls.rs\<close>) and \<open>Inspect_Quic\<close> (\<^verbatim>\<open>quic.rs\<close>), with their properties.
  \<^item> Capacity. \<open>Reservation_Ledger\<close> (\<^verbatim>\<open>volparossa-reservation/src/lib.rs\<close>) and the shared types of \<open>Core_Types\<close>
    (\<^verbatim>\<open>volparossa-core\<close>).
  \<^item> TEST units (\<^verbatim>\<open>volparossa-transaction\<close>). \<open>Row_Tables\<close>: tables as lists of rows. \<open>Tx_Wire\<close>: signed commands (\<^verbatim>\<open>wire.rs\<close>).
    \<open>Tx_Ledger\<close>: schema, accounting check and command executor (\<^verbatim>\<open>disk.rs\<close>, \<^verbatim>\<open>lib.rs\<close>). \<open>Tx_Ordered\<close>: blocks (\<^verbatim>\<open>ordered.rs\<close>,
    \<^verbatim>\<open>ordered_snapshot.rs\<close>). \<open>Tx_Abci\<close>: the ABCI application (\<^verbatim>\<open>volparossa-transaction-abci\<close>). Properties: \<open>Tx_Wire_Correct\<close>,
    \<open>Tx_Ledger_Correct\<close>, \<open>Tx_Apply\<close>, \<open>Tx_Store\<close>, \<open>Tx_Equiv\<close>, \<open>Tx_Ordered_Correct\<close>, \<open>Tx_Abci_Correct\<close>; \<open>Tx_Example\<close>
    is a concrete ledger.

  \<^bold>\<open>What is shown.\<close>
  \<^item> Messages: verification accepts exactly the canonical encodings of authentic, new messages and records exactly their
    nonce; an accepted message is not accepted again; what is signed verifies.
  \<^item> Whitelist: the rules of an accepted manifest are those of the body its bytes carry, and enough distinct trusted
    maintainers signed that body with signatures the bytes carry; a destination is authorized exactly when a rule covers it;
    what the maintainers sign is accepted.
  \<^item> Exit: an accepted route rests on signatures of the exit and of distinct relays; every verifier is all or nothing on
    the replay cache, so no signed request takes effect twice; a flow is opened exactly when it is bound to the route and
    allowed; a pinned address passes the egress filter, which is compared with the registry of special addresses.
  \<^item> Inspection: the ClientHello parser accepts exactly the encodings of well-formed messages; the way a stream is cut
    does not matter; CRYPTO fragments are reassembled as the union of partial maps; packet numbers are recovered.
  \<^item> Capacity: the ledger never grants more than its ceiling, grants exactly what fits and releases exactly what is due.
  \<^item> TEST units: commands conserve the total and refine an abstract ledger; resubmission is idempotent; only the owner
    spends; a pending reservation can be completed; the store survives faults and reopening; a staged block commits to
    what was staged; only Commit changes the durable store; proposals of one replica are accepted by the others.
  \<^item> This theory: the chain from the maintainers' signatures to one opened TCP flow.

  \<^bold>\<open>Interfaces.\<close> \<open>invariant_component\<close> and \<open>transactional_component\<close> (prelude) are the contracts of components that keep an
  invariant; the replay cache, the capacity ledger, the command executor and the store are instances. \<open>stream_framing\<close>
  is the contract of a framing; control frames and ABCI frames are instances. \<open>replay_atomic\<close> is the contract of a verifier
  on the shared replay cache; single messages, relay paths, routes, UDP paths and TCP and UDP flows are instances.

  \<^bold>\<open>Bounds and termination.\<close> Nothing uses fuel. Every loop is a total function: structural recursion over the input, or a
  measure on the bytes left to read. The limits on sizes, counts and times are the constants of the code.

  \<^bold>\<open>Parameters.\<close> Third-party code is an argument of the definitions: the protobuf codecs of \<^verbatim>\<open>prost\<close>, SHA-256, Ed25519, host
  parsing of \<^verbatim>\<open>url\<close>, the key derivation, header mask and decryption of \<^verbatim>\<open>ring\<close>, JSON and hex. What a theorem needs of them
  is a hypothesis of it; most need nothing, because decoded bytes are re-encoded and compared. The example theories
  instantiate the parameters. Faults of SQLite and of the file system are inputs. The resolver that
  \<open>resolve_and_pin\<close> calls (\<^verbatim>\<open>volparossa-udp/src/dns.rs\<close>) is a parameter too: it waits for answers from the network, and the
  property of pinned destinations holds for every list of addresses it may return.

  \<^bold>\<open>Not modelled.\<close> Sockets, tasks and timeouts (agent, discovery, proxies, UDP sessions, ABCI accept loop); the privileged
  helper, network namespaces and kernel interfaces; randomised peer selection in floating point; advertisements with their
  floating-point fields; configuration and key files; peer store and metrics; native content and compute; the command line;
  the reservation coordinator and the relay and exit services, whose verification and accounting steps are modelled above;
  probe and preselection messages; test support.
\<close>

section \<open>From the maintainers to the connection\<close>

definition covered_by_rule :: "policy_env \<Rightarrow> verified_manifest \<Rightarrow> authorized_tcp_flow \<Rightarrow> bool" where
  "covered_by_rule penv manifest flow \<longleftrightarrow>
     (\<exists>r \<in> set (vmf_rules manifest). ProtocolPort Tcp (tf_port flow) \<in> set (dr_permissions r)
        \<and> (case tf_hostname flow of
             None \<Rightarrow> \<exists>a. tf_destination_ip flow = Some a \<and> dr_destination r = ExactIp a
           | Some h \<Rightarrow> \<exists>n. normalize_domain (pe_host_parse penv) h = Inr n
               \<and> (dr_destination r = ExactDomain n
                  \<or> (\<exists>s ls. dr_destination r = WildcardDomain s \<and> ls \<noteq> [] \<and> split_on dot n = ls @ split_on dot s))))"

lemma allowed_covered:
  assumes "verify_manifest penv bs t0 ts vp = Inr manifest" "tcp_destination_allowed penv manifest m now"
  shows "vmf_valid_from_ms manifest \<le> now \<and> now < vmf_expires_at_ms manifest \<and> covered_by_rule penv manifest (tcp_flow_of m)"
proof -
  have nil: "parse_ip_bytes [] = None" by (simp add: parse_ip_bytes_def)
  show ?thesis
    using assms(2) nil unfolding covered_by_rule_def tcp_flow_of_def tcp_destination_allowed_def
      authorize_rules [OF assms(1), THEN conjunct1] authorize_rules [OF assms(1), THEN conjunct2]
    by (auto split: if_splits)
qed

text \<open>
  Claim C1. From the maintainers to the connection. If a node verified a manifest, then a route, and then opened a TCP
  flow in the scope of that route under that manifest, then: the exit signed the route's reservation; the request was
  signed with the key whose hash is the client session the exit granted, and names the granted route; the manifest was
  active when the flow was opened, and one of its rules covers the flow's destination and port. The rules and the window
  of the manifest are exactly those of the body that its bytes decode to, and for at least the number of trusted
  maintainers that this body requires, at least the local minimum, and at least one, the same bytes carry a 64-byte
  signature by that maintainer's key over that body and its hash.
\<close>

theorem open_tcp_end_to_end:
  assumes "verify_manifest penv bs t0 ts vp = Inr manifest"
    and "fst (verify_inner env er rs ext t1 policy c1) = Inr route"
    and "fst (tcp_verify (re_control env) codec penv (tcp_scope_new route manifest) encoded t2 policy c2) = Inr flow"
  shows "\<exists>e x e' m body sigs. exit_authentic env er t1 policy e x \<and> se_sender_id e = er_exit_node_id x
    \<and> message_authentic (re_control env) (open_tcp_payload codec) encoded t2 policy e' m
    \<and> node_id_from_public_key (re_control env) (se_sender_public_key e') = er_client_session_id x
    \<and> tf_route_context_id flow = er_route_context_id x \<and> flow = tcp_flow_of m
    \<and> vmf_valid_from_ms manifest \<le> t2 \<and> t2 < vmf_expires_at_ms manifest \<and> covered_by_rule penv manifest flow
    \<and> cd_decode (pe_signed penv) bs =
        Some \<lparr>sm_body = Some body, sm_body_hash = vmf_policy_hash manifest, sm_signatures = sigs\<rparr>
    \<and> mb_rules body = map rule_to_proto (vmf_rules manifest) \<and> fields_from_body manifest body
    \<and> vmf_policy_hash manifest = pe_sha256 penv (cd_encode (pe_body penv) body)
    \<and> max 1 (max (mb_required_signatures body) (vp_minimum_signatures vp)) \<le>
        card {k \<in> set (ts_maintainers ts).
          signed_by penv (MANIFEST_SIGNATURE_DOMAIN @ vmf_policy_hash manifest @ cd_encode (pe_body penv) body) sigs k}"
proof -
  from assms(3) obtain e' m where m: "message_authentic (re_control env) (open_tcp_payload codec) encoded t2 policy e' m"
    "ot_route_context_id m = vr_route_context_id route" "ot_client_ephemeral_id m = vr_client_ephemeral_id route"
    "tcp_destination_allowed penv manifest m t2" "flow = tcp_flow_of m"
    unfolding tcp_verify_accepted by (auto simp: tcp_scope_new_def)
  have "verify_inner env er rs ext t1 policy c1 = (Inr route, snd (verify_inner env er rs ext t1 policy c1))"
    using assms(2) by (metis prod.collapse)
  then obtain e x where x: "exit_authentic env er t1 policy e x"
    "vr_route_context_id route = er_route_context_id x" "vr_client_ephemeral_id route = er_client_session_id x"
    by (rule verify_inner_Inr) auto
  have "node_id_from_public_key (re_control env) (se_sender_public_key e') = se_sender_id e'"
    using m(1) by (simp add: message_authentic_def control_authentic_def)
  also have "\<dots> = er_client_session_id x" using open_tcp_fields(1) [OF m(1)] m(3) x(3) by simp
  finally have "node_id_from_public_key (re_control env) (se_sender_public_key e') = er_client_session_id x" .
  moreover have "tf_route_context_id flow = er_route_context_id x" using m(2,5) x(2) by (simp add: tcp_flow_of_def)
  moreover note x(1) exit_reservation_signed(1) [OF x(1) [unfolded exit_authentic_def]] m(1,5)
    allowed_covered [OF assms(1) m(4)]
  moreover obtain body sigs where "cd_decode (pe_signed penv) bs =
        Some \<lparr>sm_body = Some body, sm_body_hash = vmf_policy_hash manifest, sm_signatures = sigs\<rparr>"
      "mb_rules body = map rule_to_proto (vmf_rules manifest)" "fields_from_body manifest body"
      "vmf_policy_hash manifest = pe_sha256 penv (cd_encode (pe_body penv) body)"
      "max 1 (max (mb_required_signatures body) (vp_minimum_signatures vp)) \<le>
        card {k \<in> set (ts_maintainers ts).
          signed_by penv (MANIFEST_SIGNATURE_DOMAIN @ vmf_policy_hash manifest @ cd_encode (pe_body penv) body) sigs k}"
    using manifest_signers [OF assms(1)] by blast
  ultimately show ?thesis by blast
qed

theorem open_tcp_end_to_end_witness:
  "covered_by_rule demo_policy_env demo_manifest demo_tcp_flow
    \<and> map rule_to_proto (vmf_rules demo_manifest) = mb_rules (projr (body_from_spec demo_spec demo_trust))
    \<and> 2 \<le> card {k \<in> set (ts_maintainers demo_trust). signed_by demo_policy_env
          (MANIFEST_SIGNATURE_DOMAIN @ replicate 32 7 @ [7]) demo_signatures k}
    \<and> (\<exists>e m. message_authentic demo_exit_control (open_tcp_payload demo_tcp_codec) [30] 1600 default_time_policy e m)"
proof -
  have r: "fst (verify_inner demo_route_env [10] [[12], [13]] None 1600 default_time_policy demo_exit_cache) = Inr demo_route"
    by (simp add: demo_route_verified)
  have c: "re_control demo_route_env = demo_exit_control" by (simp add: demo_route_env_def)
  have f: "fst (tcp_verify (re_control demo_route_env) demo_tcp_codec demo_policy_env demo_scope [30] 1600 default_time_policy
      demo_route_cache) = Inr demo_tcp_flow" by (simp add: c demo_tcp_verified)
  have b: "cd_encode (pe_body demo_policy_env) b = [7]" for b by (simp add: demo_policy_env_def demo_policy_base_def)
  have "vp_minimum_signatures demo_verification = 2" by (simp add: demo_verification_def)
  with open_tcp_end_to_end [OF demo_manifest_verified r f] show ?thesis
    unfolding c demo_signed_decode b by auto
qed

end
